(* ===== verification/Prelude.thy ===== *)
theory Prelude
  imports Main
begin

text \<open>
  Shared vocabulary of the development: collections of simplification rules, the result
  type of fallible Go functions (\<open>error + value\<close>, the error on the left as in every
  \<open>(T, error)\<close> return of the panel), and generic list lemmas the components share.
\<close>

named_theorems go_simps "characteristic equations of the modelled Go library functions"
named_theorems tx_simps "how statements and transactions act on a world"
named_theorems inv_intros "operations that keep a component's invariant"

section \<open>Fallible results\<close>

definition rbind :: "'e + 'a \<Rightarrow> ('a \<Rightarrow> 'e + 'b) \<Rightarrow> 'e + 'b" where
  "rbind m f = (case m of Inl e \<Rightarrow> Inl e | Inr a \<Rightarrow> f a)"

definition is_ok :: "'e + 'a \<Rightarrow> bool" where
  "is_ok m = (case m of Inl _ \<Rightarrow> False | Inr _ \<Rightarrow> True)"

lemma rbind_Inl [simp]: "rbind (Inl e) f = Inl e"
  by (simp add: rbind_def)

lemma rbind_Inr [simp]: "rbind (Inr a) f = f a"
  by (simp add: rbind_def)

lemma rbind_eq_Inr: "rbind m f = Inr b \<longleftrightarrow> (\<exists>a. m = Inr a \<and> f a = Inr b)"
  by (cases m) auto

lemma rbind_eq_Inl: "rbind m f = Inl e \<longleftrightarrow> m = Inl e \<or> (\<exists>a. m = Inr a \<and> f a = Inl e)"
  by (cases m) auto

lemma rbind_assoc: "rbind (rbind m f) g = rbind m (\<lambda>a. rbind (f a) g)"
  by (cases m) auto

lemma is_ok_simps [simp]: "is_ok (Inr a)" "\<not> is_ok (Inl e)"
  by (simp_all add: is_ok_def)

section \<open>Lists that stand for tables\<close>

text \<open>
  A table is a list of rows in insertion order; \<open>upd_where p f\<close> is \<open>UPDATE ... WHERE p\<close>.
\<close>

definition upd_where :: "('a \<Rightarrow> bool) \<Rightarrow> ('a \<Rightarrow> 'a) \<Rightarrow> 'a list \<Rightarrow> 'a list" where
  "upd_where p f = map (\<lambda>x. if p x then f x else x)"

lemma upd_where_simps [simp]:
  "upd_where p f [] = []"
  "upd_where p f (x # xs) = (if p x then f x else x) # upd_where p f xs"
  by (simp_all add: upd_where_def)

lemma length_upd_where [simp]: "length (upd_where p f xs) = length xs"
  by (simp add: upd_where_def)

lemma set_upd_where: "set (upd_where p f xs) = (\<lambda>x. if p x then f x else x) ` set xs"
  by (simp add: upd_where_def)

lemma in_upd_whereE:
  assumes "y \<in> set (upd_where p f xs)"
  obtains (hit) x where "x \<in> set xs" "p x" "y = f x"
    | (miss) "y \<in> set xs" "\<not> p y"
  using assms by (auto simp: set_upd_where split: if_splits)

lemma upd_where_none: "\<forall>x \<in> set xs. \<not> p x \<Longrightarrow> upd_where p f xs = xs"
  by (induction xs) auto

lemma map_upd_where_same:
  "(\<And>x. x \<in> set xs \<Longrightarrow> p x \<Longrightarrow> k (f x) = k x) \<Longrightarrow> map k (upd_where p f xs) = map k xs"
  by (induction xs) auto

lemma distinct_map_inj_on:
  "distinct (map k xs) \<Longrightarrow> x \<in> set xs \<Longrightarrow> y \<in> set xs \<Longrightarrow> k x = k y \<Longrightarrow> x = y"
  by (auto simp: distinct_map dest: inj_onD)

lemma find_Some_set: "List.find p xs = Some x \<Longrightarrow> x \<in> set xs \<and> p x"
  by (induction xs) (auto split: if_splits)

lemma find_key_distinct:
  assumes "distinct (map k xs)" and "x \<in> set xs" and "k x = i"
  shows "List.find (\<lambda>r. k r = i) xs = Some x"
  using assms
proof (induction xs)
  case Nil
  then show ?case by simp
next
  case (Cons y ys)
  show ?case
  proof (cases "k y = i")
    case True
    with Cons.prems have "y = x" by (auto simp: image_iff)
    with True show ?thesis by simp
  next
    case False
    with Cons.prems have "x \<in> set ys" by auto
    with False Cons show ?thesis by auto
  qed
qed

lemma find_upd_where_hit:
  assumes "List.find (\<lambda>r. k r = i) xs = Some x" and "\<And>r. k (f r) = k r"
    and "\<And>r. p r \<Longrightarrow> k r = i" and "p x"
  shows "List.find (\<lambda>r. k r = i) (upd_where p f xs) = Some (f x)"
  using assms by (induction xs) (auto split: if_splits)

lemma find_upd_where_other:
  assumes "\<And>r. k (f r) = k r" and "\<And>r. p r \<Longrightarrow> k r \<noteq> i"
  shows "List.find (\<lambda>r. k r = i) (upd_where p f xs) = List.find (\<lambda>r. k r = i) xs"
  using assms by (induction xs) auto

section \<open>ORDER BY ... LIMIT\<close>

lemma sort_key_hd_least:
  assumes "sort_key k xs = x # ys"
  shows "x \<in> set xs \<and> (\<forall>y \<in> set xs. k x \<le> k y)"
proof -
  have s: "set xs = set (x # ys)" using assms by (metis set_sort)
  have "sorted (map k (x # ys))" using assms by (metis sorted_sort_key)
  then show ?thesis using s by auto
qed

lemma sort_key_filter_Nil: "sort_key k xs = [] \<longleftrightarrow> xs = []"
  by (metis length_0_conv length_sort)

end
