(* ===== verification/GoStrings.thy ===== *)
theory GoStrings
  imports Prelude
begin

text \<open>
  The Go string functions the panel uses. A Go string is a sequence of bytes, so it is an
  Isabelle \<open>string\<close> (a \<open>char\<close> is a byte) and \<open>length\<close> is Go's \<open>len\<close>. Runes are
  code points; decoding follows \<open>unicode/utf8\<close>, where every byte that starts no valid
  encoding is one \<open>U+FFFD\<close>. The table of \<open>unicode.ToLower\<close> beyond ASCII is a parameter
  \<open>ul\<close>; everything else is computed.
\<close>

type_synonym rune = nat

abbreviation byte :: "char \<Rightarrow> nat" where "byte \<equiv> of_char"

section \<open>UTF-8\<close>

definition rune_error :: rune where "rune_error = 65533"

definition cont :: "char \<Rightarrow> bool" where
  "cont c = (128 \<le> byte c \<and> byte c \<le> 191)"

text \<open>The second byte of a three or four byte encoding has a range that depends on the first.\<close>

definition second_ok :: "nat \<Rightarrow> char \<Rightarrow> bool" where
  "second_ok b c =
     (let x = byte c in
      (if b = 224 then 160 else if b = 240 then 144 else 128) \<le> x \<and>
      x \<le> (if b = 237 then 159 else if b = 244 then 143 else 191))"

text \<open>The code point of a two, three and four byte encoding.\<close>

definition join2 :: "char \<Rightarrow> char \<Rightarrow> rune" where
  "join2 a c = (byte a - 192) * 64 + (byte c - 128)"

definition join3 :: "char \<Rightarrow> char \<Rightarrow> char \<Rightarrow> rune" where
  "join3 a c d = (byte a - 224) * 4096 + (byte c - 128) * 64 + (byte d - 128)"

definition join4 :: "char \<Rightarrow> char \<Rightarrow> char \<Rightarrow> char \<Rightarrow> rune" where
  "join4 a c d e =
     (byte a - 240) * 262144 + (byte c - 128) * 4096 + (byte d - 128) * 64 + (byte e - 128)"

fun decode_rune :: "string \<Rightarrow> rune \<times> nat" where
  "decode_rune [] = (rune_error, 0)"
| "decode_rune (a # s) =
     (let b = byte a in
      if b < 128 then (b, 1)
      else if 194 \<le> b \<and> b \<le> 223 then
        (case s of c # _ \<Rightarrow> if cont c then (join2 a c, 2)
                            else (rune_error, 1)
         | _ \<Rightarrow> (rune_error, 1))
      else if 224 \<le> b \<and> b \<le> 239 then
        (case s of c # d # _ \<Rightarrow>
           if second_ok b c \<and> cont d
           then (join3 a c d, 3)
           else (rune_error, 1)
         | _ \<Rightarrow> (rune_error, 1))
      else if 240 \<le> b \<and> b \<le> 244 then
        (case s of c # d # e # _ \<Rightarrow>
           if second_ok b c \<and> cont d \<and> cont e
           then (join4 a c d e, 4)
           else (rune_error, 1)
         | _ \<Rightarrow> (rune_error, 1))
      else (rune_error, 1))"

function runes :: "string \<Rightarrow> rune list" where
  "runes [] = []"
| "runes (a # s) = fst (decode_rune (a # s)) # runes (drop (snd (decode_rune (a # s)) - 1) s)"
  by pat_completeness auto
termination by (relation "measure length") auto

definition valid_rune :: "rune \<Rightarrow> bool" where
  "valid_rune r = (r < 1114112 \<and> \<not> (55296 \<le> r \<and> r \<le> 57343))"

definition norm_rune :: "rune \<Rightarrow> rune" where
  "norm_rune r = (if valid_rune r then r else rune_error)"

definition encode_rune :: "rune \<Rightarrow> string" where
  "encode_rune r0 =
     (let r = norm_rune r0 in
      if r < 128 then [char_of r]
      else if r < 2048 then [char_of (192 + r div 64), char_of (128 + r mod 64)]
      else if r < 65536 then
        [char_of (224 + r div 4096), char_of (128 + r div 64 mod 64), char_of (128 + r mod 64)]
      else [char_of (240 + r div 262144), char_of (128 + r div 4096 mod 64),
            char_of (128 + r div 64 mod 64), char_of (128 + r mod 64)])"

definition of_runes :: "rune list \<Rightarrow> string" where
  "of_runes rs = concat (map encode_rune rs)"

section \<open>Substrings\<close>

fun has_prefix :: "string \<Rightarrow> string \<Rightarrow> bool" where
  "has_prefix s [] = True"
| "has_prefix [] (_ # _) = False"
| "has_prefix (a # s) (b # t) = (a = b \<and> has_prefix s t)"

fun contains :: "string \<Rightarrow> string \<Rightarrow> bool" where
  "contains [] t = (t = [])"
| "contains (a # s) t = (has_prefix (a # s) t \<or> contains s t)"

definition has_suffix :: "string \<Rightarrow> string \<Rightarrow> bool" where
  "has_suffix s t = has_prefix (rev s) (rev t)"

section \<open>Case folding\<close>

definition lower_byte :: "char \<Rightarrow> char" where
  "lower_byte c = (if 65 \<le> byte c \<and> byte c \<le> 90 then char_of (byte c + 32) else c)"

definition lower_rune :: "(rune \<Rightarrow> rune) \<Rightarrow> rune \<Rightarrow> rune" where
  "lower_rune ul r = (if r < 128 then (if 65 \<le> r \<and> r \<le> 90 then r + 32 else r) else ul r)"

text \<open>\<open>strings.ToLower\<close>: rune by rune, an invalid byte becoming \<open>U+FFFD\<close>.\<close>

definition to_lower :: "(rune \<Rightarrow> rune) \<Rightarrow> string \<Rightarrow> string" where
  "to_lower ul s = of_runes (map (lower_rune ul) (runes s))"

section \<open>Trimming\<close>

text \<open>The encodings of the code points for which \<open>unicode.IsSpace\<close> holds.\<close>

definition space_runes :: "rune list" where
  "space_runes = [9, 10, 11, 12, 13, 32, 133, 160, 5760, 8192, 8193, 8194, 8195, 8196, 8197,
     8198, 8199, 8200, 8201, 8202, 8232, 8233, 8239, 8287, 12288]"

definition space_seqs :: "string list" where
  "space_seqs = map encode_rune space_runes"

text \<open>\<open>strip_one ws s\<close> removes the first of the sequences \<open>ws\<close> that starts \<open>s\<close>.\<close>

fun strip_one :: "string list \<Rightarrow> string \<Rightarrow> string option" where
  "strip_one [] s = None"
| "strip_one (w # ws) s = (if w \<noteq> [] \<and> has_prefix s w then Some (drop (length w) s) else strip_one ws s)"

lemma has_prefix_append: "has_prefix s t \<longleftrightarrow> (\<exists>u. s = t @ u)"
  by (induction s t rule: has_prefix.induct) auto

lemma strip_one_Some:
  "strip_one ws s = Some t \<Longrightarrow> \<exists>w \<in> set ws. w \<noteq> [] \<and> s = w @ t"
  by (induction ws) (auto simp: has_prefix_append split: if_splits)

lemma strip_one_shorter: "strip_one ws s = Some t \<Longrightarrow> length t < length s"
  by (auto dest!: strip_one_Some)

function strip :: "string list \<Rightarrow> string \<Rightarrow> string" where
  "strip ws s = (case strip_one ws s of None \<Rightarrow> s | Some t \<Rightarrow> strip ws t)"
  by pat_completeness auto
termination by (relation "measure (\<lambda>(ws, s). length s)") (auto simp: strip_one_shorter)

declare strip.simps [simp del]

definition trim_left :: "string \<Rightarrow> string" where
  "trim_left s = strip space_seqs s"

definition trim_right :: "string \<Rightarrow> string" where
  "trim_right s = rev (strip (map rev space_seqs) (rev s))"

text \<open>\<open>strings.TrimSpace\<close> and \<open>bytes.TrimSpace\<close>.\<close>

definition trim_space :: "string \<Rightarrow> string" where
  "trim_space s = trim_right (trim_left s)"

text \<open>\<open>strings.Cut\<close> at a one byte separator.\<close>

fun cut :: "char \<Rightarrow> string \<Rightarrow> (string \<times> string) option" where
  "cut c [] = None"
| "cut c (a # s) = (if a = c then Some ([], s)
     else (case cut c s of None \<Rightarrow> None | Some (x, y) \<Rightarrow> Some (a # x, y)))"

text \<open>\<open>strings.Split\<close> at a one byte separator.\<close>

fun split_on :: "char \<Rightarrow> string \<Rightarrow> string list" where
  "split_on c [] = [[]]"
| "split_on c (a # s) = (if a = c then [] # split_on c s
     else (case split_on c s of [] \<Rightarrow> [[a]] | p # ps \<Rightarrow> (a # p) # ps))"

text \<open>\<open>fmt\<close>'s \<open>%d\<close> for a nonnegative number.\<close>

fun digits :: "nat \<Rightarrow> string" where
  "digits n = (if n < 10 then [char_of (48 + n)] else digits (n div 10) @ [char_of (48 + n mod 10)])"

declare digits.simps [simp del]

definition itoa :: "int \<Rightarrow> string" where
  "itoa i = (if i < 0 then ''-'' @ digits (nat (- i)) else digits (nat i))"

section \<open>Facts about decoding and encoding\<close>

lemma second_ok_cont: "second_ok b c \<Longrightarrow> cont c"
  by (auto simp: second_ok_def cont_def Let_def split: if_splits)

definition boundary :: "string \<Rightarrow> bool" where
  "boundary q = (case q of [] \<Rightarrow> True | c # _ \<Rightarrow> \<not> cont c)"

lemma decode_width:
  "1 \<le> snd (decode_rune (a # s)) \<and> snd (decode_rune (a # s)) \<le> Suc (length s)"
  by (auto simp: Let_def split: list.splits)

lemma decode_append: "boundary q \<Longrightarrow> decode_rune (a # s @ q) = decode_rune (a # s)"
  by (auto simp: Let_def boundary_def dest: second_ok_cont split: list.splits)

lemma runes_append: "boundary q \<Longrightarrow> runes (p @ q) = runes p @ runes q"
proof (induction p rule: runes.induct)
  case 1
  then show ?case by simp
next
  case (2 a s)
  have "snd (decode_rune (a # s)) - 1 \<le> length s"
    using decode_width[of a s] by linarith
  with 2 show ?case by (simp add: decode_append del: decode_rune.simps)
qed

lemma valid_norm_rune [simp]: "valid_rune (norm_rune r)"
  by (simp add: norm_rune_def valid_rune_def rune_error_def)

lemma norm_rune_id [simp]: "valid_rune r \<Longrightarrow> norm_rune r = r"
  by (simp add: norm_rune_def)

lemma split_base64: "(r::nat) = r div 4096 * 4096 + r div 64 mod 64 * 64 + r mod 64"
proof -
  have "r = r div 64 * 64 + r mod 64" by simp
  moreover have "r div 64 = r div 64 div 64 * 64 + r div 64 mod 64" by simp
  moreover have "r div 64 div 64 = r div 4096" by (simp add: div_mult2_eq[symmetric])
  ultimately show ?thesis by linarith
qed

lemma split_base64_more: "(r::nat) div 4096 = r div 262144 * 64 + r div 4096 mod 64"
proof -
  have "r div 4096 = r div 4096 div 64 * 64 + r div 4096 mod 64" by simp
  moreover have "r div 4096 div 64 = r div 262144" by (simp add: div_mult2_eq[symmetric])
  ultimately show ?thesis by simp
qed

lemma decode3:
  assumes "x \<le> 15" "x = 0 \<Longrightarrow> 32 \<le> y" "x = 13 \<Longrightarrow> y \<le> 31" "y < 64" "z < 64"
  shows "decode_rune (char_of (224 + x) # char_of (128 + y) # char_of (128 + z) # q)
    = (x * 4096 + y * 64 + z, 3)"
  using assms by (auto simp: second_ok_def cont_def Let_def join3_def)

lemma decode4:
  assumes "w \<le> 4" "w = 0 \<Longrightarrow> 16 \<le> x" "w = 4 \<Longrightarrow> x \<le> 15" "x < 64" "y < 64" "z < 64"
  shows "decode_rune (char_of (240 + w) # char_of (128 + x) # char_of (128 + y) # char_of (128 + z) # q)
    = (w * 262144 + x * 4096 + y * 64 + z, 4)"
  using assms by (auto simp: second_ok_def cont_def Let_def join4_def)

lemma decode_encode_valid:
  assumes "valid_rune r"
  shows "decode_rune (encode_rune r @ q) = (r, length (encode_rune r))"
proof -
  consider (one) "r < 128" | (two) "128 \<le> r" "r < 2048" | (three) "2048 \<le> r" "r < 65536"
    | (four) "65536 \<le> r" "r < 1114112"
    using assms unfolding valid_rune_def by linarith
  then show ?thesis
  proof cases
    case one
    with assms show ?thesis by (simp add: encode_rune_def)
  next
    case two
    then have "2 \<le> r div 64" "r div 64 \<le> 31" by auto
    with assms two show ?thesis
      by (simp add: encode_rune_def cont_def join2_def)
  next
    case three
    define x y z where "x = r div 4096" and "y = r div 64 mod 64" and "z = r mod 64"
    have r: "r = x * 4096 + y * 64 + z" and b: "y < 64" "z < 64"
      using split_base64[of r] by (auto simp: x_def y_def z_def)
    have e: "encode_rune r = [char_of (224 + x), char_of (128 + y), char_of (128 + z)]"
      using assms three by (simp add: encode_rune_def x_def y_def z_def)
    have "x \<le> 15" "x = 0 \<Longrightarrow> 32 \<le> y" using three r b by linarith+
    moreover have "x = 13 \<Longrightarrow> y \<le> 31"
      using assms r b unfolding valid_rune_def by linarith
    ultimately show ?thesis
      unfolding e using b decode3[of x y z q] r by simp
  next
    case four
    define w x y z where "w = r div 262144" and "x = r div 4096 mod 64"
      and "y = r div 64 mod 64" and "z = r mod 64"
    have r: "r = w * 262144 + x * 4096 + y * 64 + z" and b: "x < 64" "y < 64" "z < 64"
      using split_base64[of r] split_base64_more[of r]
      by (auto simp: w_def x_def y_def z_def)
    have e: "encode_rune r = [char_of (240 + w), char_of (128 + x), char_of (128 + y), char_of (128 + z)]"
      using assms four by (simp add: encode_rune_def w_def x_def y_def z_def)
    have "w \<le> 4" "w = 0 \<Longrightarrow> 16 \<le> x" "w = 4 \<Longrightarrow> x \<le> 15"
      using four r b by linarith+
    then show ?thesis
      unfolding e using b decode4[of w x y z q] r by simp
  qed
qed

lemma encode_norm: "encode_rune (norm_rune r) = encode_rune r"
  by (simp add: encode_rune_def)

lemma decode_encode: "decode_rune (encode_rune r @ q) = (norm_rune r, length (encode_rune r))"
  using decode_encode_valid[of "norm_rune r" q] by (simp add: encode_norm)

lemma encode_nonempty [simp]: "encode_rune r \<noteq> []"
  by (simp add: encode_rune_def Let_def)

lemma runes_encode: "runes (encode_rune r @ q) = norm_rune r # runes q"
proof -
  obtain a s where e: "encode_rune r = a # s"
    by (cases "encode_rune r") (use encode_nonempty in auto)
  from decode_encode[of r q] e show ?thesis
    by (simp del: decode_rune.simps)
qed

lemma runes_of_runes: "runes (of_runes rs) = map norm_rune rs"
  by (induction rs) (simp_all add: of_runes_def runes_encode)

lemma valid_join2: "194 \<le> byte a \<Longrightarrow> byte a \<le> 223 \<Longrightarrow> cont c \<Longrightarrow> valid_rune (join2 a c)"
  unfolding valid_rune_def cont_def join2_def by linarith

lemma valid_join3:
  assumes "224 \<le> byte a" "byte a \<le> 239" "second_ok (byte a) c" "cont d"
  shows "valid_rune (join3 a c d)"
proof -
  have "cont c" and "byte a = 237 \<Longrightarrow> byte c \<le> 159"
    using assms second_ok_cont[OF assms(3)] by (auto simp: second_ok_def Let_def)
  then have "byte a < 237 \<or> byte a = 237 \<and> byte c \<le> 159 \<or> 237 < byte a" by linarith
  then show ?thesis
    using assms(1,2,4) \<open>cont c\<close> unfolding valid_rune_def cont_def join3_def
    by (elim disjE conjE) (intro conjI; linarith)+
qed

lemma valid_join4:
  assumes "240 \<le> byte a" "byte a \<le> 244" "second_ok (byte a) c" "cont d" "cont e"
  shows "valid_rune (join4 a c d e)"
proof -
  have "cont c" and "byte a = 244 \<Longrightarrow> byte c \<le> 143" and "byte a = 240 \<Longrightarrow> 144 \<le> byte c"
    using assms second_ok_cont[OF assms(3)] by (auto simp: second_ok_def Let_def)
  then have "byte a = 240 \<and> 144 \<le> byte c \<or> 240 < byte a \<and> byte a < 244 \<or> byte a = 244 \<and> byte c \<le> 143"
    using assms(1,2) by linarith
  then show ?thesis
    using assms(4,5) \<open>cont c\<close> unfolding valid_rune_def cont_def join4_def
    by (elim disjE conjE) (intro conjI; linarith)+
qed

lemma valid_rune_small [simp]: "r < 128 \<Longrightarrow> valid_rune r" "valid_rune rune_error"
  by (simp_all add: valid_rune_def rune_error_def)

lemma decode_valid: "valid_rune (fst (decode_rune s))"
  by (cases s) (auto simp: Let_def valid_join2 valid_join3 valid_join4 split: list.split)

lemma runes_valid: "r \<in> set (runes s) \<Longrightarrow> valid_rune r"
  by (induction s rule: runes.induct) (auto simp: decode_valid simp del: decode_rune.simps)

lemma runes_of_runes_runes: "runes (of_runes (runes s)) = runes s"
  by (simp add: runes_of_runes map_idI runes_valid)

section \<open>Substrings, runes and case\<close>

lemma contains_append: "contains s t \<longleftrightarrow> (\<exists>u v. s = u @ t @ v)"
proof (induction s)
  case Nil
  then show ?case by auto
next
  case (Cons a s)
  have "(\<exists>u v. a # s = u @ t @ v) \<longleftrightarrow> (\<exists>v. a # s = t @ v) \<or> (\<exists>u v. s = u @ t @ v)"
    by (metis append_Cons append_Nil list.exhaust list.inject)
  with Cons show ?case by (simp add: has_prefix_append)
qed

lemma contains_sub: "contains s t \<Longrightarrow> contains (u @ s @ v) t"
  unfolding contains_append by (metis append.assoc)

definition ascii :: "string \<Rightarrow> bool" where
  "ascii s = (\<forall>c \<in> set s. byte c < 128)"

lemma runes_ascii: "ascii s \<Longrightarrow> runes s = map byte s"
  by (induction s) (auto simp: ascii_def)

lemma boundary_ascii: "ascii s \<Longrightarrow> s \<noteq> [] \<Longrightarrow> boundary (s @ q)"
  by (cases s) (auto simp: ascii_def boundary_def cont_def)

lemma runes_ascii_append: "ascii s \<Longrightarrow> runes (s @ q) = map byte s @ runes q"
  by (induction s) (auto simp: ascii_def)

lemma runes_ascii_middle:
  assumes "ascii s" and "s \<noteq> []"
  shows "runes (p @ s @ q) = runes p @ map byte s @ runes q"
  using assms by (simp add: runes_append boundary_ascii runes_ascii_append)

lemma of_runes_append: "of_runes (xs @ ys) = of_runes xs @ of_runes ys"
  by (simp add: of_runes_def)

lemma of_runes_bytes: "ascii s \<Longrightarrow> of_runes (map byte s) = s"
  by (induction s) (auto simp: of_runes_def ascii_def encode_rune_def)

lemma map_lower_byte: "ascii s \<Longrightarrow> map (lower_rune ul) (map byte s) = map byte (map lower_byte s)"
  by (auto simp: lower_rune_def lower_byte_def ascii_def)

lemma ascii_lower: "ascii s \<Longrightarrow> ascii (map lower_byte s)"
  by (auto simp: ascii_def lower_byte_def)

lemma to_lower_ascii: "ascii s \<Longrightarrow> to_lower ul s = map lower_byte s"
  by (simp add: to_lower_def runes_ascii map_lower_byte ascii_lower of_runes_bytes
      del: map_map)

text \<open>
  An ASCII word inside any byte string survives decoding and case folding: lower casing
  cannot hide it, whatever invalid UTF-8 stands around it.
\<close>

lemma to_lower_middle:
  assumes "ascii s" and "s \<noteq> []"
  shows "to_lower ul (p @ s @ q) = to_lower ul p @ map lower_byte s @ to_lower ul q"
  unfolding to_lower_def runes_ascii_middle[OF assms]
  by (simp add: of_runes_append map_lower_byte ascii_lower of_runes_bytes assms del: map_map)

lemma to_lower_append: "boundary q \<Longrightarrow> to_lower ul (p @ q) = to_lower ul p @ to_lower ul q"
  by (simp add: to_lower_def runes_append of_runes_append)

lemma runes_of_runes_append: "runes (of_runes rs @ q) = map norm_rune rs @ runes q"
  by (induction rs) (simp_all add: of_runes_def runes_encode)

section \<open>Facts about trimming\<close>

lemma strip_decomp: "\<exists>ps. set ps \<subseteq> set ws \<and> s = concat ps @ strip ws s"
proof (induction ws s rule: strip.induct)
  case (1 ws s)
  show ?case
  proof (cases "strip_one ws s")
    case None
    then show ?thesis by (intro exI[of _ "[]"]) (simp add: strip.simps)
  next
    case (Some t)
    then obtain w where w: "w \<in> set ws" "s = w @ t" by (auto dest: strip_one_Some)
    from 1[OF Some] obtain ps where ps: "set ps \<subseteq> set ws" "t = concat ps @ strip ws t" by auto
    have e: "strip ws s = strip ws t" using Some by (simp add: strip.simps[of ws s])
    have "s = concat (w # ps) @ strip ws s" unfolding e using w(2) ps(2) by simp
    then show ?thesis using w(1) ps(1) by (intro exI[of _ "w # ps"]) simp
  qed
qed

lemma strip_done: "strip_one ws (strip ws s) = None"
  by (induction ws s rule: strip.induct)
    (metis strip.simps not_Some_eq option.simps(4) option.simps(5))

lemma strip_idem: "strip ws (strip ws s) = strip ws s"
  using strip_done[of ws s] by (simp add: strip.simps[of ws "strip ws s"])

lemma trim_decomp:
  "\<exists>ps qs. set ps \<subseteq> set space_seqs \<and> set qs \<subseteq> set space_seqs
     \<and> s = concat ps @ trim_space s @ concat qs"
proof -
  obtain ps where p: "set ps \<subseteq> set space_seqs" "s = concat ps @ trim_left s"
    using strip_decomp[of space_seqs s] by (auto simp: trim_left_def)
  let ?t = "rev (trim_left s)"
  obtain qs where q: "set qs \<subseteq> set (map rev space_seqs)" "?t = concat qs @ strip (map rev space_seqs) ?t"
    using strip_decomp[of "map rev space_seqs" ?t] by auto
  have "trim_left s = rev (strip (map rev space_seqs) ?t) @ rev (concat qs)"
    using arg_cong[OF q(2), of rev] by simp
  then have "trim_left s = trim_space s @ concat (map rev (rev qs))"
    by (simp add: trim_space_def trim_right_def rev_concat rev_map)
  moreover have "set (map rev (rev qs)) \<subseteq> set space_seqs" using q(1) by auto
  ultimately show ?thesis using p by (metis append.assoc)
qed

lemma trim_sub: "contains (trim_space s) t \<Longrightarrow> contains s t"
  using trim_decomp[of s] contains_sub by metis

lemma length_trim_space: "length (trim_space s) \<le> length s"
proof -
  obtain ps qs where "s = concat ps @ trim_space s @ concat qs" using trim_decomp by blast
  then have "length s = length (concat ps @ trim_space s @ concat qs)" by (rule arg_cong)
  then show ?thesis by simp
qed

lemma strip_one_None:
  "strip_one ws s = None \<longleftrightarrow> (\<forall>w \<in> set ws. w \<noteq> [] \<longrightarrow> \<not> has_prefix s w)"
  by (induction ws) auto

lemma strip_id: "strip_one ws s = None \<Longrightarrow> strip ws s = s"
  by (simp add: strip.simps)

lemma strip_suffix: "\<exists>p. s = p @ strip ws s"
  using strip_decomp[of ws s] by blast

lemma trim_right_prefix: "\<exists>q. t = trim_right t @ q"
proof -
  obtain p where "rev t = p @ strip (map rev space_seqs) (rev t)" using strip_suffix by blast
  then have "t = rev (strip (map rev space_seqs) (rev t)) @ rev p"
    by (metis rev_append rev_rev_ident)
  then show ?thesis by (auto simp: trim_right_def)
qed

lemma trim_left_stuck: "strip_one space_seqs (trim_space s) = None"
proof -
  obtain q where "trim_left s = trim_space s @ q"
    using trim_right_prefix[of "trim_left s"] by (auto simp: trim_space_def)
  moreover have "strip_one space_seqs (trim_left s) = None"
    by (simp add: trim_left_def strip_done)
  ultimately show ?thesis
    unfolding strip_one_None has_prefix_append by (metis append.assoc)
qed

lemma trim_space_idem [simp]: "trim_space (trim_space s) = trim_space s"
proof -
  have "trim_left (trim_space s) = trim_space s"
    by (simp add: trim_left_def strip_id trim_left_stuck)
  then show ?thesis
    by (simp add: trim_space_def trim_right_def strip_idem)
qed

lemma trim_space_Nil [simp]: "trim_space [] = []"
  using length_trim_space[of "[]"] by simp

lemma boundary_encode: "boundary (encode_rune r @ q)"
proof -
  have v: "valid_rune (norm_rune r)" by simp
  then have "norm_rune r div 64 < 32 \<or> 2048 \<le> norm_rune r" "norm_rune r div 4096 < 16 \<or> 65536 \<le> norm_rune r"
      "norm_rune r div 262144 < 5"
    unfolding valid_rune_def by auto
  then show ?thesis
    by (auto simp: boundary_def encode_rune_def cont_def Let_def)
qed

lemma boundary_spaces: "set qs \<subseteq> set space_seqs \<Longrightarrow> boundary (concat qs)"
  by (cases qs) (auto simp: space_seqs_def boundary_encode, simp add: boundary_def)

lemma to_lower_encode: "to_lower ul (encode_rune r @ q) = encode_rune (lower_rune ul (norm_rune r)) @ to_lower ul q"
  by (simp add: to_lower_def runes_encode of_runes_def)

lemma to_lower_spaces:
  "set ps \<subseteq> set space_seqs \<Longrightarrow> \<exists>u. to_lower ul (concat ps @ q) = u @ to_lower ul q"
proof (induction ps)
  case Nil
  then show ?case by simp
next
  case (Cons w ps)
  then obtain u where "to_lower ul (concat ps @ q) = u @ to_lower ul q" by auto
  moreover from Cons.prems obtain r where "w = encode_rune r" by (auto simp: space_seqs_def)
  ultimately show ?case by (simp add: to_lower_encode)
qed

lemma to_lower_trim: "contains (to_lower ul (trim_space s)) t \<Longrightarrow> contains (to_lower ul s) t"
proof -
  assume c: "contains (to_lower ul (trim_space s)) t"
  obtain ps qs where d: "set ps \<subseteq> set space_seqs" "set qs \<subseteq> set space_seqs"
      "s = concat ps @ trim_space s @ concat qs"
    using trim_decomp by blast
  obtain u where "to_lower ul (concat ps @ trim_space s @ concat qs)
      = u @ to_lower ul (trim_space s @ concat qs)"
    using to_lower_spaces[OF d(1)] by blast
  with d(3) have "to_lower ul s = u @ to_lower ul (trim_space s) @ to_lower ul (concat qs)"
    by (simp add: to_lower_append boundary_spaces[OF d(2)])
  with c show ?thesis using contains_sub by simp
qed

lemma to_lower_take:
  "contains (to_lower ul (of_runes (take n (runes s)))) t \<Longrightarrow> contains (to_lower ul s) t"
proof -
  assume c: "contains (to_lower ul (of_runes (take n (runes s)))) t"
  have v: "runes (of_runes (take n (runes s))) = take n (runes s)"
    unfolding runes_of_runes by (rule map_idI) (rule norm_rune_id [OF runes_valid [OF in_set_takeD]])
  have "to_lower ul s = of_runes (map (lower_rune ul) (take n (runes s) @ drop n (runes s)))"
    by (simp add: to_lower_def)
  also have "\<dots> = of_runes (map (lower_rune ul) (take n (runes s)))
      @ of_runes (map (lower_rune ul) (drop n (runes s)))"
    unfolding map_append of_runes_append ..
  also have "of_runes (map (lower_rune ul) (take n (runes s))) = to_lower ul (of_runes (take n (runes s)))"
    unfolding to_lower_def v ..
  finally show ?thesis using contains_sub[OF c, where u = "[]"] by simp
qed

definition plain :: "char \<Rightarrow> bool" where
  "plain c = (33 \<le> byte c \<and> byte c < 128)"

lemma space_not_plain: "w \<in> set space_seqs \<Longrightarrow> \<not> plain (hd w) \<and> \<not> plain (last w)"
  by (auto simp: space_seqs_def space_runes_def plain_def encode_rune_def valid_rune_def)

lemma trim_space_plain:
  assumes "plain (hd s)" and "plain (last s)"
  shows "trim_space s = s"
proof (cases "s = []")
  case False
  have "strip_one space_seqs s = None"
    unfolding strip_one_None has_prefix_append
    using assms(1) space_not_plain by (metis hd_append2)
  moreover have "strip_one (map rev space_seqs) (rev s) = None"
    unfolding strip_one_None has_prefix_append
  proof (intro ballI impI notI)
    fix w assume w: "w \<in> set (map rev space_seqs)" "w \<noteq> []" "\<exists>u. rev s = w @ u"
    then obtain v u where v: "v \<in> set space_seqs" "w = rev v" "rev s = w @ u" by auto
    then have "s = rev u @ v" by (metis rev_append rev_rev_ident)
    with w(2) v(1,2) assms(2) space_not_plain show False by auto
  qed
  ultimately show ?thesis
    by (simp add: trim_space_def trim_left_def trim_right_def strip_id)
qed simp


lemma strip_some: "strip_one ws s = Some t \<Longrightarrow> strip ws s = strip ws t"
  by (simp add: strip.simps[of ws s])

lemma eq_char_of [go_simps]: "c = char_of n \<longleftrightarrow> byte c = n mod (256 :: nat)"
  by (metis char_of_char of_char_of of_char_mod_256 char_of_mod_256)

lemma char_of_eq [go_simps]: "char_of n = c \<longleftrightarrow> byte c = n mod (256 :: nat)"
  using eq_char_of[of c n] by auto

end
