(* ===== verification/Errors.thy ===== *)
theory Errors
  imports GoStrings
begin

text \<open>
  The error values of the panel. A sentinel (\<open>var ErrX = errors.New(..)\<close>) is a
  constructor, so \<open>errors.Is\<close> compares constructors; \<open>fmt.Errorf("pre%wpost", e)\<close> is
  \<open>Wrapped pre e post\<close>; an \<open>errors.New\<close> at the point of return is \<open>Plain\<close>; what the
  database driver reports is \<open>DbError\<close>. \<open>err_msg\<close> is the method \<open>Error\<close>.
\<close>

datatype err =
    ErrInvalidJob | ErrNoJob | ErrJobNotFound | ErrInvalidTransition
  | ErrInvalidEvent | ErrInvalidLimit
  | ErrInvalidCredentials | ErrInvalidSession | ErrSessionUserNotFound
  | ErrAdminAlreadyExists | ErrInvalidEmail | ErrInvalidDisplayName | ErrWeakPassword
  | ErrInvalidPasswordHash | ErrOwnerRoleNotSeeded
  | ErrUnknownRole | ErrForbidden
  | ErrSettingNotFound | ErrUnsupportedWebServer | ErrWebServerAlreadySelected
  | ErrWebServerNotSelected
  | ErrUnsupportedProfile | ErrUnsupportedPostgreSQLPlan
  | ErrPlanNotReady | ErrUnsupportedAction | ErrMissingWebServer
  | ErrUnknownAction | ErrInvalidAction | ErrInvalidPayload | ErrInvalidResult
  | ErrSocketInUse
  | Canceled | DeadlineExceeded
  | DbError string
  | Plain string
  | Wrapped string err string
  | PermanentError err
  | UncertainError err
  | Joined err err
  | RemoteActionError nat string
  | UncertainActionError err
  | ProtocolError err

fun err_msg :: "err \<Rightarrow> string" where
  "err_msg ErrInvalidJob = ''invalid job''"
| "err_msg ErrNoJob = ''no job available''"
| "err_msg ErrJobNotFound = ''job not found''"
| "err_msg ErrInvalidTransition = ''invalid job state transition''"
| "err_msg ErrInvalidEvent = ''invalid audit event''"
| "err_msg ErrInvalidLimit = ''invalid audit event limit''"
| "err_msg ErrInvalidCredentials = ''invalid email or password''"
| "err_msg ErrInvalidSession = ''invalid session''"
| "err_msg ErrSessionUserNotFound = ''session user not found''"
| "err_msg ErrAdminAlreadyExists = ''admin user already exists''"
| "err_msg ErrInvalidEmail = ''invalid email''"
| "err_msg ErrInvalidDisplayName = ''invalid display name''"
| "err_msg ErrWeakPassword = ''password is too weak''"
| "err_msg ErrInvalidPasswordHash = ''invalid password hash''"
| "err_msg ErrOwnerRoleNotSeeded = ''owner role is not seeded''"
| "err_msg ErrUnknownRole = ''unknown role''"
| "err_msg ErrForbidden = ''forbidden''"
| "err_msg ErrSettingNotFound = ''setting not found''"
| "err_msg ErrUnsupportedWebServer = ''unsupported web server''"
| "err_msg ErrWebServerAlreadySelected = ''web server is already selected''"
| "err_msg ErrWebServerNotSelected = ''web server is not selected''"
| "err_msg ErrUnsupportedProfile = ''unsupported install profile''"
| "err_msg ErrUnsupportedPostgreSQLPlan = ''unsupported PostgreSQL plan''"
| "err_msg ErrPlanNotReady = ''install plan is not ready''"
| "err_msg ErrUnsupportedAction = ''install action is not supported yet''"
| "err_msg ErrMissingWebServer = ''web server selection is required''"
| "err_msg ErrUnknownAction = ''unknown action''"
| "err_msg ErrInvalidAction = ''invalid action''"
| "err_msg ErrInvalidPayload = ''invalid action payload''"
| "err_msg ErrInvalidResult = ''invalid action result''"
| "err_msg ErrSocketInUse = ''agent socket is already in use''"
| "err_msg Canceled = ''context canceled''"
| "err_msg DeadlineExceeded = ''context deadline exceeded''"
| "err_msg (DbError s) = s"
| "err_msg (Plain s) = s"
| "err_msg (Wrapped p e q) = p @ err_msg e @ q"
| "err_msg (PermanentError e) = err_msg e"
| "err_msg (UncertainError e) = err_msg e"
| "err_msg (Joined d e) = err_msg d @ ''\<newline>'' @ err_msg e"
| "err_msg (RemoteActionError n c) =
     ''agent action failed with '' @ c @ '' (HTTP '' @ digits n @ '')''"
| "err_msg (UncertainActionError e) = ''agent action outcome is uncertain''"
| "err_msg (ProtocolError e) = err_msg e"

text \<open>\<open>errors.Is\<close>: the error or one it wraps is the target.\<close>

fun err_is :: "err \<Rightarrow> err \<Rightarrow> bool" where
  "err_is (Wrapped p e q) t = (Wrapped p e q = t \<or> err_is e t)"
| "err_is (PermanentError e) t = (PermanentError e = t \<or> err_is e t)"
| "err_is (UncertainError e) t = (UncertainError e = t \<or> err_is e t)"
| "err_is (Joined d e) t = (Joined d e = t \<or> err_is d t \<or> err_is e t)"
| "err_is (UncertainActionError e) t = (UncertainActionError e = t \<or> err_is e t)"
| "err_is (ProtocolError e) t = (ProtocolError e = t \<or> err_is e t)"
| "err_is e t = (e = t)"

lemma err_is_refl [simp]: "err_is e e"
  by (cases e) auto

end
