(* ===== verification/Ids.thy ===== *)
theory Ids
  imports Errors "HOL-Library.Word"
begin

text \<open>
  Identifiers: the version 4 UUIDs that \<open>internal/jobs\<close>, \<open>internal/audit\<close> and
  \<open>internal/auth\<close> each generate with the same function, and \<open>validJobID\<close>, the test
  every job lookup starts with.
\<close>

unbundle bit_operations_syntax

definition hex_digit :: "nat \<Rightarrow> char" where
  "hex_digit n = (if n < 10 then char_of (48 + n) else char_of (87 + n))"

text \<open>\<open>%x\<close> of a byte slice: two lower case digits a byte.\<close>

definition hex_byte :: "8 word \<Rightarrow> string" where
  "hex_byte b = [hex_digit (unat b div 16), hex_digit (unat b mod 16)]"

definition hex_bytes :: "8 word list \<Rightarrow> string" where
  "hex_bytes bs = concat (map hex_byte bs)"

text \<open>
  \<open>newUUID\<close>: \<open>random\<close> is what \<open>rand.Read\<close> delivers (16 bytes) or its error.
\<close>

definition newUUID :: "err + 8 word list \<Rightarrow> err + string" where
  "newUUID random = (case random of
     Inl e \<Rightarrow> Inl e
   | Inr bytes \<Rightarrow>
       (let bytes = bytes[6 := ((bytes ! 6) AND 0x0f) OR 0x40];
            bytes = bytes[8 := ((bytes ! 8) AND 0x3f) OR 0x80]
        in Inr (hex_bytes (take 4 bytes) @ ''-''
              @ hex_bytes (take 2 (drop 4 bytes)) @ ''-''
              @ hex_bytes (take 2 (drop 6 bytes)) @ ''-''
              @ hex_bytes (take 2 (drop 8 bytes)) @ ''-''
              @ hex_bytes (take 6 (drop 10 bytes)))))"

definition hex_char :: "char \<Rightarrow> bool" where
  "hex_char c = ((48 \<le> byte c \<and> byte c \<le> 57) \<or> (97 \<le> byte c \<and> byte c \<le> 102)
     \<or> (65 \<le> byte c \<and> byte c \<le> 70))"

definition validJobID :: "string \<Rightarrow> bool" where
  "validJobID i =
     (length i = 36 \<and>
      (\<forall>k \<in> set [0..<36].
         if k = 8 \<or> k = 13 \<or> k = 18 \<or> k = 23 then i ! k = CHR ''-'' else hex_char (i ! k)))"

section \<open>Generated identifiers are valid\<close>

lemma hex_digit_char: "n < 16 \<Longrightarrow> hex_char (hex_digit n)"
  by (simp add: hex_digit_def hex_char_def)

lemma hex_byte_chars: "c \<in> set (hex_byte b) \<Longrightarrow> hex_char c"
proof -
  assume "c \<in> set (hex_byte b)"
  moreover have "unat b < 2 ^ LENGTH(8)" by (rule unsigned_less)
  then have "unat b div 16 < 16" by simp
  ultimately show "hex_char c"
    by (auto simp: hex_byte_def hex_digit_char)
qed

lemma length_hex_bytes [simp]: "length (hex_bytes bs) = 2 * length bs"
  by (induction bs) (simp_all add: hex_bytes_def hex_byte_def)

lemma hex_bytes_chars: "c \<in> set (hex_bytes bs) \<Longrightarrow> hex_char c"
  by (auto simp: hex_bytes_def dest: hex_byte_chars)

lemma validJobID_groups:
  assumes "length a = 8" "length b = 4" "length c = 4" "length d = 4" "length e = 12"
    and "\<And>x. x \<in> set (a @ b @ c @ d @ e) \<Longrightarrow> hex_char x"
  shows "validJobID (a @ ''-'' @ b @ ''-'' @ c @ ''-'' @ d @ ''-'' @ e)" (is "validJobID ?i")
proof -
  have "if k = 8 \<or> k = 13 \<or> k = 18 \<or> k = 23 then ?i ! k = CHR ''-'' else hex_char (?i ! k)"
    if "k < 36" for k
  proof -
    consider "k < 8" | "k = 8" | "8 < k" "k < 13" | "k = 13" | "13 < k" "k < 18" | "k = 18"
      | "18 < k" "k < 23" | "k = 23" | "23 < k"
      by linarith
    then show ?thesis
      using that assms(1-5) by cases (auto simp: nth_append nth_Cons' intro!: assms(6))
  qed
  moreover have "length ?i = 36" using assms(1-5) by simp
  ultimately show ?thesis
    unfolding validJobID_def by (metis atLeastLessThan_iff set_upt)
qed

text \<open>The version nibble is 4 and the variant bits are 10, whatever the random bytes.\<close>

lemma version_nibble: "unat (((b :: 8 word) AND 0x0f) OR 0x40) div 16 = 4"
proof -
  have "drop_bit 4 ((b AND 0x0f) OR 0x40) = (4 :: 8 word)"
    by (simp add: drop_bit_or drop_bit_and)
  then have "drop_bit 4 (unat ((b AND 0x0f) OR 0x40)) = 4"
    by (simp only: unat_drop_bit_eq[symmetric]) simp
  then show ?thesis by (simp add: drop_bit_eq_div)
qed

lemma variant_nibble:
  fixes b :: "8 word"
  shows "unat ((b AND 0x3f) OR 0x80) div 16 \<in> {8, 9, 10, 11}"
proof -
  have "drop_bit 6 ((b AND 0x3f) OR 0x80) = (2 :: 8 word)"
    by (simp add: drop_bit_or drop_bit_and)
  then have "drop_bit 6 (unat ((b AND 0x3f) OR 0x80)) = 2"
    by (simp only: unat_drop_bit_eq[symmetric]) simp
  then have "unat ((b AND 0x3f) OR 0x80) div 64 = 2" by (simp add: drop_bit_eq_div)
  then have "128 \<le> unat ((b AND 0x3f) OR 0x80) \<and> unat ((b AND 0x3f) OR 0x80) < 192" by linarith
  then show ?thesis by auto
qed

lemma list16:
  assumes "length xs = 16"
  obtains a b c d e f g h i j k l m n p q
  where "xs = [a, b, c, d, e, f, g, h, i, j, k, l, m, n, p, q]"
  using assms by (auto simp: length_Suc_conv numeral_eq_Suc)

text \<open>C26. The identifiers the panel generates are accepted by its own \<open>validJobID\<close>, for every
  16 random bytes: 36 characters, hyphens at the four positions, hexadecimal digits
  elsewhere; the version digit is 4 and the variant digit is one of 8, 9, a, b.\<close>

theorem newUUID_valid:
  assumes "length bytes = 16" and "newUUID (Inr bytes) = Inr i"
  shows "validJobID i \<and> i ! 14 = CHR ''4'' \<and> i ! 19 \<in> set ''89ab''"
proof -
  obtain a b c d e f g h k j l m n p q r where
    bs: "bytes = [a, b, c, d, e, f, g, h, k, j, l, m, n, p, q, r]"
    using assms(1) by (rule list16)
  let ?v = "(g AND 0x0f) OR 0x40" and ?w = "(k AND 0x3f) OR 0x80"
  have i: "i = hex_bytes [a, b, c, d] @ ''-'' @ hex_bytes [e, f] @ ''-'' @ hex_bytes [?v, h]
      @ ''-'' @ hex_bytes [?w, j] @ ''-'' @ hex_bytes [l, m, n, p, q, r]"
    using assms(2) by (simp add: newUUID_def bs)
  have "validJobID i"
    unfolding i by (rule validJobID_groups) (auto dest: hex_bytes_chars)
  moreover have "i ! 14 = hex_digit (unat ?v div 16)" "i ! 19 = hex_digit (unat ?w div 16)"
    by (simp_all add: i hex_bytes_def hex_byte_def)
  moreover have "hex_digit (unat ?w div 16) \<in> set ''89ab''"
    using variant_nibble[of k] by (auto simp: hex_digit_def char_of_eq)
  ultimately show ?thesis
    by (simp add: version_nibble) (simp add: hex_digit_def char_of_eq)
qed

theorem newUUID_valid_witness:
  "validJobID ''00000000-0000-4000-8000-000000000000''"
proof -
  let ?z = "[0, 0, 0, 0, 0, 0, 0, 0, 0, 0, 0, 0, 0, 0, 0, 0] :: 8 word list"
  have "newUUID (Inr ?z) = Inr ''00000000-0000-4000-8000-000000000000''"
    by (simp add: newUUID_def hex_bytes_def hex_byte_def hex_digit_def char_of_eq)
  then show ?thesis
    using newUUID_valid[of ?z] by simp
qed

end
