(* ===== verification/Store.thy ===== *)
theory Store
  imports Errors
begin

text \<open>
  The database as the panel sees it: the tables of \<open>services/migrations\<close> as lists of rows
  in insertion order, and the effect of \<open>database/sql\<close> calls on them. Every call consumes
  one \<open>reply\<close> of the environment, so that a driver error is a branch of every statement:
  \<open>Done\<close>, \<open>Refused\<close> (no effect, an error) or \<open>Lost\<close> (the effect happens and an error is
  reported, as when the connection breaks before the acknowledgement). An exhausted reply
  list answers \<open>Done\<close>. PostgreSQL's input conversions are parameters (\<open>pg\<close>).
\<close>

section \<open>Rows\<close>

text \<open>An instant, in nanoseconds since the zero \<open>time.Time\<close>; a duration in nanoseconds.\<close>

type_synonym time = int
type_synonym duration = int

definition zero_time :: time where "zero_time = 0"

abbreviation seconds :: "int \<Rightarrow> duration" where "seconds n \<equiv> n * 1000000000"
abbreviation minutes :: "int \<Rightarrow> duration" where "minutes n \<equiv> n * 60000000000"

datatype status = Queued | Running | Succeeded | Failed | Cancelled

record job_row =
  jr_id :: string
  jr_type :: string
  jr_status :: status
  jr_resource_key :: string
  jr_idempotency_key :: string
  jr_payload :: string
  jr_attempts :: int
  jr_max_attempts :: int
  jr_retryable :: bool
  jr_claim_token :: "string option"
  jr_run_after :: time
  jr_lease_expires_at :: "time option"
  jr_started_at :: "time option"
  jr_finished_at :: "time option"
  jr_result_code :: "string option"
  jr_result :: "string option"
  jr_created_at :: time
  jr_updated_at :: time

record job_log_row =
  jl_id :: nat
  jl_job_id :: string
  jl_level :: string
  jl_message :: string
  jl_created_at :: time

record audit_row =
  ar_id :: string
  ar_actor_user_id :: "string option"
  ar_action :: string
  ar_target_type :: string
  ar_target_id :: string
  ar_ip_address :: "string option"
  ar_user_agent :: string
  ar_metadata :: "(string \<times> string) list"
  ar_created_at :: time

record user_row =
  ur_id :: string
  ur_email :: string
  ur_password_hash :: string
  ur_display_name :: string
  ur_is_active :: bool

record role_row =
  rr_id :: string
  rr_name :: string
  rr_description :: string

record permission_row =
  pr_id :: string
  pr_code :: string
  pr_description :: string

record session_row =
  sr_id :: string
  sr_user_id :: string
  sr_token_hash :: string
  sr_ip_address :: "string option"
  sr_user_agent :: string
  sr_expires_at :: time

record setting_row =
  st_key :: string
  st_value :: string
  st_is_immutable :: bool

record tables =
  t_users :: "user_row list"
  t_roles :: "role_row list"
  t_permissions :: "permission_row list"
  t_user_roles :: "(string \<times> string) list"        \<comment> \<open>user id, role id\<close>
  t_role_permissions :: "(string \<times> string) list"  \<comment> \<open>role id, permission id\<close>
  t_user_accounts :: "(string \<times> string) list"     \<comment> \<open>user id, account id\<close>
  t_sessions :: "session_row list"
  t_settings :: "setting_row list"
  t_jobs :: "job_row list"
  t_job_logs :: "job_log_row list"
  t_audit_events :: "audit_row list"
  t_migrations :: "(int \<times> string) list"

definition empty_tables :: tables where
  "empty_tables = \<lparr>t_users = [], t_roles = [], t_permissions = [], t_user_roles = [],
     t_role_permissions = [], t_user_accounts = [], t_sessions = [], t_settings = [],
     t_jobs = [], t_job_logs = [], t_audit_events = [], t_migrations = []\<rparr>"

text \<open>PostgreSQL's conversions from text: \<open>None\<close> when the cast is an error.\<close>

record pg =
  uuid_in :: "string \<Rightarrow> string option"
  jsonb_in :: "string \<Rightarrow> string option"
  inet_in :: "string \<Rightarrow> string option"

text \<open>A cast of \<open>NULLIF(x, '')\<close>: the empty string is NULL.\<close>

definition null_cast :: "(string \<Rightarrow> string option) \<Rightarrow> string \<Rightarrow> string option option" where
  "null_cast f s = (if s = [] then Some None else map_option Some (f s))"

section \<open>Programs over the database\<close>

definition unique_violation :: err where
  "unique_violation = DbError ''duplicate key value violates unique constraint''"

definition check_violation :: err where
  "check_violation = DbError ''new row violates check constraint''"

definition fk_violation :: err where
  "fk_violation = DbError ''insert violates foreign key constraint''"

definition cast_failure :: err where
  "cast_failure = DbError ''invalid input syntax''"

datatype reply = Done | Refused string | Lost string

record world =
  w_tables :: tables
  w_replies :: "reply list"

type_synonym 'a prog = "world \<Rightarrow> (err + 'a) \<times> world"

definition take_reply :: "world \<Rightarrow> reply \<times> world" where
  "take_reply w = (case w_replies w of [] \<Rightarrow> (Done, w) | r # rs \<Rightarrow> (r, w\<lparr>w_replies := rs\<rparr>))"

definition retp :: "'a \<Rightarrow> 'a prog" where "retp a w = (Inr a, w)"

definition failp :: "err \<Rightarrow> 'a prog" where "failp e w = (Inl e, w)"

definition bindp :: "'a prog \<Rightarrow> ('a \<Rightarrow> 'b prog) \<Rightarrow> 'b prog" where
  "bindp m f w = (case m w of (Inl e, w') \<Rightarrow> (Inl e, w') | (Inr a, w') \<Rightarrow> f a w')"

text \<open>A statement: its effect is a function of the tables, which may refuse (a constraint).\<close>

definition stmt :: "(tables \<Rightarrow> err + 'a \<times> tables) \<Rightarrow> 'a prog" where
  "stmt f w = (case take_reply w of
      (Refused s, w1) \<Rightarrow> (Inl (DbError s), w1)
    | (Lost s, w1) \<Rightarrow> (case f (w_tables w1) of
          Inl e \<Rightarrow> (Inl e, w1)
        | Inr (a, t) \<Rightarrow> (Inl (DbError s), w1\<lparr>w_tables := t\<rparr>))
    | (Done, w1) \<Rightarrow> (case f (w_tables w1) of
          Inl e \<Rightarrow> (Inl e, w1)
        | Inr (a, t) \<Rightarrow> (Inr a, w1\<lparr>w_tables := t\<rparr>)))"

definition query :: "(tables \<Rightarrow> err + 'a) \<Rightarrow> 'a prog" where
  "query f w = (case take_reply w of
      (Done, w1) \<Rightarrow> (f (w_tables w1), w1)
    | (Refused s, w1) \<Rightarrow> (Inl (DbError s), w1)
    | (Lost s, w1) \<Rightarrow> (Inl (DbError s), w1))"

text \<open>
  A transaction: \<open>BeginTx\<close>, the body, and either \<open>Commit\<close> or the deferred \<open>Rollback\<close>. The
  body ends by committing or by returning without a commit.
\<close>

datatype 'a tx_end = Commit 'a | Rollback 'a

definition restore :: "world \<Rightarrow> world \<Rightarrow> world" where
  "restore w0 w = w\<lparr>w_tables := w_tables w0\<rparr>"

definition tx :: "'a tx_end prog \<Rightarrow> 'a prog" where
  "tx body w = (case take_reply w of
      (Refused s, w1) \<Rightarrow> (Inl (DbError s), w1)
    | (Lost s, w1) \<Rightarrow> (Inl (DbError s), w1)
    | (Done, w1) \<Rightarrow> (case body w1 of
          (Inl e, w2) \<Rightarrow> (Inl e, restore w w2)
        | (Inr (Rollback a), w2) \<Rightarrow> (Inr a, restore w w2)
        | (Inr (Commit a), w2) \<Rightarrow> (case take_reply w2 of
              (Done, w3) \<Rightarrow> (Inr a, w3)
            | (Refused s, w3) \<Rightarrow> (Inl (DbError s), restore w w3)
            | (Lost s, w3) \<Rightarrow> (Inl (DbError s), w3))))"

section \<open>How they act on a world\<close>

definition no_loss :: "world \<Rightarrow> bool" where
  "no_loss w = (\<forall>r \<in> set (w_replies w). case r of Lost _ \<Rightarrow> False | _ \<Rightarrow> True)"

definition all_done :: "world \<Rightarrow> bool" where
  "all_done w = (\<forall>r \<in> set (w_replies w). r = Done)"

lemma take_reply_tables: "take_reply w = (r, w') \<Longrightarrow> w_tables w' = w_tables w"
  by (auto simp: take_reply_def split: list.splits)

lemma take_reply_no_loss: "take_reply w = (r, w') \<Longrightarrow> no_loss w \<Longrightarrow> no_loss w' \<and> (\<forall>s. r \<noteq> Lost s)"
  by (auto simp: take_reply_def no_loss_def split: list.splits)

lemma take_reply_all_done: "take_reply w = (r, w') \<Longrightarrow> all_done w \<Longrightarrow> r = Done \<and> all_done w'"
  by (auto simp: take_reply_def all_done_def split: list.splits)

lemma take_reply_empty [tx_simps]: "w_replies w = [] \<Longrightarrow> take_reply w = (Done, w)"
  by (simp add: take_reply_def)

lemma take_reply_Cons [tx_simps]:
  "w_replies w = r # rs \<Longrightarrow> take_reply w = (r, w\<lparr>w_replies := rs\<rparr>)"
  by (simp add: take_reply_def)

lemma stmt_Inr:
  "stmt f w = (Inr a, w') \<Longrightarrow> \<exists>t. f (w_tables w) = Inr (a, t) \<and> w_tables w' = t"
  by (auto simp: stmt_def split: prod.splits reply.splits sum.splits dest: take_reply_tables)

lemma stmt_Inl_no_loss:
  "stmt f w = (Inl e, w') \<Longrightarrow> no_loss w \<Longrightarrow> w_tables w' = w_tables w"
  by (auto simp: stmt_def split: prod.splits reply.splits sum.splits
      dest: take_reply_tables take_reply_no_loss)

lemma stmt_cases_tables:
  "w_tables (snd (stmt f w)) = w_tables w \<or> (\<exists>a. f (w_tables w) = Inr (a, w_tables (snd (stmt f w))))"
  by (auto simp: stmt_def split: prod.splits reply.splits sum.splits dest: take_reply_tables)

lemma query_tables [simp]: "w_tables (snd (query f w)) = w_tables w"
  by (auto simp: query_def split: prod.splits reply.splits dest: take_reply_tables)

lemma query_Inr: "query f w = (Inr a, w') \<Longrightarrow> f (w_tables w) = Inr a \<and> w_tables w' = w_tables w"
  by (auto simp: query_def split: prod.splits reply.splits dest: take_reply_tables)

lemma bindp_Inr:
  "bindp m f w = (Inr b, w') \<longleftrightarrow> (\<exists>a w1. m w = (Inr a, w1) \<and> f a w1 = (Inr b, w'))"
  by (auto simp: bindp_def split: prod.splits sum.splits)

lemma bindp_Inl:
  "bindp m f w = (Inl e, w') \<longleftrightarrow>
     m w = (Inl e, w') \<or> (\<exists>a w1. m w = (Inr a, w1) \<and> f a w1 = (Inl e, w'))"
  by (auto simp: bindp_def split: prod.splits sum.splits)

text \<open>No reply list ever gains replies.\<close>

definition keeps_no_loss :: "'a prog \<Rightarrow> bool" where
  "keeps_no_loss p = (\<forall>w. no_loss w \<longrightarrow> no_loss (snd (p w)))"

lemma no_loss_upd [simp]: "no_loss (w\<lparr>w_tables := t\<rparr>) = no_loss w" "no_loss (restore w0 w) = no_loss w"
  by (simp_all add: no_loss_def restore_def)

lemma all_done_upd [simp]: "all_done (w\<lparr>w_tables := t\<rparr>) = all_done w" "all_done (restore w0 w) = all_done w"
  by (simp_all add: all_done_def restore_def)

lemma tables_restore [simp]: "w_tables (restore w0 w) = w_tables w0"
  by (simp add: restore_def)

lemma keeps_stmt [inv_intros]: "keeps_no_loss (stmt f)"
  by (auto simp: keeps_no_loss_def stmt_def split: prod.splits reply.splits sum.splits
      dest: take_reply_no_loss)

lemma keeps_query [inv_intros]: "keeps_no_loss (query f)"
  by (auto simp: keeps_no_loss_def query_def split: prod.splits reply.splits
      dest: take_reply_no_loss)

lemma keeps_retp [inv_intros]: "keeps_no_loss (retp a)" "keeps_no_loss (failp e)"
  by (simp_all add: keeps_no_loss_def retp_def failp_def)

lemma keeps_bindp [inv_intros]:
  assumes "keeps_no_loss m" and "\<And>a. keeps_no_loss (f a)"
  shows "keeps_no_loss (bindp m f)"
  unfolding keeps_no_loss_def
proof (intro allI impI)
  fix w assume "no_loss w"
  then have "no_loss (snd (m w))" using assms(1) by (simp add: keeps_no_loss_def)
  then show "no_loss (snd (bindp m f w))"
    using assms(2) by (auto simp: bindp_def keeps_no_loss_def split: prod.splits sum.splits)
qed

text \<open>
  A transaction is atomic: it leaves the tables of its body's committed end, or the
  tables it started from; an error reported without a lost reply leaves them unchanged.
\<close>

lemma tx_tables:
  "w_tables (snd (tx body w)) = w_tables w \<or>
   (\<exists>w1 a w2. w_tables w1 = w_tables w \<and> body w1 = (Inr (Commit a), w2)
      \<and> w_tables (snd (tx body w)) = w_tables w2)"
  by (auto simp: tx_def split: prod.split reply.split sum.split tx_end.split)
    (metis take_reply_tables)+

lemma tx_Inr:
  assumes "tx body w = (Inr a, w')"
  shows "\<exists>w1 w2. w_tables w1 = w_tables w \<and>
     (body w1 = (Inr (Commit a), w2) \<and> w_tables w' = w_tables w2
      \<or> body w1 = (Inr (Rollback a), w2) \<and> w_tables w' = w_tables w)"
  using assms
  by (auto simp: tx_def split: prod.splits reply.splits sum.splits tx_end.splits
      dest: take_reply_tables)

lemma tx_Inl_no_loss:
  assumes "tx body w = (Inl e, w')" and "no_loss w" and "keeps_no_loss body"
  shows "w_tables w' = w_tables w"
proof -
  have "no_loss (snd (body w1))" if "take_reply w = (r, w1)" for r w1
    using that assms(2,3) take_reply_no_loss by (auto simp: keeps_no_loss_def)
  then show ?thesis
    using assms(1,2)
    by (fastforce simp: tx_def split: prod.splits reply.splits sum.splits tx_end.splits
        dest: take_reply_tables take_reply_no_loss)
qed

lemma keeps_tx [inv_intros]:
  assumes "keeps_no_loss body"
  shows "keeps_no_loss (tx body)"
  unfolding keeps_no_loss_def
proof (intro allI impI)
  fix w assume n: "no_loss w"
  have "no_loss (snd (body w1))" if "take_reply w = (r, w1)" for r w1
    using that assms n take_reply_no_loss by (auto simp: keeps_no_loss_def)
  then show "no_loss (snd (tx body w))"
    using n by (fastforce simp: tx_def split: prod.splits reply.splits sum.splits tx_end.splits
        dest: take_reply_no_loss)
qed

text \<open>A body that only ends by committing.\<close>

definition commits :: "'a tx_end prog \<Rightarrow> bool" where
  "commits body = (\<forall>w b w'. body w = (Inr b, w') \<longrightarrow> (\<exists>x. b = Commit x))"

lemma commits_intros [inv_intros]:
  "commits (retp (Commit x))" "(\<And>a. commits (f a)) \<Longrightarrow> commits (bindp m f)" "commits (failp e)"
  unfolding commits_def by (simp_all add: retp_def failp_def bindp_Inr) blast

lemma tx_commit:
  assumes "tx body w = (Inr a, w')" and "commits body"
  obtains w1 w2 where "w_tables w1 = w_tables w" "body w1 = (Inr (Commit a), w2)" "w_tables w' = w_tables w2"
  using tx_Inr[OF assms(1)] assms(2) unfolding commits_def by blast

text \<open>A call whose error the caller examines.\<close>

definition trying :: "'a prog \<Rightarrow> (err + 'a \<Rightarrow> 'b prog) \<Rightarrow> 'b prog" where
  "trying m k w = (case m w of (r, w') \<Rightarrow> k r w')"

lemma trying_eq: "m w = (r, w') \<Longrightarrow> trying m k w = k r w'"
  by (simp add: trying_def)

lemma keeps_trying [inv_intros]:
  "keeps_no_loss m \<Longrightarrow> (\<And>r. keeps_no_loss (k r)) \<Longrightarrow> keeps_no_loss (trying m k)"
  by (fastforce simp: keeps_no_loss_def trying_def split: prod.splits)

text \<open>Running against a database that answers everything.\<close>

lemma stmt_free: "w_replies w = [] \<Longrightarrow> f (w_tables w) = Inr (a, t) \<Longrightarrow> stmt f w = (Inr a, w\<lparr>w_tables := t\<rparr>)"
  by (simp add: stmt_def take_reply_def)

lemma query_free: "w_replies w = [] \<Longrightarrow> f (w_tables w) = r \<Longrightarrow> query f w = (r, w)"
  by (simp add: query_def take_reply_def)

lemma bindp_ok: "m w = (Inr a, w1) \<Longrightarrow> bindp m f w = f a w1"
  by (simp add: bindp_def)

lemma tx_free:
  "w_replies w = [] \<Longrightarrow> body w = (Inr (Commit a), w2) \<Longrightarrow> w_replies w2 = [] \<Longrightarrow> tx body w = (Inr a, w2)"
  by (simp add: tx_def take_reply_def)

lemma tx_effect:
  assumes "tx body w = (res, w')"
    and "\<And>a w1 w2. body w1 = (Inr (Commit a), w2) \<Longrightarrow> P (w_tables w1) (w_tables w2)"
  shows "w_tables w' = w_tables w \<or> P (w_tables w) (w_tables w')"
  using tx_tables[of body w] assms(2) unfolding assms(1) snd_conv by metis

end
