(* ===== verification/AuditTrail.thy ===== *)
theory AuditTrail
  imports Ids Store "HOL-Library.Product_Lexorder" "HOL-Library.List_Lexorder" "HOL-Library.Char_ord"
begin

text \<open>
  \<open>internal/audit\<close>: the audit event, the checks and normalisation of \<open>Writer.Record\<close>, and
  the SQL store, which only ever appends. A metadata map is an association list with
  distinct keys (\<open>nil\<close> and the empty map are both \<open>[]\<close>).
\<close>

section \<open>Actions and limits\<close>

definition ActionBootstrapAdminCreated :: string where
  "ActionBootstrapAdminCreated = ''auth.bootstrap_admin.created''"
definition ActionLoginSucceeded :: string where "ActionLoginSucceeded = ''auth.login.succeeded''"
definition ActionLoginFailed :: string where "ActionLoginFailed = ''auth.login.failed''"
definition ActionLoginRejected :: string where "ActionLoginRejected = ''auth.login.rejected''"
definition ActionLogoutSucceeded :: string where "ActionLogoutSucceeded = ''auth.logout.succeeded''"
definition ActionJobRetried :: string where "ActionJobRetried = ''job.retried''"
definition ActionJobCancelled :: string where "ActionJobCancelled = ''job.cancelled''"
definition ActionWebServerSelected :: string where
  "ActionWebServerSelected = ''settings.web_server.selected''"
definition ActionWebServerChangeDenied :: string where
  "ActionWebServerChangeDenied = ''settings.web_server.change_denied''"

lemmas action_defs = ActionBootstrapAdminCreated_def ActionLoginSucceeded_def
  ActionLoginFailed_def ActionLoginRejected_def ActionLogoutSucceeded_def ActionJobRetried_def
  ActionJobCancelled_def ActionWebServerSelected_def ActionWebServerChangeDenied_def

definition MaxRecentEvents :: int where "MaxRecentEvents = 100"
definition maxActionBytes :: nat where "maxActionBytes = 128"
definition maxTargetTypeBytes :: nat where "maxTargetTypeBytes = 64"
definition maxTargetIDBytes :: nat where "maxTargetIDBytes = 256"
definition maxUserAgentBytes :: nat where "maxUserAgentBytes = 2048"
definition maxMetadataValueBytes :: nat where "maxMetadataValueBytes = 1024"
definition maxMetadataBytes :: nat where "maxMetadataBytes = 8192"

definition auditMetadataKeys :: "string \<rightharpoonup> string set" where
  "auditMetadataKeys = Map.empty(
     ActionBootstrapAdminCreated \<mapsto> {''source''},
     ActionLoginSucceeded \<mapsto> {},
     ActionLoginFailed \<mapsto> {},
     ActionLoginRejected \<mapsto> {''reason''},
     ActionLogoutSucceeded \<mapsto> {},
     ActionJobRetried \<mapsto> {},
     ActionJobCancelled \<mapsto> {},
     ActionWebServerSelected \<mapsto> {''value''},
     ActionWebServerChangeDenied \<mapsto> {''value'', ''current''})"

record audit_event =
  ae_id :: string
  ae_actor_user_id :: string
  ae_action :: string
  ae_target_type :: string
  ae_target_id :: string
  ae_ip_address :: string
  ae_user_agent :: string
  ae_metadata :: "(string \<times> string) list"
  ae_created_at :: time

text \<open>An \<open>Event\<close> literal that sets no \<open>ID\<close> and no \<open>CreatedAt\<close>.\<close>

definition event_literal ::
  "string \<Rightarrow> string \<Rightarrow> string \<Rightarrow> string \<Rightarrow> string \<Rightarrow> string \<Rightarrow> (string \<times> string) list \<Rightarrow> audit_event" where
  "event_literal actor action ttype tid ip agent metadata =
     \<lparr>ae_id = [], ae_actor_user_id = actor, ae_action = action, ae_target_type = ttype,
      ae_target_id = tid, ae_ip_address = ip, ae_user_agent = agent, ae_metadata = metadata,
      ae_created_at = zero_time\<rparr>"

section \<open>Writer.Record\<close>

definition trim_event :: "audit_event \<Rightarrow> audit_event" where
  "trim_event ev = ev\<lparr>
     ae_actor_user_id := trim_space (ae_actor_user_id ev),
     ae_action := trim_space (ae_action ev),
     ae_target_type := trim_space (ae_target_type ev),
     ae_target_id := trim_space (ae_target_id ev),
     ae_ip_address := trim_space (ae_ip_address ev),
     ae_user_agent := trim_space (ae_user_agent ev)\<rparr>"

definition metadata_bytes :: "(string \<times> string) list \<Rightarrow> nat" where
  "metadata_bytes md = sum_list (map (\<lambda>(k, v). length k + length v) md)"

definition valid_event :: "audit_event \<Rightarrow> bool" where
  "valid_event ev = (case auditMetadataKeys (ae_action ev) of
     None \<Rightarrow> False
   | Some allowed \<Rightarrow>
       \<not> (ae_target_type ev = [] \<or> ae_target_id ev = []
          \<or> maxActionBytes < length (ae_action ev)
          \<or> maxTargetTypeBytes < length (ae_target_type ev)
          \<or> maxTargetIDBytes < length (ae_target_id ev)
          \<or> maxUserAgentBytes < length (ae_user_agent ev))
       \<and> (\<forall>(k, v) \<in> set (ae_metadata ev). k \<in> allowed \<and> \<not> maxMetadataValueBytes < length v)
       \<and> \<not> maxMetadataBytes < metadata_bytes (ae_metadata ev))"

text \<open>\<open>Writer.Record\<close> over any store: \<open>write\<close> is the method of the \<open>Store\<close> interface,
  \<open>now\<close> and \<open>newid\<close> what the clock and the id generator deliver.\<close>

definition audit_record ::
  "(audit_event \<Rightarrow> unit prog) \<Rightarrow> time \<Rightarrow> err + string \<Rightarrow> audit_event \<Rightarrow> audit_event prog" where
  "audit_record write now newid ev0 =
     (let ev = trim_event ev0 in
      if \<not> valid_event ev then failp ErrInvalidEvent
      else (case newid of
              Inl e \<Rightarrow> failp e
            | Inr i \<Rightarrow>
                (let ev' = ev\<lparr>ae_id := i, ae_created_at := now\<rparr> in
                 bindp (write ev') (\<lambda>_. retp ev'))))"

section \<open>The SQL store\<close>

definition audit_row_of :: "pg \<Rightarrow> audit_event \<Rightarrow> audit_row option" where
  "audit_row_of pg ev =
     (case (uuid_in pg (ae_id ev), null_cast (uuid_in pg) (ae_actor_user_id ev),
            null_cast (inet_in pg) (ae_ip_address ev)) of
        (Some i, Some actor, Some ip) \<Rightarrow> Some
          \<lparr>ar_id = i, ar_actor_user_id = actor, ar_action = ae_action ev,
           ar_target_type = ae_target_type ev, ar_target_id = ae_target_id ev,
           ar_ip_address = ip, ar_user_agent = ae_user_agent ev,
           ar_metadata = ae_metadata ev, ar_created_at = ae_created_at ev\<rparr>
      | _ \<Rightarrow> None)"

definition insert_audit :: "audit_row \<Rightarrow> tables \<Rightarrow> err + unit \<times> tables" where
  "insert_audit r t =
     (if ar_id r \<in> ar_id ` set (t_audit_events t) then Inl unique_violation
      else if (case ar_actor_user_id r of None \<Rightarrow> False
               | Some u \<Rightarrow> u \<notin> ur_id ` set (t_users t)) then Inl fk_violation
      else Inr ((), t\<lparr>t_audit_events := t_audit_events t @ [r]\<rparr>))"

definition audit_write :: "pg \<Rightarrow> audit_event \<Rightarrow> unit prog" where
  "audit_write pg ev = stmt (\<lambda>t. case audit_row_of pg ev of
      None \<Rightarrow> Inl cast_failure
    | Some r \<Rightarrow> insert_audit r t)"

text \<open>Rows ordered by recency: \<open>ORDER BY created_at DESC, id DESC\<close>.\<close>

datatype recency = Recency (rec_time: time) (rec_id: string)

instantiation recency :: linorder
begin

definition less_eq_recency :: "recency \<Rightarrow> recency \<Rightarrow> bool" where
  "less_eq_recency a b = ((rec_time b, rec_id b) \<le> (rec_time a, rec_id a))"

definition less_recency :: "recency \<Rightarrow> recency \<Rightarrow> bool" where
  "less_recency a b = ((rec_time b, rec_id b) < (rec_time a, rec_id a))"

instance
proof
  fix x y z :: recency
  show "(x < y) = (x \<le> y \<and> \<not> y \<le> x)" by (auto simp: less_eq_recency_def less_recency_def)
  show "x \<le> x" by (simp add: less_eq_recency_def)
  show "x \<le> y \<Longrightarrow> y \<le> z \<Longrightarrow> x \<le> z"
    unfolding less_eq_recency_def by (rule order_trans)
  show "x \<le> y \<Longrightarrow> y \<le> x \<Longrightarrow> x = y"
    unfolding less_eq_recency_def by (metis antisym prod.inject recency.expand)
  show "x \<le> y \<or> y \<le> x" unfolding less_eq_recency_def by (rule linear)
qed

end

definition event_of_row :: "audit_row \<Rightarrow> audit_event" where
  "event_of_row r = \<lparr>ae_id = ar_id r,
     ae_actor_user_id = (case ar_actor_user_id r of None \<Rightarrow> [] | Some u \<Rightarrow> u),
     ae_action = ar_action r, ae_target_type = ar_target_type r,
     ae_target_id = ar_target_id r,
     ae_ip_address = (case ar_ip_address r of None \<Rightarrow> [] | Some a \<Rightarrow> a),
     ae_user_agent = ar_user_agent r, ae_metadata = ar_metadata r,
     ae_created_at = ar_created_at r\<rparr>"

definition audit_list_recent :: "int \<Rightarrow> audit_event list prog" where
  "audit_list_recent limit =
     (if limit \<le> 0 \<or> limit > MaxRecentEvents then failp ErrInvalidLimit
      else query (\<lambda>t. Inr (map event_of_row (take (nat limit)
             (sort_key (\<lambda>r. Recency (ar_created_at r) (ar_id r)) (t_audit_events t))))))"

section \<open>The log only grows, by checked events\<close>

text \<open>What \<open>Record\<close> may store: the bounds of its checks, on trimmed fields.\<close>

definition audit_row_ok :: "audit_row \<Rightarrow> bool" where
  "audit_row_ok r = (
     (\<exists>allowed. auditMetadataKeys (ar_action r) = Some allowed \<and> fst ` set (ar_metadata r) \<subseteq> allowed)
     \<and> ar_target_type r \<noteq> [] \<and> length (ar_target_type r) \<le> maxTargetTypeBytes
     \<and> ar_target_id r \<noteq> [] \<and> length (ar_target_id r) \<le> maxTargetIDBytes
     \<and> length (ar_user_agent r) \<le> maxUserAgentBytes
     \<and> metadata_bytes (ar_metadata r) \<le> maxMetadataBytes)"

text \<open>The interface of \<open>audit.Store\<close>: a write appends at most the row of its event, and
  exactly that row when it reports success.\<close>

locale event_log =
  fixes put_event :: "audit_event \<Rightarrow> unit prog"
    and describes :: "audit_event \<Rightarrow> audit_row \<Rightarrow> bool"
  assumes write_ok: "put_event ev w = (Inr u, w') \<Longrightarrow>
      \<exists>r. describes ev r \<and> t_audit_events (w_tables w') = t_audit_events (w_tables w) @ [r]"
    and write_any: "put_event ev w = (res, w') \<Longrightarrow>
      w_tables w' = w_tables w \<or>
      (\<exists>r. describes ev r \<and> w_tables w' = (w_tables w)\<lparr>t_audit_events := t_audit_events (w_tables w) @ [r]\<rparr>)"
    and describes_ok: "describes ev r \<Longrightarrow> valid_event ev \<Longrightarrow> audit_row_ok r"
    and write_keeps: "keeps_no_loss (put_event ev)"
    and write_err: "put_event ev w = (Inl e, w') \<Longrightarrow> no_loss w \<Longrightarrow> w_tables w' = w_tables w"
begin

lemma record_ok:
  assumes "audit_record put_event now newid ev w = (Inr ev', w')"
  shows "\<exists>r. describes ev' r \<and> audit_row_ok r
    \<and> t_audit_events (w_tables w') = t_audit_events (w_tables w) @ [r]"
proof -
  have v: "valid_event (trim_event ev)" and n: "\<exists>i. newid = Inr i"
    using assms by (auto simp: audit_record_def Let_def failp_def split: if_splits sum.splits)
  then obtain i where i: "newid = Inr i" by blast
  let ?ev = "trim_event ev\<lparr>ae_id := i, ae_created_at := now\<rparr>"
  have "valid_event ?ev" using v by (simp add: valid_event_def split: option.splits)
  moreover have "bindp (put_event ?ev) (\<lambda>_. retp ?ev) w = (Inr ev', w')"
    using assms v by (simp add: audit_record_def i Let_def)
  then have "put_event ?ev w = (Inr (), w') \<and> ev' = ?ev"
    by (auto simp add: bindp_Inr retp_def)
  ultimately show ?thesis using write_ok describes_ok by metis
qed

lemma record_any:
  "audit_record put_event now newid ev w = (res, w') \<Longrightarrow>
     w_tables w' = w_tables w \<or>
     (\<exists>r. audit_row_ok r \<and> w_tables w' = (w_tables w)\<lparr>t_audit_events := t_audit_events (w_tables w) @ [r]\<rparr>)"
proof -
  assume a: "audit_record put_event now newid ev w = (res, w')"
  show ?thesis
  proof (cases "valid_event (trim_event ev) \<and> (\<exists>i. newid = Inr i)")
    case False
    with a show ?thesis
      by (auto simp: audit_record_def Let_def failp_def split: if_splits sum.splits)
  next
    case True
    then obtain i where i: "newid = Inr i" by blast
    let ?ev = "trim_event ev\<lparr>ae_id := i, ae_created_at := now\<rparr>"
    have v: "valid_event ?ev" using True by (simp add: valid_event_def split: option.splits)
    obtain r1 where "put_event ?ev w = (r1, w')"
      using a True i by (auto simp: audit_record_def Let_def bindp_def retp_def split: prod.splits sum.splits)
    then show ?thesis using write_any describes_ok[OF _ v] by blast
  qed
qed

lemma record_keeps: "keeps_no_loss (audit_record put_event now newid ev)"
  by (auto simp: audit_record_def Let_def intro!: inv_intros write_keeps split: sum.split)

lemma record_err:
  "audit_record put_event now newid ev w = (Inl e, w') \<Longrightarrow> no_loss w \<Longrightarrow> w_tables w' = w_tables w"
  by (auto simp: audit_record_def Let_def failp_def retp_def bindp_Inl dest: write_err
      split: if_splits sum.splits)

end

definition describes_event :: "pg \<Rightarrow> audit_event \<Rightarrow> audit_row \<Rightarrow> bool" where
  "describes_event pg ev r = (audit_row_of pg ev = Some r)"

interpretation sql_log: event_log "audit_write pg" "describes_event pg"
proof unfold_locales
  fix ev r assume "describes_event pg ev r" and v: "valid_event ev"
  then show "audit_row_ok r"
    by (fastforce simp: describes_event_def audit_row_of_def audit_row_ok_def valid_event_def
        split: option.splits)
next
  fix ev w e w' assume "audit_write pg ev w = (Inl e, w')" "no_loss w"
  then show "w_tables w' = w_tables w" unfolding audit_write_def by (rule stmt_Inl_no_loss)
qed (auto simp: audit_write_def insert_audit_def describes_event_def stmt_def take_reply_def
    intro: keeps_stmt split: option.splits if_splits reply.splits list.splits sum.splits)

end
