(* ===== verification/Json.thy ===== *)
theory Json
  imports Errors
begin

text \<open>
  The part of Go's \<open>encoding/json\<close> the panel relies on: which byte strings are JSON
  (\<open>json.Valid\<close>), the value they denote, and the value \<open>json.Unmarshal\<close> builds in an
  \<open>any\<close>. Scanning is a tokenizer and a push-down automaton over the tokens, which holds
  the open arrays and objects in a stack of at most 10000 frames, as the scanner of
  \<open>encoding/json\<close> does.
\<close>

section \<open>Values and tokens\<close>

datatype json =
    JNull | JBool bool | JNum string | JStr string
  | JArr "json list" | JObj "(string \<times> json) list"

datatype token =
    TOpenObj | TCloseObj | TOpenArr | TCloseArr | TColon | TComma
  | TStr string | TNum string | TTrue | TFalse | TNull

definition json_space :: "char \<Rightarrow> bool" where
  "json_space c = (byte c = 32 \<or> byte c = 9 \<or> byte c = 10 \<or> byte c = 13)"

definition is_digit :: "char \<Rightarrow> bool" where
  "is_digit c = (48 \<le> byte c \<and> byte c \<le> 57)"

definition hex_val :: "char \<Rightarrow> nat option" where
  "hex_val c =
     (if is_digit c then Some (byte c - 48)
      else if 97 \<le> byte c \<and> byte c \<le> 102 then Some (byte c - 87)
      else if 65 \<le> byte c \<and> byte c \<le> 70 then Some (byte c - 55)
      else None)"

definition hex4 :: "string \<Rightarrow> nat option" where
  "hex4 s = (case s of
     a # b # c # d # _ \<Rightarrow>
       (case (hex_val a, hex_val b, hex_val c, hex_val d) of
          (Some w, Some x, Some y, Some z) \<Rightarrow> Some (((w * 16 + x) * 16 + y) * 16 + z)
        | _ \<Rightarrow> None)
   | _ \<Rightarrow> None)"

section \<open>Strings\<close>

text \<open>
  \<open>scan_string\<close> reads up to the closing quote and returns the raw content: control
  characters are refused, a backslash is followed by one of the eight escapes or by
  \<open>u\<close> and four hexadecimal digits.
\<close>

definition simple_escape :: "char \<Rightarrow> bool" where
  "simple_escape e = (e \<in> set ''bfnrt/'' \<or> byte e = 92 \<or> byte e = 34)"

fun scan_string :: "string \<Rightarrow> (string \<times> string) option" where
  "scan_string [] = None"
| "scan_string (c # s) =
     (if byte c = 34 then Some ([], s)
      else if byte c < 32 then None
      else if byte c = 92 then
        (case s of
           [] \<Rightarrow> None
         | e # s' \<Rightarrow>
             if simple_escape e
             then map_option (map_prod (\<lambda>r. c # e # r) id) (scan_string s')
             else if e = CHR ''u'' \<and> hex4 s' \<noteq> None
             then map_option (map_prod (\<lambda>r. c # e # take 4 s' @ r) id) (scan_string (drop 4 s'))
             else None)
      else map_option (map_prod (\<lambda>r. c # r) id) (scan_string s))"

definition escape_char :: "char \<Rightarrow> char" where
  "escape_char e =
     (if e = CHR ''b'' then char_of (8::nat) else if e = CHR ''f'' then char_of (12::nat)
      else if e = CHR ''n'' then char_of (10::nat) else if e = CHR ''r'' then char_of (13::nat)
      else if e = CHR ''t'' then char_of (9::nat) else e)"

definition is_surrogate :: "nat \<Rightarrow> bool" where
  "is_surrogate r = (55296 \<le> r \<and> r \<le> 57343)"

text \<open>The rune of an escape at \<open>s\<close> (after the backslash-u) and the length it takes:
  a surrogate pair is one rune, a lone surrogate is \<open>U+FFFD\<close>.\<close>

definition unquote_u :: "string \<Rightarrow> rune \<times> nat" where
  "unquote_u s = (case hex4 s of
     None \<Rightarrow> (rune_error, 4)
   | Some r \<Rightarrow>
       if is_surrogate r then
         (case drop 4 s of
            b # u # s' \<Rightarrow>
              (case hex4 s' of
                 Some r2 \<Rightarrow>
                   if byte b = 92 \<and> u = CHR ''u'' \<and> r < 56320 \<and> 56320 \<le> r2 \<and> r2 \<le> 57343
                   then ((r - 55296) * 1024 + (r2 - 56320) + 65536, 10)
                   else (rune_error, 4)
               | None \<Rightarrow> (rune_error, 4))
          | _ \<Rightarrow> (rune_error, 4))
       else (r, 4))"

function unquote :: "string \<Rightarrow> string" where
  "unquote [] = []"
| "unquote (c # s) =
     (if byte c = 92 then
        (case s of
           [] \<Rightarrow> []
         | e # s' \<Rightarrow>
             if e = CHR ''u''
             then encode_rune (fst (unquote_u s')) @ unquote (drop (snd (unquote_u s')) s')
             else escape_char e # unquote s')
      else encode_rune (fst (decode_rune (c # s)))
             @ unquote (drop (snd (decode_rune (c # s)) - 1) s))"
  by pat_completeness auto
termination by (relation "measure length") auto

section \<open>Numbers\<close>

fun take_digits :: "string \<Rightarrow> string \<times> string" where
  "take_digits [] = ([], [])"
| "take_digits (c # s) =
     (if is_digit c then (case take_digits s of (d, r) \<Rightarrow> (c # d, r)) else ([], c # s))"

definition scan_int :: "string \<Rightarrow> (string \<times> string) option" where
  "scan_int s = (case s of
     [] \<Rightarrow> None
   | c # t \<Rightarrow> if c = CHR ''0'' then Some ([c], t)
              else if is_digit c then (case take_digits t of (d, r) \<Rightarrow> Some (c # d, r))
              else None)"

definition scan_frac :: "string \<Rightarrow> (string \<times> string) option" where
  "scan_frac s = (case s of
     c # t \<Rightarrow> if c = CHR ''.'' then
                (case take_digits t of (d, r) \<Rightarrow> if d = [] then None else Some (c # d, r))
              else Some ([], s)
   | [] \<Rightarrow> Some ([], s))"

definition scan_exp :: "string \<Rightarrow> (string \<times> string) option" where
  "scan_exp s = (case s of
     c # t \<Rightarrow> if c = CHR ''e'' \<or> c = CHR ''E'' then
                (let (sg, t') = (case t of
                    g # t2 \<Rightarrow> if g = CHR ''+'' \<or> g = CHR ''-'' then ([g], t2) else ([], t)
                  | [] \<Rightarrow> ([], t)) in
                 case take_digits t' of (d, r) \<Rightarrow> if d = [] then None else Some (c # sg @ d, r))
              else Some ([], s)
   | [] \<Rightarrow> Some ([], s))"

definition scan_unsigned :: "string \<Rightarrow> (string \<times> string) option" where
  "scan_unsigned s =
     (case scan_int s of None \<Rightarrow> None | Some (i, r1) \<Rightarrow>
     (case scan_frac r1 of None \<Rightarrow> None | Some (f, r2) \<Rightarrow>
     (case scan_exp r2 of None \<Rightarrow> None | Some (e, r3) \<Rightarrow> Some (i @ f @ e, r3))))"

definition scan_number :: "string \<Rightarrow> (string \<times> string) option" where
  "scan_number s = (case s of
     c # t \<Rightarrow> if c = CHR ''-'' then map_option (map_prod (\<lambda>d. c # d) id) (scan_unsigned t)
              else scan_unsigned s
   | [] \<Rightarrow> None)"

section \<open>Tokens of a byte string\<close>

definition next_token :: "char \<Rightarrow> string \<Rightarrow> (token \<times> string) option" where
  "next_token c s =
     (if byte c = 123 then Some (TOpenObj, s)
      else if byte c = 125 then Some (TCloseObj, s)
      else if byte c = 91 then Some (TOpenArr, s)
      else if byte c = 93 then Some (TCloseArr, s)
      else if byte c = 58 then Some (TColon, s)
      else if byte c = 44 then Some (TComma, s)
      else if byte c = 34 then map_option (map_prod TStr id) (scan_string s)
      else if has_prefix (c # s) ''true'' then Some (TTrue, drop 3 s)
      else if has_prefix (c # s) ''false'' then Some (TFalse, drop 4 s)
      else if has_prefix (c # s) ''null'' then Some (TNull, drop 3 s)
      else map_option (map_prod TNum id) (scan_number (c # s)))"

lemma scan_string_shorter: "scan_string s = Some (x, r) \<Longrightarrow> length r < length s"
proof (induction s arbitrary: x r rule: scan_string.induct)
  case (2 c s)
  have *: "scan_string (drop 4 t) = Some (y, r) \<Longrightarrow> length r < length (drop 4 t) \<Longrightarrow> length r < length t" for t y
    by simp
  show ?case
  proof (cases "byte c = 92")
    case True
    with 2 show ?thesis
      by (auto split: if_splits list.splits) (fastforce dest: *)+
  next
    case False
    with 2 show ?thesis by (fastforce split: if_splits)
  qed
qed simp

lemma take_digits_shorter: "take_digits s = (d, r) \<Longrightarrow> length r \<le> length s"
  by (induction s arbitrary: d r) (fastforce split: if_splits prod.splits)+

lemma scan_int_shorter: "scan_int s = Some (d, r) \<Longrightarrow> length r < length s"
  by (auto simp: scan_int_def less_Suc_eq_le dest: take_digits_shorter
      split: list.splits if_splits prod.splits)

lemma scan_frac_shorter: "scan_frac s = Some (d, r) \<Longrightarrow> length r \<le> length s"
  by (auto simp: scan_frac_def dest: take_digits_shorter
      split: list.splits if_splits prod.splits)

lemma scan_exp_shorter: "scan_exp s = Some (d, r) \<Longrightarrow> length r \<le> length s"
  by (auto simp: scan_exp_def dest!: take_digits_shorter
      split: list.splits if_splits prod.splits)

lemma scan_unsigned_shorter: "scan_unsigned s = Some (d, r) \<Longrightarrow> length r < length s"
  unfolding scan_unsigned_def
  by (fastforce dest: scan_int_shorter scan_frac_shorter scan_exp_shorter split: option.splits prod.splits)

lemma next_token_shorter: "next_token c s = Some (t, r) \<Longrightarrow> length r \<le> length s"
  by (auto simp: next_token_def scan_number_def less_Suc_eq_le
      dest: scan_string_shorter scan_unsigned_shorter split: if_splits)

function tokens :: "string \<Rightarrow> token list option" where
  "tokens [] = Some []"
| "tokens (c # s) =
     (if json_space c then tokens s
      else (case next_token c s of
              None \<Rightarrow> None
            | Some (t, r) \<Rightarrow> map_option ((#) t) (tokens r)))"
  by pat_completeness auto
termination
  by (relation "measure length") (auto simp: less_Suc_eq_le dest: next_token_shorter)

section \<open>The push-down automaton\<close>

datatype frame = FArr "json list" | FObj "(string \<times> json) list" string

datatype pstate =
    PValue "frame list"                              \<comment> \<open>a value must follow\<close>
  | PArr0 "frame list"                               \<comment> \<open>after an opening bracket\<close>
  | PObj0 "frame list"                               \<comment> \<open>after an opening brace\<close>
  | PKey "(string \<times> json) list" "frame list"         \<comment> \<open>after a comma in an object\<close>
  | PColon string "(string \<times> json) list" "frame list"
  | PArrNext "json list" "frame list"                \<comment> \<open>after an element\<close>
  | PObjNext "(string \<times> json) list" "frame list"     \<comment> \<open>after a member\<close>
  | PDone json

definition max_depth :: nat where "max_depth = 10000"

fun complete :: "json \<Rightarrow> frame list \<Rightarrow> pstate" where
  "complete v [] = PDone v"
| "complete v (FArr vs # st) = PArrNext (vs @ [v]) st"
| "complete v (FObj kvs k # st) = PObjNext (kvs @ [(k, v)]) st"

definition start_value :: "token \<Rightarrow> frame list \<Rightarrow> pstate option" where
  "start_value t st = (case t of
     TOpenObj \<Rightarrow> if length st < max_depth then Some (PObj0 st) else None
   | TOpenArr \<Rightarrow> if length st < max_depth then Some (PArr0 st) else None
   | TStr s \<Rightarrow> Some (complete (JStr (unquote s)) st)
   | TNum n \<Rightarrow> Some (complete (JNum n) st)
   | TTrue \<Rightarrow> Some (complete (JBool True) st)
   | TFalse \<Rightarrow> Some (complete (JBool False) st)
   | TNull \<Rightarrow> Some (complete JNull st)
   | _ \<Rightarrow> None)"

fun pstep :: "pstate \<Rightarrow> token \<Rightarrow> pstate option" where
  "pstep (PValue st) t = start_value t st"
| "pstep (PArr0 st) t = (if t = TCloseArr then Some (complete (JArr []) st)
                          else start_value t (FArr [] # st))"
| "pstep (PObj0 st) t = (case t of
      TCloseObj \<Rightarrow> Some (complete (JObj []) st)
    | TStr k \<Rightarrow> Some (PColon (unquote k) [] st)
    | _ \<Rightarrow> None)"
| "pstep (PKey kvs st) t = (case t of TStr k \<Rightarrow> Some (PColon (unquote k) kvs st) | _ \<Rightarrow> None)"
| "pstep (PColon k kvs st) t = (if t = TColon then Some (PValue (FObj kvs k # st)) else None)"
| "pstep (PArrNext vs st) t = (case t of
      TComma \<Rightarrow> Some (PValue (FArr vs # st))
    | TCloseArr \<Rightarrow> Some (complete (JArr vs) st)
    | _ \<Rightarrow> None)"
| "pstep (PObjNext kvs st) t = (case t of
      TComma \<Rightarrow> Some (PKey kvs st)
    | TCloseObj \<Rightarrow> Some (complete (JObj kvs) st)
    | _ \<Rightarrow> None)"
| "pstep (PDone v) t = None"

fun psteps :: "pstate \<Rightarrow> token list \<Rightarrow> pstate option" where
  "psteps p [] = Some p"
| "psteps p (t # ts) = (case pstep p t of None \<Rightarrow> None | Some q \<Rightarrow> psteps q ts)"

definition parse_tokens :: "token list \<Rightarrow> json option" where
  "parse_tokens ts = (case psteps (PValue []) ts of Some (PDone v) \<Rightarrow> Some v | _ \<Rightarrow> None)"

definition parse_json :: "string \<Rightarrow> json option" where
  "parse_json s = (case tokens s of None \<Rightarrow> None | Some ts \<Rightarrow> parse_tokens ts)"

text \<open>\<open>json.Valid\<close>.\<close>

definition json_valid :: "string \<Rightarrow> bool" where
  "json_valid s = (parse_json s \<noteq> None)"

text \<open>For running the scanner on a concrete text.\<close>

lemmas json_eval = parse_json_def parse_tokens_def next_token_def json_space_def scan_number_def
  scan_unsigned_def scan_int_def scan_frac_def scan_exp_def is_digit_def start_value_def
  max_depth_def encode_rune_def norm_rune_def valid_rune_def char_of_eq

end
