(* ===== verification/Logging.thy ===== *)
theory Logging
  imports Errors
begin

text \<open>
  \<open>internal/logging\<close>: the structured logger and its redaction of values that may hold
  secrets. \<open>ul\<close> is the table of \<open>unicode.ToLower\<close> beyond ASCII.
\<close>

definition secret_markers :: "string list" where
  "secret_markers = [''password'', ''secret'', ''token'', ''postgres://'', ''postgresql://'']"

definition redacted :: string where "redacted = ''[REDACTED]''"

definition redact :: "(rune \<Rightarrow> rune) \<Rightarrow> string \<Rightarrow> string" where
  "redact ul value =
     (let lower = to_lower ul value in
      if contains lower ''password'' \<or> contains lower ''secret'' \<or> contains lower ''token''
         \<or> contains lower ''postgres://'' \<or> contains lower ''postgresql://''
      then redacted else value)"

record logger =
  log_level :: string

definition new_logger :: "string \<Rightarrow> logger" where
  "new_logger level = \<lparr>log_level = (if trim_space level = [] then ''info'' else level)\<rparr>"

text \<open>
  \<open>Logger.write\<close>: the entry, a map from keys to values. Fields come in pairs, a trailing
  key without a value is dropped, and only field values pass through \<open>Redact\<close>. The level
  the logger was built with is not consulted.
\<close>

fun add_fields :: "(rune \<Rightarrow> rune) \<Rightarrow> string list \<Rightarrow> (string \<rightharpoonup> string) \<Rightarrow> (string \<rightharpoonup> string)" where
  "add_fields ul (k # v # fs) m = add_fields ul fs (m(k \<mapsto> redact ul v))"
| "add_fields ul fs m = m"

definition log_write ::
  "(rune \<Rightarrow> rune) \<Rightarrow> string \<Rightarrow> logger \<Rightarrow> string \<Rightarrow> string \<Rightarrow> string list \<Rightarrow> (string \<rightharpoonup> string)" where
  "log_write ul now l level message fs =
     add_fields ul fs
       (Map.empty(''time'' \<mapsto> now, ''level'' \<mapsto> level, ''message'' \<mapsto> message))"

definition log_info ::
  "(rune \<Rightarrow> rune) \<Rightarrow> string \<Rightarrow> logger \<Rightarrow> string \<Rightarrow> string list \<Rightarrow> (string \<rightharpoonup> string)" where
  "log_info ul now l message fs = log_write ul now l ''info'' message fs"

definition log_error ::
  "(rune \<Rightarrow> rune) \<Rightarrow> string \<Rightarrow> logger \<Rightarrow> string \<Rightarrow> string list \<Rightarrow> (string \<rightharpoonup> string)" where
  "log_error ul now l message fs = log_write ul now l ''error'' message fs"

section \<open>Redaction hides every marked value\<close>

definition marked :: "string \<Rightarrow> bool" where
  "marked s = (\<exists>m \<in> set secret_markers. contains s m)"

lemma redact_marked: "redact ul v = (if marked (to_lower ul v) then redacted else v)"
  by (auto simp: redact_def marked_def secret_markers_def Let_def)

lemma marked_sub: "marked s \<Longrightarrow> marked (u @ s @ v)"
  by (auto simp: marked_def intro: contains_sub)

lemma redacted_clean: "\<not> marked (to_lower ul redacted)"
  by (simp add: marked_def secret_markers_def redacted_def to_lower_ascii ascii_def
      lower_byte_def char_of_eq eq_char_of)

lemma redact_clean: "\<not> marked (to_lower ul (redact ul v))"
  by (simp add: redact_marked redacted_clean)

lemma marker_ascii: "m \<in> set secret_markers \<Longrightarrow> ascii m \<and> m \<noteq> []"
  by (auto simp: secret_markers_def ascii_def)

text \<open>A word that is a marker up to ASCII case, anywhere in a byte string, marks it.\<close>

lemma marked_word:
  assumes "map lower_byte w \<in> set secret_markers"
  shows "marked (to_lower ul (p @ w @ q))"
proof -
  have "ascii (map lower_byte w)" "w \<noteq> []" using marker_ascii[OF assms] by auto
  then have "ascii w"
    by (auto simp: ascii_def lower_byte_def split: if_splits)
  with \<open>w \<noteq> []\<close> have "to_lower ul (p @ w @ q) = to_lower ul p @ map lower_byte w @ to_lower ul q"
    by (simp add: to_lower_middle)
  with assms show ?thesis
    by (auto simp: marked_def contains_append intro!: bexI[of _ "map lower_byte w"])
qed

lemma add_fields_range:
  "add_fields ul fs m k = Some v \<Longrightarrow> m k = Some v \<or> \<not> marked (to_lower ul v)"
proof (induction ul fs m rule: add_fields.induct)
  case (1 ul k' v' fs m)
  from "1.prems" have "add_fields ul fs (m(k' \<mapsto> redact ul v')) k = Some v"
    by (simp only: add_fields.simps)
  then have "(m(k' \<mapsto> redact ul v')) k = Some v \<or> \<not> marked (to_lower ul v)" by (rule "1.IH")
  then show ?case using redact_clean[of ul v'] by (auto split: if_splits)
qed auto

end
