(* ===== verification/Jobs.thy ===== *)
theory Jobs
  imports AuditTrail Json Logging
begin

text \<open>
  \<open>internal/jobs/jobs.go\<close> and the result checks of \<open>worker.go\<close>: the job record, the
  validation a queue performs before it touches the store, and the \<open>Queue\<close> methods over
  any store. The clock's value, the generated id and the store are arguments, as they are
  fields of the \<open>Queue\<close> struct.
\<close>

section \<open>Data\<close>

definition maxJobPayloadBytes :: nat where "maxJobPayloadBytes = 65536"
definition maxJobTypeBytes :: nat where "maxJobTypeBytes = 128"
definition maxResourceKeyBytes :: nat where "maxResourceKeyBytes = 512"
definition maxIdempotencyBytes :: nat where "maxIdempotencyBytes = 128"
definition maxJobAttempts :: int where "maxJobAttempts = 25"
definition defaultLeaseDuration :: duration where "defaultLeaseDuration = minutes 10"

lemmas job_limits = maxJobPayloadBytes_def maxJobTypeBytes_def maxResourceKeyBytes_def
  maxIdempotencyBytes_def maxJobAttempts_def

record job =
  j_id :: string
  j_type :: string
  j_status :: status
  j_resource_key :: string
  j_idempotency_key :: string
  j_payload :: string
  j_attempts :: int
  j_max_attempts :: int
  j_retryable :: bool
  j_claim_token :: string
  j_run_after :: time
  j_lease_expires_at :: time
  j_started_at :: time
  j_finished_at :: time
  j_result_code :: string
  j_result :: string
  j_created_at :: time
  j_updated_at :: time

record enqueue_input =
  ei_type :: string
  ei_resource_key :: string
  ei_idempotency_key :: string
  ei_payload :: string
  ei_max_attempts :: int
  ei_run_after :: time

record failure_input =
  fi_message :: string
  fi_backoff :: duration
  fi_permanent :: bool

record job_log =
  lg_id :: nat
  lg_level :: string
  lg_message :: string
  lg_created_at :: time

record result =
  rs_code :: string
  rs_data :: string
  rs_logs :: "job_log list"

record mutation =
  mu_actor_user_id :: string
  mu_ip_address :: string
  mu_user_agent :: string

text \<open>The \<open>Store\<close> interface.\<close>

record job_store =
  js_enqueue :: "job \<Rightarrow> unit prog"
  js_claim_one :: "time \<Rightarrow> time \<Rightarrow> job prog"
  js_mark_succeeded :: "job \<Rightarrow> time \<Rightarrow> result \<Rightarrow> unit prog"
  js_mark_failed :: "job \<Rightarrow> bool \<Rightarrow> bool \<Rightarrow> time \<Rightarrow> time \<Rightarrow> time \<Rightarrow> string \<Rightarrow> unit prog"

record queue =
  q_store :: job_store
  q_now :: time
  q_new_id :: "err + string"
  q_lease_duration :: duration

definition NewQueue :: "job_store \<Rightarrow> time \<Rightarrow> err + string \<Rightarrow> queue" where
  "NewQueue store now newid = \<lparr>q_store = store, q_now = now, q_new_id = newid,
     q_lease_duration = defaultLeaseDuration\<rparr>"

definition WithLeaseDuration :: "duration \<Rightarrow> queue \<Rightarrow> queue" where
  "WithLeaseDuration d q = (if d > 0 then q\<lparr>q_lease_duration := d\<rparr> else q)"

definition WithClock :: "time \<Rightarrow> queue \<Rightarrow> queue" where
  "WithClock now q = q\<lparr>q_now := now\<rparr>"

definition WithIDGenerator :: "err + string \<Rightarrow> queue \<Rightarrow> queue" where
  "WithIDGenerator newid q = q\<lparr>q_new_id := newid\<rparr>"

section \<open>Enqueue\<close>

text \<open>The job \<open>Enqueue\<close> builds, or the error it returns before calling the store.\<close>

definition build_job :: "time \<Rightarrow> err + string \<Rightarrow> enqueue_input \<Rightarrow> err + job" where
  "build_job now newid input =
     (let type = trim_space (ei_type input);
          resource = trim_space (ei_resource_key input);
          key = trim_space (ei_idempotency_key input) in
      if type = [] \<or> length type > maxJobTypeBytes \<or> length resource > maxResourceKeyBytes
         \<or> length key > maxIdempotencyBytes then Inl ErrInvalidJob
      else
        (let payload0 = (if ei_payload input = [] then ''{}'' else ei_payload input);
             payload = trim_space payload0 in
         if payload = [] \<or> length payload > maxJobPayloadBytes \<or> hd payload \<noteq> CHR 0x7B
            \<or> \<not> json_valid payload then Inl ErrInvalidJob
         else
           (let max_attempts = (if ei_max_attempts input \<le> 0 then 1 else ei_max_attempts input) in
            if max_attempts > maxJobAttempts then Inl ErrInvalidJob
            else
              (let run_after = (if ei_run_after input = zero_time then now else ei_run_after input) in
               rbind newid (\<lambda>i.
                 Inr \<lparr>j_id = i, j_type = type, j_status = Queued, j_resource_key = resource,
                   j_idempotency_key = (if key = [] then i else key), j_payload = payload,
                   j_attempts = 0, j_max_attempts = max_attempts, j_retryable = True,
                   j_claim_token = [], j_run_after = run_after,
                   j_lease_expires_at = zero_time, j_started_at = zero_time,
                   j_finished_at = zero_time, j_result_code = [], j_result = [],
                   j_created_at = now, j_updated_at = now\<rparr>)))))"

definition q_enqueue :: "queue \<Rightarrow> enqueue_input \<Rightarrow> job prog" where
  "q_enqueue q input = (case build_job (q_now q) (q_new_id q) input of
      Inl e \<Rightarrow> failp e
    | Inr j \<Rightarrow> bindp (js_enqueue (q_store q) j) (\<lambda>_. retp j))"

definition q_claim_one :: "queue \<Rightarrow> job prog" where
  "q_claim_one q = js_claim_one (q_store q) (q_now q) (q_now q + q_lease_duration q)"

section \<open>Results and failure messages\<close>

definition maxFailureRunes :: nat where "maxFailureRunes = 1024"
definition maxResultCodeBytes :: nat where "maxResultCodeBytes = 64"
definition maxResultLogs :: nat where "maxResultLogs = 100"

definition safeFailureMessage :: "(rune \<Rightarrow> rune) \<Rightarrow> err \<Rightarrow> string" where
  "safeFailureMessage ul e =
     (let message = trim_space (redact ul (err_msg e)); rs = runes message in
      if length rs > maxFailureRunes then of_runes (take maxFailureRunes rs) else message)"

text \<open>The value \<open>json.Unmarshal\<close> builds in an \<open>any\<close>: in an object the last of equal keys wins.
  \<open>obj_map\<close> keeps, of each key, the last member.\<close>

fun obj_map :: "(string \<times> 'a) list \<Rightarrow> (string \<times> 'a) list" where
  "obj_map [] = []"
| "obj_map ((k, v) # kvs) = (if k \<in> fst ` set kvs then obj_map kvs else (k, v) # obj_map kvs)"

definition sensitive_words :: "string list" where
  "sensitive_words = [''password'', ''secret'', ''token'', ''credential'', ''privatekey'', ''apikey'']"

text \<open>The replacer that drops underscores, hyphens and dots.\<close>

definition squash :: "string \<Rightarrow> string" where
  "squash s = filter (\<lambda>c. c \<notin> set ''_-.'') s"

definition sensitive_key :: "(rune \<Rightarrow> rune) \<Rightarrow> string \<Rightarrow> bool" where
  "sensitive_key ul key =
     (let normalized = squash (to_lower ul key) in
      contains normalized ''password'' \<or> contains normalized ''secret''
      \<or> contains normalized ''token'' \<or> contains normalized ''credential''
      \<or> contains normalized ''privatekey'' \<or> contains normalized ''apikey'')"

lemma obj_map_subset: "set (obj_map kvs) \<subseteq> set kvs"
  by (induction kvs rule: obj_map.induct) auto

function containsSensitiveResultKey :: "(rune \<Rightarrow> rune) \<Rightarrow> json \<Rightarrow> bool" where
  "containsSensitiveResultKey ul (JObj kvs) =
     (\<exists>(k, v) \<in> set (obj_map kvs). sensitive_key ul k \<or> containsSensitiveResultKey ul v)"
| "containsSensitiveResultKey ul (JArr vs) = (\<exists>v \<in> set vs. containsSensitiveResultKey ul v)"
| "containsSensitiveResultKey ul JNull = False"
| "containsSensitiveResultKey ul (JBool b) = False"
| "containsSensitiveResultKey ul (JNum n) = False"
| "containsSensitiveResultKey ul (JStr s) = False"
  by pat_completeness auto
termination
proof (relation "measure (\<lambda>(ul, j). size j)", goal_cases)
  case (2 ul kvs p k v)
  then have "(k, v) \<in> set kvs" using obj_map_subset by fastforce
  then have "size v < Suc (size_list (size_prod (\<lambda>x. 0) size) kvs)"
    by (induction kvs) auto
  then show ?case by simp
next
  case (3 ul vs v)
  then show ?case by (auto simp: less_Suc_eq_le dest: size_list_estimation'[OF _ order_refl])
qed simp

text \<open>
  \<open>json.Unmarshal\<close> into an \<open>any\<close> fails on a number outside the range of \<open>float64\<close>;
  \<open>float_ok\<close> says of a number literal that \<open>strconv.ParseFloat\<close> accepts it.
\<close>

fun floats_ok :: "(string \<Rightarrow> bool) \<Rightarrow> json \<Rightarrow> bool" where
  "floats_ok ok (JNum n) = ok n"
| "floats_ok ok (JArr vs) = (\<forall>v \<in> set vs. floats_ok ok v)"
| "floats_ok ok (JObj kvs) = (\<forall>kv \<in> set kvs. floats_ok ok (snd kv))"
| "floats_ok ok _ = True"

definition norm_level :: "(rune \<Rightarrow> rune) \<Rightarrow> string \<Rightarrow> string" where
  "norm_level ul l = to_lower ul (trim_space l)"

definition log_levels :: "string list" where
  "log_levels = [''debug'', ''info'', ''warn'', ''error'']"

fun norm_logs :: "(rune \<Rightarrow> rune) \<Rightarrow> job_log list \<Rightarrow> err + job_log list" where
  "norm_logs ul [] = Inr []"
| "norm_logs ul (l # ls) =
     (let level = norm_level ul (lg_level l) in
      if level \<notin> set log_levels
      then Inl (PermanentError (Plain ''agent returned an invalid log level''))
      else rbind (norm_logs ul ls) (\<lambda>ls'.
        Inr (l\<lparr>lg_level := level, lg_message := safeFailureMessage ul (Plain (lg_message l))\<rparr> # ls')))"

definition normalizeResult ::
  "(rune \<Rightarrow> rune) \<Rightarrow> (string \<Rightarrow> bool) \<Rightarrow> result \<Rightarrow> err + result" where
  "normalizeResult ul float_ok r0 =
     (let code = trim_space (rs_code r0) in
      if code = [] \<or> length code > maxResultCodeBytes
      then Inl (PermanentError (Plain ''agent returned an invalid result code''))
      else
        (let data = trim_space (rs_data r0) in
         if length data > maxJobPayloadBytes
            \<or> (data \<noteq> [] \<and> (hd data \<noteq> CHR 0x7B \<or> \<not> json_valid data))
         then Inl (PermanentError (Plain ''agent returned invalid result data''))
         else if data \<noteq> [] \<and> (case parse_json data of
                  None \<Rightarrow> True
                | Some v \<Rightarrow> \<not> floats_ok float_ok v \<or> containsSensitiveResultKey ul v)
         then Inl (PermanentError (Plain ''agent result data contains a sensitive field''))
         else if length (rs_logs r0) > maxResultLogs
         then Inl (PermanentError (Plain ''agent returned too many result logs''))
         else rbind (norm_logs ul (rs_logs r0)) (\<lambda>logs.
           Inr \<lparr>rs_code = code, rs_data = data, rs_logs = logs\<rparr>)))"

section \<open>Succeed and Fail\<close>

definition q_succeed ::
  "(rune \<Rightarrow> rune) \<Rightarrow> (string \<Rightarrow> bool) \<Rightarrow> queue \<Rightarrow> job \<Rightarrow> result \<Rightarrow> unit prog" where
  "q_succeed ul float_ok q j r =
     (if trim_space (j_id j) = [] \<or> trim_space (j_claim_token j) = [] then failp ErrInvalidJob
      else (case normalizeResult ul float_ok r of
              Inl e \<Rightarrow> failp e
            | Inr r' \<Rightarrow> js_mark_succeeded (q_store q) j (q_now q) r'))"

definition q_fail :: "(rune \<Rightarrow> rune) \<Rightarrow> queue \<Rightarrow> job \<Rightarrow> failure_input \<Rightarrow> unit prog" where
  "q_fail ul q j input =
     (if trim_space (j_id j) = [] \<or> trim_space (j_claim_token j) = [] \<or> fi_backoff input < 0
      then failp ErrInvalidJob
      else
        (let message = (if trim_space (fi_message input) \<noteq> []
               then safeFailureMessage ul (Plain (fi_message input)) else fi_message input);
             now = q_now q;
             final = (fi_permanent input \<or> j_attempts j \<ge> j_max_attempts j);
             run_after = (if final then now else now + fi_backoff input);
             finished_at = (if final then now else zero_time) in
         js_mark_failed (q_store q) j final (\<not> fi_permanent input) run_after now finished_at message))"

end
