(* ===== verification/JobStore.thy ===== *)
theory JobStore
  imports Jobs
begin

text \<open>
  \<open>internal/jobs/sqlstore.go\<close>: the job table in PostgreSQL. Each SQL statement is a
  function of the tables; the \<open>CHECK\<close> and \<open>UNIQUE\<close> constraints that migration 5 puts on
  \<open>jobs\<close> and \<open>job_logs\<close> are part of every statement that writes them.
\<close>

section \<open>Constraints of the tables\<close>

definition log_checks :: "job_log_row \<Rightarrow> bool" where
  "log_checks l = (jl_level l \<in> set log_levels \<and> length (runes (jl_message l)) \<le> 1024)"

definition job_checks :: "job_row \<Rightarrow> bool" where
  "job_checks r =
     (1 \<le> length (jr_type r) \<and> length (jr_type r) \<le> 128
      \<and> length (jr_resource_key r) \<le> 512
      \<and> 1 \<le> length (jr_idempotency_key r) \<and> length (jr_idempotency_key r) \<le> 128
      \<and> 0 \<le> jr_attempts r \<and> jr_attempts r \<le> 25
      \<and> 1 \<le> jr_max_attempts r \<and> jr_max_attempts r \<le> 25
      \<and> jr_attempts r \<le> jr_max_attempts r
      \<and> jr_payload r \<noteq> [] \<and> hd (jr_payload r) = CHR 0x7B
      \<and> length (jr_payload r) \<le> 65536
      \<and> (case jr_result_code r of None \<Rightarrow> True | Some c \<Rightarrow> 1 \<le> length c \<and> length c \<le> 64)
      \<and> (case jr_result r of None \<Rightarrow> True | Some d \<Rightarrow> length d \<le> 65536)
      \<and> (jr_status r = Running \<and> jr_claim_token r \<noteq> None \<and> jr_lease_expires_at r \<noteq> None
         \<or> jr_status r \<noteq> Running \<and> jr_claim_token r = None \<and> jr_lease_expires_at r = None))"

text \<open>An \<open>UPDATE\<close> of \<open>jobs\<close>: the rows that match are replaced, unless one breaks a check.\<close>

definition update_jobs ::
  "(job_row \<Rightarrow> bool) \<Rightarrow> (job_row \<Rightarrow> job_row) \<Rightarrow> tables \<Rightarrow> err + nat \<times> tables" where
  "update_jobs p f t =
     (let hits = filter p (t_jobs t) in
      if \<forall>r \<in> set hits. job_checks (f r)
      then Inr (length hits, t\<lparr>t_jobs := upd_where p f (t_jobs t)\<rparr>)
      else Inl check_violation)"

definition next_log_id :: "job_log_row list \<Rightarrow> nat" where
  "next_log_id ls = Suc (fold (\<lambda>l m. max (jl_id l) m) ls 0)"

definition insert_job_log ::
  "string \<Rightarrow> string \<Rightarrow> string \<Rightarrow> time \<Rightarrow> tables \<Rightarrow> err + unit \<times> tables" where
  "insert_job_log job_id level message created_at t =
     (let l = \<lparr>jl_id = next_log_id (t_job_logs t), jl_job_id = job_id, jl_level = level,
               jl_message = message, jl_created_at = created_at\<rparr> in
      if \<not> log_checks l then Inl check_violation
      else if job_id \<notin> jr_id ` set (t_jobs t) then Inl fk_violation
      else Inr ((), t\<lparr>t_job_logs := t_job_logs t @ [l]\<rparr>))"

section \<open>Enqueue\<close>

definition new_job_row :: "pg \<Rightarrow> job \<Rightarrow> job_row option" where
  "new_job_row pg j = (case (uuid_in pg (j_id j), jsonb_in pg (j_payload j)) of
      (Some i, Some payload) \<Rightarrow> Some
        \<lparr>jr_id = i, jr_type = j_type j, jr_status = j_status j,
         jr_resource_key = j_resource_key j, jr_idempotency_key = j_idempotency_key j,
         jr_payload = payload, jr_attempts = j_attempts j, jr_max_attempts = j_max_attempts j,
         jr_retryable = True, jr_claim_token = None, jr_run_after = j_run_after j,
         jr_lease_expires_at = None, jr_started_at = None, jr_finished_at = None,
         jr_result_code = None, jr_result = None,
         jr_created_at = j_created_at j, jr_updated_at = j_updated_at j\<rparr>
    | _ \<Rightarrow> None)"

definition insert_job :: "job_row \<Rightarrow> tables \<Rightarrow> err + unit \<times> tables" where
  "insert_job r t =
     (if \<not> job_checks r then Inl check_violation
      else if jr_id r \<in> jr_id ` set (t_jobs t)
         \<or> jr_idempotency_key r \<in> jr_idempotency_key ` set (t_jobs t) then Inl unique_violation
      else Inr ((), t\<lparr>t_jobs := t_jobs t @ [r]\<rparr>))"

definition store_enqueue :: "pg \<Rightarrow> job \<Rightarrow> unit prog" where
  "store_enqueue pg j = stmt (\<lambda>t. case new_job_row pg j of
      None \<Rightarrow> Inl cast_failure | Some r \<Rightarrow> insert_job r t)"

section \<open>Reading a row\<close>

definition scanJob :: "job_row \<Rightarrow> job" where
  "scanJob r = \<lparr>j_id = jr_id r, j_type = jr_type r, j_status = jr_status r,
     j_resource_key = jr_resource_key r, j_idempotency_key = jr_idempotency_key r,
     j_payload = jr_payload r, j_attempts = jr_attempts r, j_max_attempts = jr_max_attempts r,
     j_retryable = jr_retryable r,
     j_claim_token = (case jr_claim_token r of None \<Rightarrow> [] | Some c \<Rightarrow> c),
     j_run_after = jr_run_after r,
     j_lease_expires_at = (case jr_lease_expires_at r of None \<Rightarrow> zero_time | Some x \<Rightarrow> x),
     j_started_at = (case jr_started_at r of None \<Rightarrow> zero_time | Some x \<Rightarrow> x),
     j_finished_at = (case jr_finished_at r of None \<Rightarrow> zero_time | Some x \<Rightarrow> x),
     j_result_code = (case jr_result_code r of None \<Rightarrow> [] | Some c \<Rightarrow> c),
     j_result = (case jr_result r of None \<Rightarrow> [] | Some d \<Rightarrow> d),
     j_created_at = jr_created_at r, j_updated_at = jr_updated_at r\<rparr>"

section \<open>ClaimOne\<close>

definition lease_over :: "time \<Rightarrow> job_row \<Rightarrow> bool" where
  "lease_over now r = (case jr_lease_expires_at r of None \<Rightarrow> False | Some x \<Rightarrow> x \<le> now)"

definition lease_live :: "time \<Rightarrow> job_row \<Rightarrow> bool" where
  "lease_live now r = (case jr_lease_expires_at r of None \<Rightarrow> False | Some x \<Rightarrow> x > now)"

definition lease_key :: "job_row \<Rightarrow> time" where
  "lease_key r = (case jr_lease_expires_at r of None \<Rightarrow> 0 | Some x \<Rightarrow> x)"

text \<open>What other transactions hold while the statement runs: row locks (\<open>SKIP LOCKED\<close>)
  and advisory locks on resource keys.\<close>

record contention =
  ct_row_locked :: "string \<Rightarrow> bool"
  ct_key_granted :: "string \<Rightarrow> bool"

definition exhausted :: "time \<Rightarrow> job_row \<Rightarrow> bool" where
  "exhausted now r =
     (jr_status r = Running \<and> lease_over now r \<and> jr_attempts r \<ge> jr_max_attempts r)"

definition expired_candidates :: "contention \<Rightarrow> time \<Rightarrow> job_row list \<Rightarrow> job_row list" where
  "expired_candidates c now rows =
     take 100 (filter (\<lambda>r. \<not> ct_row_locked c (jr_id r))
       (sort_key lease_key (filter (exhausted now) rows)))"

definition claimable :: "time \<Rightarrow> job_row \<Rightarrow> bool" where
  "claimable now r =
     ((jr_status r = Queued \<and> jr_run_after r \<le> now \<and> jr_attempts r < jr_max_attempts r)
      \<or> (jr_status r = Running \<and> lease_over now r \<and> jr_attempts r < jr_max_attempts r))"

definition key_busy :: "time \<Rightarrow> job_row list \<Rightarrow> job_row \<Rightarrow> bool" where
  "key_busy now rows r =
     (\<exists>s \<in> set rows. jr_status s = Running \<and> lease_live now s
        \<and> jr_resource_key s = jr_resource_key r \<and> jr_id s \<noteq> jr_id r)"

definition eligible :: "time \<Rightarrow> job_row list \<Rightarrow> job_row \<Rightarrow> bool" where
  "eligible now rows r = (claimable now r \<and> (jr_resource_key r = [] \<or> \<not> key_busy now rows r))"

text \<open>The \<open>ORDER BY\<close> of the statement; rows that tie come in the order of the table.\<close>

definition next_candidate :: "contention \<Rightarrow> time \<Rightarrow> job_row list \<Rightarrow> job_row option" where
  "next_candidate c now rows =
     (case filter (\<lambda>r. \<not> ct_row_locked c (jr_id r))
        (sort_key (\<lambda>r. (jr_run_after r, jr_created_at r)) (filter (eligible now rows) rows)) of
        [] \<Rightarrow> None | r # _ \<Rightarrow> Some r)"

definition next_claim :: "contention \<Rightarrow> time \<Rightarrow> job_row list \<Rightarrow> job_row option" where
  "next_claim c now rows = (case next_candidate c now rows of
      None \<Rightarrow> None
    | Some r \<Rightarrow> if jr_resource_key r = [] \<or> ct_key_granted c (jr_resource_key r)
                then Some r else None)"

definition expire_row :: "time \<Rightarrow> job_row \<Rightarrow> job_row" where
  "expire_row now r = r\<lparr>jr_status := Failed, jr_retryable := True, jr_claim_token := None,
     jr_lease_expires_at := None, jr_finished_at := Some now, jr_updated_at := now\<rparr>"

definition claim_row :: "time \<Rightarrow> time \<Rightarrow> string \<Rightarrow> job_row \<Rightarrow> job_row" where
  "claim_row now lease token r = r\<lparr>jr_status := Running, jr_attempts := jr_attempts r + 1,
     jr_claim_token := Some token, jr_lease_expires_at := Some lease,
     jr_started_at := Some now, jr_finished_at := None, jr_updated_at := now\<rparr>"

definition expiry_message :: string where
  "expiry_message = ''job lease expired after final attempt''"

fun insert_expired_logs :: "time \<Rightarrow> string list \<Rightarrow> tables \<Rightarrow> err + unit \<times> tables" where
  "insert_expired_logs now [] t = Inr ((), t)"
| "insert_expired_logs now (i # is) t =
     rbind (insert_job_log i ''error'' expiry_message now t) (\<lambda>(_, t'). insert_expired_logs now is t')"

text \<open>The statement: both parts read the rows the statement started from, which are the rows the
  statements before it left (two claims never read the same snapshot).\<close>

definition claim_stmt ::
  "contention \<Rightarrow> time \<Rightarrow> time \<Rightarrow> string \<Rightarrow> tables \<Rightarrow> err + job_row option \<times> tables" where
  "claim_stmt c now lease token t =
     (let rows = t_jobs t;
          expired = map jr_id (expired_candidates c now rows);
          next = next_claim c now rows in
      rbind (update_jobs (\<lambda>r. jr_id r \<in> set expired) (expire_row now) t) (\<lambda>(_, t1).
      rbind (insert_expired_logs now expired t1) (\<lambda>(_, t2).
        (case next of
           None \<Rightarrow> Inr (None, t2)
         | Some n \<Rightarrow>
             rbind (update_jobs (\<lambda>r. jr_id r = jr_id n) (claim_row now lease token) t2) (\<lambda>(_, t3).
               Inr (Some (claim_row now lease token n), t3))))))"

definition store_claim_one :: "contention \<Rightarrow> string \<Rightarrow> time \<Rightarrow> time \<Rightarrow> job prog" where
  "store_claim_one c token now lease =
     bindp (stmt (claim_stmt c now lease token)) (\<lambda>res. case res of
        None \<Rightarrow> failp ErrNoJob
      | Some r \<Rightarrow> retp (scanJob r))"

section \<open>MarkSucceeded and MarkFailed\<close>

definition requireUpdatedRow :: "nat \<Rightarrow> unit prog" where
  "requireUpdatedRow rows = (if rows \<noteq> 1 then failp ErrInvalidTransition else retp ())"

text \<open>The row a claim still owns: \<open>WHERE id = $1 AND status = 'running' AND claim_token = $2\<close>.\<close>

definition owns :: "string \<Rightarrow> string \<Rightarrow> job_row \<Rightarrow> bool" where
  "owns i token r = (jr_id r = i \<and> jr_status r = Running \<and> jr_claim_token r = Some token)"

fun insertLogs :: "string \<Rightarrow> job_log list \<Rightarrow> time \<Rightarrow> unit prog" where
  "insertLogs i [] now = retp ()"
| "insertLogs i (l # ls) now =
     bindp (stmt (insert_job_log i (lg_level l) (lg_message l) now)) (\<lambda>_. insertLogs i ls now)"

definition succeed_row :: "string \<Rightarrow> string option \<Rightarrow> time \<Rightarrow> job_row \<Rightarrow> job_row" where
  "succeed_row code data finished r = r\<lparr>jr_status := Succeeded, jr_retryable := False,
     jr_claim_token := None, jr_lease_expires_at := None, jr_result_code := Some code,
     jr_result := data, jr_finished_at := Some finished, jr_updated_at := finished\<rparr>"

definition with_claim ::
  "pg \<Rightarrow> job \<Rightarrow> (string \<Rightarrow> string \<Rightarrow> tables \<Rightarrow> err + 'a \<times> tables) \<Rightarrow> tables \<Rightarrow> err + 'a \<times> tables" where
  "with_claim pg j f t = (case (uuid_in pg (j_id j), uuid_in pg (j_claim_token j)) of
      (Some i, Some token) \<Rightarrow> f i token t | _ \<Rightarrow> Inl cast_failure)"

definition store_mark_succeeded :: "pg \<Rightarrow> job \<Rightarrow> time \<Rightarrow> result \<Rightarrow> unit prog" where
  "store_mark_succeeded pg j finished res =
     tx (bindp (stmt (with_claim pg j (\<lambda>i token t.
                  case null_cast (jsonb_in pg) (rs_data res) of
                    None \<Rightarrow> Inl cast_failure
                  | Some data \<Rightarrow>
                      update_jobs (owns i token) (succeed_row (rs_code res) data finished) t)))
          (\<lambda>n. bindp (requireUpdatedRow n)
          (\<lambda>_. bindp (insertLogs (the (uuid_in pg (j_id j))) (rs_logs res) finished)
          (\<lambda>_. retp (Commit ())))))"

definition fail_row ::
  "bool \<Rightarrow> bool \<Rightarrow> time \<Rightarrow> time \<Rightarrow> time \<Rightarrow> job_row \<Rightarrow> job_row" where
  "fail_row final retryable run_after updated finished r =
     r\<lparr>jr_status := (if final then Failed else Queued), jr_run_after := run_after,
       jr_finished_at := (if final then Some finished else None), jr_retryable := retryable,
       jr_claim_token := None, jr_lease_expires_at := None,
       jr_started_at := (if \<not> final then None else jr_started_at r),
       jr_updated_at := updated\<rparr>"

definition store_mark_failed ::
  "pg \<Rightarrow> job \<Rightarrow> bool \<Rightarrow> bool \<Rightarrow> time \<Rightarrow> time \<Rightarrow> time \<Rightarrow> string \<Rightarrow> unit prog" where
  "store_mark_failed pg j final retryable run_after updated finished message =
     tx (bindp (stmt (with_claim pg j (\<lambda>i token.
                  update_jobs (owns i token) (fail_row final retryable run_after updated finished))))
          (\<lambda>n. bindp (requireUpdatedRow n)
          (\<lambda>_. bindp (if message \<noteq> []
                      then stmt (insert_job_log (the (uuid_in pg (j_id j))) ''error'' message updated)
                      else retp ())
          (\<lambda>_. retp (Commit ())))))"

section \<open>Reading, retrying and cancelling\<close>

definition store_list_recent :: "int \<Rightarrow> job list prog" where
  "store_list_recent limit =
     (if limit \<le> 0 \<or> limit > 100 then failp ErrInvalidJob
      else query (\<lambda>t. Inr (map scanJob (take (nat limit)
             (sort_key (\<lambda>r. Recency (jr_created_at r) (jr_id r)) (t_jobs t))))))"

definition find_job :: "pg \<Rightarrow> string \<Rightarrow> tables \<Rightarrow> err + job_row option" where
  "find_job pg i t = (case uuid_in pg i of
      None \<Rightarrow> Inl cast_failure
    | Some u \<Rightarrow> Inr (List.find (\<lambda>r. jr_id r = u) (t_jobs t)))"

definition store_get :: "pg \<Rightarrow> string \<Rightarrow> job prog" where
  "store_get pg i =
     (if \<not> validJobID i then failp ErrJobNotFound
      else bindp (query (find_job pg i)) (\<lambda>res. case res of
             None \<Rightarrow> failp ErrJobNotFound
           | Some r \<Rightarrow> retp (scanJob r)))"

definition log_of_row :: "job_log_row \<Rightarrow> job_log" where
  "log_of_row l = \<lparr>lg_id = jl_id l, lg_level = jl_level l, lg_message = jl_message l,
     lg_created_at = jl_created_at l\<rparr>"

definition store_list_logs :: "pg \<Rightarrow> string \<Rightarrow> int \<Rightarrow> job_log list prog" where
  "store_list_logs pg i limit =
     (if \<not> validJobID i \<or> limit \<le> 0 \<or> limit > 500 then failp ErrInvalidJob
      else query (\<lambda>t. case uuid_in pg i of
             None \<Rightarrow> Inl cast_failure
           | Some u \<Rightarrow> Inr (map log_of_row (take (nat limit)
               (sort_key (\<lambda>l. (jl_created_at l, jl_id l))
                 (filter (\<lambda>l. jl_job_id l = u) (t_job_logs t)))))))"

definition mutate_row :: "status \<Rightarrow> time \<Rightarrow> job_row \<Rightarrow> job_row" where
  "mutate_row target now r =
     r\<lparr>jr_status := target,
       jr_attempts := (if target = Queued then 0 else jr_attempts r),
       jr_retryable := (target = Queued),
       jr_run_after := (if target = Queued then now else jr_run_after r),
       jr_started_at := None,
       jr_finished_at := (if target = Cancelled then Some now else None),
       jr_result_code := None, jr_result := None, jr_updated_at := now\<rparr>"

definition mutation_event :: "mutation \<Rightarrow> string \<Rightarrow> string \<Rightarrow> audit_event" where
  "mutation_event m action i = event_literal (mu_actor_user_id m) action ''job'' i
     (mu_ip_address m) (mu_user_agent m) []"

text \<open>\<open>mutate\<close>: \<open>newid\<close> is the id generated for the audit event, \<open>now\<close> the wall clock.\<close>

definition store_mutate ::
  "pg \<Rightarrow> time \<Rightarrow> err + string \<Rightarrow> string \<Rightarrow> mutation \<Rightarrow> status \<Rightarrow> status \<Rightarrow> string \<Rightarrow> unit prog" where
  "store_mutate pg now newid i m from_status target action =
     (if \<not> validJobID i then failp ErrJobNotFound
      else tx (bindp (query (find_job pg i)) (\<lambda>res. case res of
          None \<Rightarrow> failp ErrJobNotFound
        | Some r \<Rightarrow>
            if jr_status r \<noteq> from_status \<or> (action = ActionJobRetried \<and> \<not> jr_retryable r)
            then failp ErrInvalidTransition
            else bindp (stmt (update_jobs (\<lambda>s. jr_id s = the (uuid_in pg i)) (mutate_row target now)))
                 (\<lambda>_. bindp (audit_record (audit_write pg) now newid (mutation_event m action i))
                 (\<lambda>_. retp (Commit ()))))))"

definition store_retry ::
  "pg \<Rightarrow> time \<Rightarrow> err + string \<Rightarrow> string \<Rightarrow> mutation \<Rightarrow> unit prog" where
  "store_retry pg now newid i m = store_mutate pg now newid i m Failed Queued ActionJobRetried"

definition store_cancel ::
  "pg \<Rightarrow> time \<Rightarrow> err + string \<Rightarrow> string \<Rightarrow> mutation \<Rightarrow> unit prog" where
  "store_cancel pg now newid i m = store_mutate pg now newid i m Queued Cancelled ActionJobCancelled"

text \<open>The store as an implementation of the \<open>Store\<close> interface.\<close>

definition sql_job_store :: "pg \<Rightarrow> contention \<Rightarrow> string \<Rightarrow> job_store" where
  "sql_job_store pg c token = \<lparr>js_enqueue = store_enqueue pg,
     js_claim_one = store_claim_one c token,
     js_mark_succeeded = store_mark_succeeded pg,
     js_mark_failed = store_mark_failed pg\<rparr>"

end
