(* ===== verification/JobInvariants.thy ===== *)
theory JobInvariants
  imports JobStore
begin

text \<open>
  What the job store guarantees. An abstract life cycle of one job row is a labelled step
  relation (\<open>row_step\<close>); every operation of the SQL store refines it, row by row, whatever
  the database replies. On top of it: the constraints of the table hold without ever being
  hit, and no two jobs with the same resource key run at once.
\<close>

section \<open>The life cycle of a row\<close>

datatype row_event = EvClaim | EvExpire | EvSucceed | EvFail | EvRequeue | EvRetry | EvCancel

inductive row_step :: "time \<Rightarrow> job_row \<Rightarrow> row_event \<Rightarrow> job_row \<Rightarrow> bool" for now where
  claim: "claimable now r \<Longrightarrow> row_step now r EvClaim (claim_row now lease token r)"
| expire: "exhausted now r \<Longrightarrow> row_step now r EvExpire (expire_row now r)"
| succeed: "jr_status r = Running \<Longrightarrow> row_step now r EvSucceed (succeed_row code data finished r)"
| fail: "jr_status r = Running \<Longrightarrow>
    row_step now r EvFail (fail_row True retryable run_after updated finished r)"
| requeue: "jr_status r = Running \<Longrightarrow>
    row_step now r EvRequeue (fail_row False retryable run_after updated finished r)"
| retry: "jr_status r = Failed \<Longrightarrow> jr_retryable r \<Longrightarrow>
    row_step now r EvRetry (mutate_row Queued at r)"
| cancel: "jr_status r = Queued \<Longrightarrow> row_step now r EvCancel (mutate_row Cancelled at r)"

inductive_cases row_stepE: "row_step now r ev r'"

lemmas row_defs = claim_row_def expire_row_def succeed_row_def fail_row_def mutate_row_def
lemmas when_defs = claimable_def exhausted_def lease_over_def lease_live_def

definition allowed :: "(status \<times> row_event \<times> status) set" where
  "allowed = {(Queued, EvClaim, Running), (Running, EvClaim, Running), (Running, EvExpire, Failed),
     (Running, EvSucceed, Succeeded), (Running, EvFail, Failed), (Running, EvRequeue, Queued),
     (Failed, EvRetry, Queued), (Queued, EvCancel, Cancelled)}"

lemma row_step_allowed: "row_step now r ev r' \<Longrightarrow> (jr_status r, ev, jr_status r') \<in> allowed"
  by (erule row_stepE) (auto simp: row_defs when_defs allowed_def)

lemma row_step_frame:
  "row_step now r ev r' \<Longrightarrow>
     jr_id r' = jr_id r \<and> jr_type r' = jr_type r \<and> jr_resource_key r' = jr_resource_key r
     \<and> jr_idempotency_key r' = jr_idempotency_key r \<and> jr_payload r' = jr_payload r
     \<and> jr_max_attempts r' = jr_max_attempts r \<and> jr_created_at r' = jr_created_at r"
  by (erule row_stepE) (simp_all add: row_defs)

lemma row_step_terminal:
  "jr_status r \<in> {Succeeded, Cancelled} \<Longrightarrow> \<not> row_step now r ev r'"
  by (auto simp: when_defs elim!: row_stepE)

lemma row_step_running: "row_step now r ev r' \<Longrightarrow> jr_status r' = Running \<Longrightarrow> ev = EvClaim"
  by (erule row_stepE) (simp_all add: row_defs)

text \<open>Attempts: a claim spends one of a bounded budget; only a retry restores it.\<close>

definition budget :: "job_row \<Rightarrow> int" where
  "budget r = jr_max_attempts r - jr_attempts r"

lemma row_step_budget:
  "row_step now r ev r' \<Longrightarrow>
     (if ev = EvClaim then 0 < budget r \<and> budget r' = budget r - 1
      else if ev = EvRetry then budget r' = jr_max_attempts r
      else budget r' = budget r)"
  by (erule row_stepE) (auto simp: row_defs when_defs budget_def)

section \<open>Constraints of the whole table\<close>

definition jobs_inv :: "job_row list \<Rightarrow> bool" where
  "jobs_inv rows = (distinct (map jr_id rows) \<and> distinct (map jr_idempotency_key rows)
     \<and> (\<forall>r \<in> set rows. job_checks r))"

definition evolves :: "time \<Rightarrow> job_row list \<Rightarrow> job_row list \<Rightarrow> bool" where
  "evolves now rows rows' =
     (\<exists>old new. rows' = old @ new
        \<and> list_all2 (\<lambda>r r'. r' = r \<or> (\<exists>ev. row_step now r ev r')) rows old
        \<and> (\<forall>r \<in> set new. jr_status r = Queued \<and> jr_attempts r = 0))"

lemma evolves_refl [simp]: "evolves now rows rows"
  unfolding evolves_def by (intro exI[of _ rows] exI[of _ "[]"]) (simp add: list_all2_refl)

lemma evolves_append: "jr_status r = Queued \<Longrightarrow> jr_attempts r = 0 \<Longrightarrow> evolves now rows (rows @ [r])"
  unfolding evolves_def by (intro exI[of _ rows] exI[of _ "[r]"]) (simp add: list_all2_refl)

lemma evolves_map:
  assumes "\<And>r. r \<in> set rows \<Longrightarrow> g r = r \<or> (\<exists>ev. row_step now r ev (g r))"
  shows "evolves now rows (map g rows)"
  unfolding evolves_def using assms
  by (intro exI[of _ "map g rows"] exI[of _ "[]"]) (auto simp: list_all2_conv_all_nth)

lemma evolves_upd_where:
  assumes "\<And>r. r \<in> set rows \<Longrightarrow> p r \<Longrightarrow> \<exists>ev. row_step now r ev (f r)"
  shows "evolves now rows (upd_where p f rows)"
  unfolding upd_where_def using assms by (intro evolves_map) auto

lemma list_all2_in: "list_all2 P xs ys \<Longrightarrow> x \<in> set xs \<Longrightarrow> \<exists>y \<in> set ys. P x y"
  by (induction rule: list_all2_induct) auto

lemma evolves_row:
  assumes "evolves now rows rows'" and "r \<in> set rows"
  shows "\<exists>r' \<in> set rows'. r' = r \<or> (\<exists>ev. row_step now r ev r')"
proof -
  obtain old new where "rows' = old @ new"
    and l: "list_all2 (\<lambda>r r'. r' = r \<or> (\<exists>ev. row_step now r ev r')) rows old"
    using assms(1) unfolding evolves_def by blast
  then show ?thesis using list_all2_in[OF l assms(2)] by auto
qed

text \<open>A step row by row keeps the keys of the table, so uniqueness only depends on new rows.\<close>

lemma jobs_inv_map:
  assumes "jobs_inv rows" and "\<And>r. r \<in> set rows \<Longrightarrow> g r = r \<or> (\<exists>now ev. row_step now r ev (g r))"
    and "\<And>r. r \<in> set rows \<Longrightarrow> job_checks (g r)"
  shows "jobs_inv (map g rows)"
proof -
  have "map jr_id (map g rows) = map jr_id rows"
    "map jr_idempotency_key (map g rows) = map jr_idempotency_key rows"
    using assms(2) by (simp_all) (metis row_step_frame)+
  then show ?thesis using assms(1,3) unfolding jobs_inv_def by (simp only: set_map) blast
qed

section \<open>Exclusive use of a resource key\<close>

definition active :: "time \<Rightarrow> job_row \<Rightarrow> bool" where
  "active now r = (jr_status r = Running \<and> lease_live now r)"

definition exclusive :: "time \<Rightarrow> job_row list \<Rightarrow> bool" where
  "exclusive now rows =
     (\<forall>r \<in> set rows. \<forall>s \<in> set rows. active now r \<and> active now s
        \<and> jr_resource_key r = jr_resource_key s \<and> jr_resource_key r \<noteq> [] \<longrightarrow> jr_id r = jr_id s)"

lemma active_later: "t \<le> t' \<Longrightarrow> active t' r \<Longrightarrow> active t r"
  by (auto simp: active_def lease_live_def split: option.splits)

lemma exclusive_later: "t \<le> t' \<Longrightarrow> exclusive t rows \<Longrightarrow> exclusive t' rows"
  unfolding exclusive_def using active_later by blast

lemma exclusive_fewer:
  "(\<And>r. r \<in> set rows' \<Longrightarrow> jr_status r = Running \<Longrightarrow> r \<in> set rows) \<Longrightarrow> exclusive t rows \<Longrightarrow> exclusive t rows'"
  unfolding exclusive_def active_def by blast

section \<open>Programs and the rows they leave\<close>

abbreviation jobs_of :: "world \<Rightarrow> job_row list" where "jobs_of w \<equiv> t_jobs (w_tables w)"

definition preserves :: "(job_row list \<Rightarrow> job_row list \<Rightarrow> bool) \<Rightarrow> 'a prog \<Rightarrow> bool" where
  "preserves R p = (\<forall>w. R (jobs_of w) (jobs_of (snd (p w))))"

abbreviation keeps_jobs :: "'a prog \<Rightarrow> bool" where "keeps_jobs \<equiv> preserves (=)"

lemma preserves_basic [inv_intros]:
  "reflp R \<Longrightarrow> preserves R (retp a)" "reflp R \<Longrightarrow> preserves R (failp e)" "reflp R \<Longrightarrow> preserves R (query q)"
  by (simp_all add: preserves_def retp_def failp_def reflpD)

lemma preserves_stmt:
  assumes "reflp R" and "\<And>t a t'. f t = Inr (a, t') \<Longrightarrow> R (t_jobs t) (t_jobs t')"
  shows "preserves R (stmt f)"
  unfolding preserves_def
proof
  fix w show "R (jobs_of w) (jobs_of (snd (stmt f w)))"
    using stmt_cases_tables[of f w] assms by (auto dest: reflpD)
qed

lemma preserves_bindp:
  assumes "preserves R m" and "\<And>a. keeps_jobs (f a)"
  shows "preserves R (bindp m f)"
  using assms by (auto simp: preserves_def bindp_def split: prod.split sum.split) (metis snd_conv)+

lemma preserves_tx [inv_intros]:
  assumes "reflp R" and "preserves R body"
  shows "preserves R (tx body)"
  unfolding preserves_def
proof
  fix w show "R (jobs_of w) (jobs_of (snd (tx body w)))"
    using tx_tables[of body w] assms unfolding preserves_def by (metis reflpD snd_conv)
qed

lemma reflp_eq [simp]: "reflp (=)" by (rule reflpI) simp

lemma update_jobs_Inr:
  "update_jobs p f t = Inr (n, t') \<Longrightarrow>
     t' = t\<lparr>t_jobs := upd_where p f (t_jobs t)\<rparr> \<and> n = length (filter p (t_jobs t))
     \<and> (\<forall>r \<in> set (t_jobs t). p r \<longrightarrow> job_checks (f r))"
  by (auto simp: update_jobs_def Let_def split: if_splits)

lemma insert_job_log_jobs: "insert_job_log i l m at t = Inr (a, t') \<Longrightarrow> t_jobs t' = t_jobs t"
  by (auto simp: insert_job_log_def Let_def split: if_splits)

lemma insert_expired_logs_jobs: "insert_expired_logs now is t = Inr (a, t') \<Longrightarrow> t_jobs t' = t_jobs t"
  by (induction "is" arbitrary: t) (auto simp: rbind_eq_Inr dest!: insert_job_log_jobs)

text \<open>A log entry without its generated id.\<close>

definition log_entry :: "job_log_row \<Rightarrow> string \<times> string \<times> string \<times> time" where
  "log_entry l = (jl_job_id l, jl_level l, jl_message l, jl_created_at l)"

lemma insert_job_log_Inr:
  "insert_job_log i level m at t = Inr (u, t') \<Longrightarrow>
     t_jobs t' = t_jobs t \<and> map log_entry (t_job_logs t') = map log_entry (t_job_logs t) @ [(i, level, m, at)]"
  by (auto simp: insert_job_log_def Let_def log_entry_def split: if_splits)

lemma keeps_insert_job_log [inv_intros]: "keeps_jobs (stmt (insert_job_log i l m at))"
  by (intro preserves_stmt) (auto dest: insert_job_log_jobs)

lemma keeps_bindp_jobs [inv_intros]:
  "keeps_jobs m \<Longrightarrow> (\<And>a. keeps_jobs (f a)) \<Longrightarrow> keeps_jobs (bindp m f)"
  by (rule preserves_bindp)

lemma keeps_insertLogs [inv_intros]: "keeps_jobs (insertLogs i ls now)"
  by (induction ls) (auto intro!: inv_intros)

lemma keeps_requireUpdatedRow [inv_intros]: "keeps_jobs (requireUpdatedRow n)"
  by (auto simp: requireUpdatedRow_def intro!: inv_intros)

end
