(* ===== verification/JobQueue.thy ===== *)
theory JobQueue
  imports JobInvariants
begin

text \<open>
  The queue over the SQL store as a transition system: any operation, any replies of the
  database, any contention, a clock that does not go back. Every operation is related to the
  life cycle of \<open>JobInvariants\<close>, and the two invariants are kept by every step.
\<close>

section \<open>What a claim does to the rows\<close>

lemma expired_sub: "r \<in> set (expired_candidates c now rows) \<Longrightarrow> r \<in> set rows \<and> exhausted now r"
  by (auto simp: expired_candidates_def dest!: in_set_takeD)

lemma next_candidate_Some:
  assumes "next_candidate c now rows = Some r"
  shows "r \<in> set rows \<and> eligible now rows r \<and> \<not> ct_row_locked c (jr_id r)
    \<and> (\<forall>s \<in> set rows. eligible now rows s \<and> \<not> ct_row_locked c (jr_id s) \<longrightarrow>
         (jr_run_after r, jr_created_at r) \<le> (jr_run_after s, jr_created_at s))"
proof -
  let ?k = "\<lambda>r. (jr_run_after r, jr_created_at r)"
  obtain rest where h: "filter (\<lambda>r. \<not> ct_row_locked c (jr_id r))
      (sort_key ?k (filter (eligible now rows) rows)) = r # rest"
    using assms by (auto simp: next_candidate_def split: list.splits)
  have "sorted (map ?k (r # rest))"
    unfolding h[symmetric] by (intro sorted_filter sorted_sort_key)
  moreover have "set (r # rest) = {s \<in> set rows. eligible now rows s \<and> \<not> ct_row_locked c (jr_id s)}"
    unfolding h[symmetric] by auto
  ultimately show ?thesis by auto
qed

lemma next_candidate_None:
  "next_candidate c now rows = None \<longleftrightarrow>
     (\<forall>s \<in> set rows. eligible now rows s \<longrightarrow> ct_row_locked c (jr_id s))"
proof -
  have "next_candidate c now rows = None \<longleftrightarrow> filter (\<lambda>r. \<not> ct_row_locked c (jr_id r))
      (sort_key (\<lambda>r. (jr_run_after r, jr_created_at r)) (filter (eligible now rows) rows)) = []"
    by (auto simp: next_candidate_def split: list.splits)
  then show ?thesis by (auto simp: filter_empty_conv)
qed

lemma next_claim_Some: "next_claim c now rows = Some r \<Longrightarrow> next_candidate c now rows = Some r"
  by (auto simp: next_claim_def split: option.splits if_splits)

lemma claimable_not_exhausted: "claimable now r \<Longrightarrow> \<not> exhausted now r"
  by (auto simp: when_defs)

text \<open>The row-by-row effect of the claim statement.\<close>

definition claim_effect ::
  "contention \<Rightarrow> time \<Rightarrow> time \<Rightarrow> string \<Rightarrow> job_row list \<Rightarrow> job_row \<Rightarrow> job_row" where
  "claim_effect c now lease token rows r =
     (if jr_id r \<in> jr_id ` set (expired_candidates c now rows) then expire_row now r
      else if next_claim c now rows \<noteq> None \<and> jr_id r = jr_id (the (next_claim c now rows))
      then claim_row now lease token r else r)"

lemma claim_effect_cases:
  assumes "distinct (map jr_id rows)" and "r \<in> set rows"
  shows "claim_effect c now lease token rows r = r
    \<or> exhausted now r \<and> claim_effect c now lease token rows r = expire_row now r
    \<or> next_claim c now rows = Some r \<and> claim_effect c now lease token rows r = claim_row now lease token r"
proof -
  have "exhausted now r" if "jr_id r \<in> jr_id ` set (expired_candidates c now rows)"
    using that expired_sub assms distinct_map_inj_on by (metis (no_types, lifting) imageE)
  moreover have "n = r" if "next_claim c now rows = Some n" "jr_id r = jr_id n" for n
    using that next_claim_Some next_candidate_Some assms distinct_map_inj_on by metis
  ultimately show ?thesis by (auto simp: claim_effect_def)
qed

lemma next_not_expired:
  assumes "distinct (map jr_id rows)" and "next_claim c now rows = Some n"
  shows "jr_id n \<notin> jr_id ` set (expired_candidates c now rows)"
proof
  assume "jr_id n \<in> jr_id ` set (expired_candidates c now rows)"
  then obtain e where "e \<in> set (expired_candidates c now rows)" "jr_id e = jr_id n" by auto
  moreover have n: "n \<in> set rows" "claimable now n"
    using next_candidate_Some[OF next_claim_Some[OF assms(2)]] by (auto simp: eligible_def)
  ultimately have "exhausted now n"
    using expired_sub distinct_map_inj_on[OF assms(1)] by metis
  with n(2) claimable_not_exhausted show False by blast
qed

lemma claim_stmt_Inr:
  assumes "claim_stmt c now lease token t = Inr (res, t')" and "distinct (map jr_id (t_jobs t))"
  shows "t_jobs t' = map (claim_effect c now lease token (t_jobs t)) (t_jobs t)
    \<and> res = map_option (claim_row now lease token) (next_claim c now (t_jobs t))
    \<and> (\<forall>r \<in> set (t_jobs t). claim_effect c now lease token (t_jobs t) r = r
          \<or> job_checks (claim_effect c now lease token (t_jobs t) r))"
proof -
  let ?rows = "t_jobs t"
  let ?ids = "map jr_id (expired_candidates c now ?rows)"
  obtain n1 t1 u t2 where 1: "update_jobs (\<lambda>r. jr_id r \<in> set ?ids) (expire_row now) t = Inr (n1, t1)"
    and 2: "insert_expired_logs now ?ids t1 = Inr (u, t2)"
    and 3: "(case next_claim c now ?rows of None \<Rightarrow> Inr (None, t2)
         | Some n \<Rightarrow> rbind (update_jobs (\<lambda>r. jr_id r = jr_id n) (claim_row now lease token) t2)
             (\<lambda>(_, t3). Inr (Some (claim_row now lease token n), t3))) = Inr (res, t')"
    using assms(1) by (auto simp: claim_stmt_def Let_def rbind_eq_Inr)
  have t2: "t_jobs t2 = upd_where (\<lambda>r. jr_id r \<in> set ?ids) (expire_row now) ?rows"
    and ck: "\<forall>r \<in> set ?rows. jr_id r \<in> set ?ids \<longrightarrow> job_checks (expire_row now r)"
    using update_jobs_Inr[OF 1] insert_expired_logs_jobs[OF 2] by auto
  show ?thesis
  proof (cases "next_claim c now ?rows")
    case None
    then show ?thesis using 3 t2 ck by (auto simp: upd_where_def claim_effect_def)
  next
    case (Some n)
    note ne = next_not_expired[OF assms(2) Some]
    have idk: "jr_id (expire_row now r) = jr_id r" for r by (simp add: expire_row_def)
    obtain n3 where 4: "update_jobs (\<lambda>r. jr_id r = jr_id n) (claim_row now lease token) t2 = Inr (n3, t')"
      and res: "res = Some (claim_row now lease token n)"
      using 3 Some by (auto simp: rbind_eq_Inr)
    note u = update_jobs_Inr[OF 4]
    have "t_jobs t' = map (claim_effect c now lease token ?rows) ?rows"
      using u t2 ne Some by (auto simp: upd_where_def claim_effect_def idk)
    moreover have "job_checks (claim_row now lease token r)"
      if "r \<in> set ?rows" "jr_id r = jr_id n" for r
    proof -
      have "r \<in> set (t_jobs t2)" using that ne by (auto simp: t2 set_upd_where image_iff intro!: bexI[of _ r])
      then show ?thesis using u that by blast
    qed
    ultimately show ?thesis using res Some ck by (auto simp: claim_effect_def)
  qed
qed

text \<open>What it leaves in the other tables: a log for every expired job, and nothing else.\<close>

lemma expired_logs_Inr:
  "insert_expired_logs now is t = Inr (u, t') \<Longrightarrow> t' = t\<lparr>t_job_logs := t_job_logs t'\<rparr>
     \<and> map log_entry (t_job_logs t') = map log_entry (t_job_logs t) @ map (\<lambda>i. (i, ''error'', expiry_message, now)) is"
proof (induction "is" arbitrary: t)
  case Nil
  then show ?case by simp
next
  case (Cons i "is")
  then obtain u1 t1 where 1: "insert_job_log i ''error'' expiry_message now t = Inr (u1, t1)"
    and 2: "insert_expired_logs now is t1 = Inr (u, t')" by (auto simp: rbind_eq_Inr)
  have t1: "t1 = t\<lparr>t_job_logs := t_job_logs t1\<rparr>"
    using 1 by (auto simp: insert_job_log_def Let_def split: if_splits)
  note ih = Cons.IH[OF 2]
  have "t' = t\<lparr>t_job_logs := t_job_logs t'\<rparr>"
    by (subst conjunct1[OF ih], subst t1) simp
  then show ?case using conjunct2[OF ih] conjunct2[OF insert_job_log_Inr[OF 1]] by simp
qed

lemma claim_stmt_logs:
  assumes "claim_stmt c now lease token t = Inr (res, t')"
  shows "t' = t\<lparr>t_jobs := t_jobs t', t_job_logs := t_job_logs t'\<rparr>
    \<and> map log_entry (t_job_logs t') = map log_entry (t_job_logs t)
        @ map (\<lambda>i. (i, ''error'', expiry_message, now)) (map jr_id (expired_candidates c now (t_jobs t)))"
proof -
  let ?ids = "map jr_id (expired_candidates c now (t_jobs t))"
  obtain n1 t1 u t2 where 1: "update_jobs (\<lambda>r. jr_id r \<in> set ?ids) (expire_row now) t = Inr (n1, t1)"
    and 2: "insert_expired_logs now ?ids t1 = Inr (u, t2)"
    and 3: "(case next_claim c now (t_jobs t) of None \<Rightarrow> Inr (None, t2)
         | Some n \<Rightarrow> rbind (update_jobs (\<lambda>r. jr_id r = jr_id n) (claim_row now lease token) t2)
             (\<lambda>(_, t3). Inr (Some (claim_row now lease token n), t3))) = Inr (res, t')"
    using assms by (auto simp: claim_stmt_def Let_def rbind_eq_Inr)
  have t1: "t1 = t\<lparr>t_jobs := t_jobs t1\<rparr>" "t_job_logs t1 = t_job_logs t" using update_jobs_Inr[OF 1] by simp_all
  have t3: "t' = t2\<lparr>t_jobs := t_jobs t'\<rparr>" "t_job_logs t' = t_job_logs t2"
    using 3 by (auto simp: rbind_eq_Inr dest!: update_jobs_Inr split: option.splits)
  have t2: "t2 = t1\<lparr>t_job_logs := t_job_logs t2\<rparr>"
    "map log_entry (t_job_logs t2) = map log_entry (t_job_logs t1) @ map (\<lambda>i. (i, ''error'', expiry_message, now)) ?ids"
    using expired_logs_Inr[OF 2] by blast+
  have "t' = t\<lparr>t_jobs := t_jobs t', t_job_logs := t_job_logs t'\<rparr>"
    by (subst t3(1), subst t2(1), subst t1(1)) (simp add: t3(2))
  then show ?thesis using t1(2) t2(2) t3(2) by simp
qed

section \<open>Every operation refines the life cycle\<close>

definition job_rel :: "time \<Rightarrow> job_row list \<Rightarrow> job_row list \<Rightarrow> bool" where
  "job_rel now rows rows' = (jobs_inv rows \<longrightarrow>
     jobs_inv rows' \<and> evolves now rows rows' \<and> (exclusive now rows \<longrightarrow> exclusive now rows'))"

lemma job_rel_refl [simp]: "reflp (job_rel now)"
  by (rule reflpI) (simp add: job_rel_def)

lemma job_rel_map:
  assumes "\<And>r. jobs_inv rows \<Longrightarrow> r \<in> set rows \<Longrightarrow> g r = r \<or> (\<exists>ev. row_step now r ev (g r)) \<and> job_checks (g r)"
    and "jobs_inv rows \<Longrightarrow> exclusive now rows \<Longrightarrow> exclusive now (map g rows)"
  shows "job_rel now rows (map g rows)"
  unfolding job_rel_def
proof (intro impI conjI)
  assume i: "jobs_inv rows"
  show "jobs_inv (map g rows)"
    using assms(1)[OF i] by (intro jobs_inv_map[OF i]) (blast, metis i jobs_inv_def)
  show "evolves now rows (map g rows)" using assms(1)[OF i] by (intro evolves_map) blast
qed (use assms(2) in blast)

lemma job_rel_update:
  assumes "update_jobs p f t = Inr (n, t')"
    and "\<And>r. jobs_inv (t_jobs t) \<Longrightarrow> r \<in> set (t_jobs t) \<Longrightarrow> p r \<Longrightarrow> \<exists>ev. row_step now r ev (f r)"
    and "\<And>r. jr_status (f r) \<noteq> Running"
  shows "job_rel now (t_jobs t) (t_jobs t')"
proof -
  note u = update_jobs_Inr[OF assms(1)]
  then have "t_jobs t' = map (\<lambda>r. if p r then f r else r) (t_jobs t)"
    by (simp add: upd_where_def)
  moreover have "job_rel now (t_jobs t) (map (\<lambda>r. if p r then f r else r) (t_jobs t))"
  proof (rule job_rel_map)
    fix r assume "jobs_inv (t_jobs t)" "r \<in> set (t_jobs t)"
    then show "(if p r then f r else r) = r \<or>
        (\<exists>ev. row_step now r ev (if p r then f r else r)) \<and> job_checks (if p r then f r else r)"
      using u assms(2) by (cases "p r") auto
  next
    assume "exclusive now (t_jobs t)"
    then show "exclusive now (map (\<lambda>r. if p r then f r else r) (t_jobs t))"
      by (rule exclusive_fewer[rotated]) (use assms(3) in \<open>auto split: if_splits\<close>)
  qed
  ultimately show ?thesis by simp
qed

lemma job_rel_insert:
  assumes "insert_job r t = Inr (a, t')" and "jr_status r = Queued" and "jr_attempts r = 0"
  shows "job_rel now (t_jobs t) (t_jobs t')"
proof -
  have t': "t_jobs t' = t_jobs t @ [r]" and ok: "job_checks r"
    and fresh: "jr_id r \<notin> jr_id ` set (t_jobs t)"
      "jr_idempotency_key r \<notin> jr_idempotency_key ` set (t_jobs t)"
    using assms(1) by (auto simp: insert_job_def split: if_splits)
  have "exclusive now (t_jobs t @ [r])" if "exclusive now (t_jobs t)"
    by (rule exclusive_fewer[OF _ that]) (use assms(2) in auto)
  moreover have "evolves now (t_jobs t) (t_jobs t @ [r])" by (rule evolves_append) (use assms in auto)
  moreover have "jobs_inv (t_jobs t @ [r])" if "jobs_inv (t_jobs t)"
    using that ok fresh by (auto simp: jobs_inv_def)
  ultimately show ?thesis by (simp add: job_rel_def t')
qed

lemma exclusive_claim:
  assumes d: "distinct (map jr_id rows)" and e: "exclusive now rows"
  shows "exclusive now (map (claim_effect c now lease token rows) rows)"
proof -
  let ?g = "claim_effect c now lease token rows"
  have run: "active now r \<and> ?g r = r \<or> next_claim c now rows = Some r \<and> ?g r = claim_row now lease token r"
    if "r \<in> set rows" "active now (?g r)" for r
    using claim_effect_cases[OF d that(1), of c now lease token] that(2)
    by (auto simp: active_def expire_row_def)
  have free: "jr_id s = jr_id r"
    if "next_claim c now rows = Some r" "s \<in> set rows" "active now s"
      "jr_resource_key s = jr_resource_key r" "jr_resource_key r \<noteq> []" for r s
    using that next_candidate_Some[OF next_claim_Some[OF that(1)]]
    by (auto simp: eligible_def key_busy_def active_def)
  have idk: "jr_id (?g r) = jr_id r \<and> jr_resource_key (?g r) = jr_resource_key r" for r
    by (simp add: claim_effect_def expire_row_def claim_row_def)
  show ?thesis
    unfolding exclusive_def set_map
  proof (intro ballI impI)
    fix x y assume "x \<in> ?g ` set rows" "y \<in> ?g ` set rows"
      and h: "active now x \<and> active now y \<and> jr_resource_key x = jr_resource_key y \<and> jr_resource_key x \<noteq> []"
    then obtain r s where r: "r \<in> set rows" "x = ?g r" and s: "s \<in> set rows" "y = ?g s" by blast
    have k: "jr_resource_key r = jr_resource_key s" "jr_resource_key r \<noteq> []"
      using h r s idk by metis+
    have "jr_id r = jr_id s"
      using run[of r] run[of s] h r s k free[of r s] free[of s r] e
      unfolding exclusive_def by (metis option.inject)
    then show "jr_id x = jr_id y" using idk r s by simp
  qed
qed

lemma store_enqueue_rel:
  assumes "j_status j = Queued" and "j_attempts j = 0"
  shows "preserves (job_rel now) (store_enqueue pg j)"
  unfolding store_enqueue_def
proof (rule preserves_stmt[OF job_rel_refl])
  fix t a t' assume "(case new_job_row pg j of None \<Rightarrow> Inl cast_failure | Some r \<Rightarrow> insert_job r t) = Inr (a, t')"
  then obtain r where "new_job_row pg j = Some r" "insert_job r t = Inr (a, t')"
    by (auto split: option.splits)
  then show "job_rel now (t_jobs t) (t_jobs t')"
    using assms by (intro job_rel_insert) (auto simp: new_job_row_def split: option.splits)
qed

lemma build_job_fresh:
  "build_job now newid input = Inr j \<Longrightarrow> j_status j = Queued \<and> j_attempts j = 0"
  by (auto simp: build_job_def Let_def rbind_eq_Inr split: if_splits)

lemma store_claim_rel: "preserves (job_rel now) (store_claim_one c token now lease)"
  unfolding store_claim_one_def
proof (rule preserves_bindp)
  show "preserves (job_rel now) (stmt (claim_stmt c now lease token))"
  proof (rule preserves_stmt[OF job_rel_refl])
    fix t a t' assume a: "claim_stmt c now lease token t = Inr (a, t')"
    let ?g = "claim_effect c now lease token (t_jobs t)"
    have step: "?g r = r \<or> (\<exists>ev. row_step now r ev (?g r)) \<and> job_checks (?g r)"
      if i: "jobs_inv (t_jobs t)" and r: "r \<in> set (t_jobs t)" for r
    proof -
      have d: "distinct (map jr_id (t_jobs t))" using i by (simp add: jobs_inv_def)
      have "claimable now r" if "next_claim c now (t_jobs t) = Some r"
        using next_candidate_Some[OF next_claim_Some[OF that]] by (simp add: eligible_def)
      then show ?thesis
        using claim_effect_cases[OF d r, of c now lease token] claim_stmt_Inr[OF a d] r
        by (metis row_step.claim row_step.expire)
    qed
    have "job_rel now (t_jobs t) (map ?g (t_jobs t))"
      by (rule job_rel_map) (use step exclusive_claim in \<open>auto simp: jobs_inv_def\<close>)
    then show "job_rel now (t_jobs t) (t_jobs t')"
      using claim_stmt_Inr[OF a] by (auto simp: job_rel_def jobs_inv_def)
  qed
qed (auto intro!: inv_intros split: option.split)

lemma with_claim_Inr:
  "with_claim pg j f t = Inr (a, t') \<Longrightarrow> \<exists>i token. uuid_in pg (j_id j) = Some i
     \<and> uuid_in pg (j_claim_token j) = Some token \<and> f i token t = Inr (a, t')"
  by (auto simp: with_claim_def split: option.splits)

lemma succeed_step: "owns i token r \<Longrightarrow> row_step now r EvSucceed (succeed_row code data finished r)"
  by (auto simp: owns_def intro: row_step.succeed)

lemma fail_step: "owns i token r \<Longrightarrow> \<exists>ev. row_step now r ev (fail_row final retryable ra up fin r)"
  by (cases final) (auto simp: owns_def intro: row_step.fail row_step.requeue)

lemma mark_succeeded_rel: "preserves (job_rel now) (store_mark_succeeded pg j finished res)"
  unfolding store_mark_succeeded_def
proof (intro preserves_tx job_rel_refl preserves_bindp preserves_stmt)
  fix t a t' assume "with_claim pg j (\<lambda>i token t.
      case null_cast (jsonb_in pg) (rs_data res) of None \<Rightarrow> Inl cast_failure
      | Some data \<Rightarrow> update_jobs (owns i token) (succeed_row (rs_code res) data finished) t) t = Inr (a, t')"
  then obtain i token data where
    u: "update_jobs (owns i token) (succeed_row (rs_code res) data finished) t = Inr (a, t')"
    by (auto dest!: with_claim_Inr split: option.splits)
  show "job_rel now (t_jobs t) (t_jobs t')"
    by (rule job_rel_update[OF u]) (blast intro: succeed_step, simp add: succeed_row_def)
qed (auto intro!: inv_intros)

lemma mark_failed_rel: "preserves (job_rel now) (store_mark_failed pg j final retryable ra up fin msg)"
  unfolding store_mark_failed_def
proof (intro preserves_tx job_rel_refl preserves_bindp preserves_stmt)
  fix t a t' assume "with_claim pg j (\<lambda>i token. update_jobs (owns i token) (fail_row final retryable ra up fin)) t
      = Inr (a, t')"
  then obtain i token where u: "update_jobs (owns i token) (fail_row final retryable ra up fin) t = Inr (a, t')"
    by (auto dest!: with_claim_Inr)
  show "job_rel now (t_jobs t) (t_jobs t')"
    by (rule job_rel_update[OF u]) (blast intro: fail_step, simp add: fail_row_def)
qed (auto intro!: inv_intros)

lemma keeps_audit_write [inv_intros]: "keeps_jobs (audit_write pg ev)"
  unfolding audit_write_def
  by (intro preserves_stmt) (auto simp: insert_audit_def split: option.splits if_splits)

lemma keeps_audit_record [inv_intros]: "keeps_jobs (audit_record (audit_write pg) now newid ev)"
  by (auto simp: audit_record_def Let_def intro!: inv_intros split: sum.split)

lemma find_job_Inr:
  "find_job pg i t = Inr (Some r) \<Longrightarrow> \<exists>u. uuid_in pg i = Some u \<and> jr_id r = u \<and> r \<in> set (t_jobs t)"
  by (auto simp: find_job_def split: option.splits dest: find_Some_set)

lemma mutate_rel:
  assumes "from_status = Failed \<and> target = Queued \<and> action = ActionJobRetried
    \<or> from_status = Queued \<and> target = Cancelled"
  shows "preserves (job_rel now) (store_mutate pg now newid i m from_status target action)"
proof -
  let ?after = "\<lambda>_. bindp (audit_record (audit_write pg) now newid (mutation_event m action i)) (\<lambda>_. retp (Commit ()))"
  let ?body = "bindp (query (find_job pg i)) (\<lambda>res. case res of
          None \<Rightarrow> failp ErrJobNotFound
        | Some r \<Rightarrow>
            if jr_status r \<noteq> from_status \<or> (action = ActionJobRetried \<and> \<not> jr_retryable r)
            then failp ErrInvalidTransition
            else bindp (stmt (update_jobs (\<lambda>s. jr_id s = the (uuid_in pg i)) (mutate_row target now))) ?after)"
  have after: "keeps_jobs (?after n)" for n :: nat by (auto intro!: inv_intros)
  have "preserves (job_rel now) ?body"
    unfolding preserves_def
  proof
    fix w
    show "job_rel now (jobs_of w) (jobs_of (snd (?body w)))"
    proof (cases "query (find_job pg i) w")
      case (Pair q w1)
      have w1: "w_tables w1 = w_tables w" using Pair query_tables by (metis snd_conv)
      show ?thesis
      proof (cases "\<exists>r. q = Inr (Some r) \<and> jr_status r = from_status
          \<and> (action = ActionJobRetried \<longrightarrow> jr_retryable r)")
        case False
        then show ?thesis using Pair w1 job_rel_refl
          by (auto simp: bindp_def failp_def reflpD split: sum.split option.split)
      next
        case True
        then obtain r where q: "q = Inr (Some r)" and st: "jr_status r = from_status"
          and rt: "action = ActionJobRetried \<longrightarrow> jr_retryable r" by blast
        have "find_job pg i (w_tables w) = Inr (Some r)"
          using query_Inr[OF Pair[unfolded q]] by (rule conjunct1)
        then obtain u where u: "uuid_in pg i = Some u" "jr_id r = u" "r \<in> set (jobs_of w)"
          using find_job_Inr by blast
        let ?upd = "stmt (update_jobs (\<lambda>s. jr_id s = the (uuid_in pg i)) (mutate_row target now))"
        have step: "\<exists>ev. row_step now s ev (mutate_row target now s)"
          if "jobs_inv (jobs_of w)" "s \<in> set (jobs_of w)" "jr_id s = the (uuid_in pg i)" for s
        proof -
          have "s = r" using that u distinct_map_inj_on[of jr_id "jobs_of w" s r]
            by (simp add: jobs_inv_def)
          then show ?thesis using assms st rt by (auto intro: row_step.retry row_step.cancel)
        qed
        have "job_rel now (jobs_of w) (jobs_of (snd (?upd w1)))"
        proof -
          consider "w_tables (snd (?upd w1)) = w_tables w"
            | a where "update_jobs (\<lambda>s. jr_id s = the (uuid_in pg i)) (mutate_row target now) (w_tables w)
                = Inr (a, w_tables (snd (?upd w1)))"
            using stmt_cases_tables[of "update_jobs (\<lambda>s. jr_id s = the (uuid_in pg i)) (mutate_row target now)" w1]
            by (auto simp: w1)
          then show ?thesis
          proof cases
            case 1
            then show ?thesis using job_rel_refl by (simp add: reflpD)
          next
            case 2
            then show ?thesis
              by (rule job_rel_update) (use step assms in \<open>auto simp: mutate_row_def\<close>)
          qed
        qed
        moreover have "snd (?body w) = snd (bindp ?upd ?after w1)"
          using Pair q st rt by (cases "action = ActionJobRetried") (simp_all add: bindp_def)
        moreover have "jobs_of (snd (bindp ?upd ?after w1)) = jobs_of (snd (?upd w1))"
          using after by (auto simp: bindp_def preserves_def split: prod.split sum.split)
        ultimately show ?thesis by simp
      qed
    qed
  qed
  then have "preserves (job_rel now) (tx ?body)" by (rule preserves_tx[OF job_rel_refl])
  then show ?thesis
    by (auto simp: store_mutate_def intro!: inv_intros)
qed

section \<open>The queue as a system\<close>

text \<open>
  The state: the clock, the database and, as a ghost, the claim tokens the database has
  generated so far (\<open>gen_random_uuid\<close> never repeats one). The database's replies
  (\<open>network\<close>) and what other transactions hold (\<open>c\<close>) are arbitrary.
\<close>

record queue_sys =
  qs_now :: time
  qs_world :: world
  qs_tokens :: "string set"

definition jobs_in :: "queue_sys \<Rightarrow> job_row list" where
  "jobs_in s = jobs_of (qs_world s)"

definition sql_queue :: "pg \<Rightarrow> contention \<Rightarrow> string \<Rightarrow> duration \<Rightarrow> err + string \<Rightarrow> queue_sys \<Rightarrow> queue" where
  "sql_queue pg c token d newid s =
     WithLeaseDuration d (NewQueue (sql_job_store pg c token) (qs_now s) newid)"

inductive queue_step ::
  "pg \<Rightarrow> (rune \<Rightarrow> rune) \<Rightarrow> (string \<Rightarrow> bool) \<Rightarrow> queue_sys \<Rightarrow> queue_sys \<Rightarrow> bool"
  for pg ul float_ok where
  clock: "qs_now s \<le> t \<Longrightarrow> queue_step pg ul float_ok s (s\<lparr>qs_now := t\<rparr>)"
| network: "queue_step pg ul float_ok s (s\<lparr>qs_world := (qs_world s)\<lparr>w_replies := rs\<rparr>\<rparr>)"
| enqueue: "q = sql_queue pg c token d newid s \<Longrightarrow>
    queue_step pg ul float_ok s (s\<lparr>qs_world := snd (q_enqueue q input (qs_world s))\<rparr>)"
| claim: "q = sql_queue pg c token d newid s \<Longrightarrow> token \<notin> qs_tokens s \<Longrightarrow>
    queue_step pg ul float_ok s (s\<lparr>qs_world := snd (q_claim_one q (qs_world s)),
      qs_tokens := insert token (qs_tokens s)\<rparr>)"
| succeed: "q = sql_queue pg c token d newid s \<Longrightarrow>
    queue_step pg ul float_ok s (s\<lparr>qs_world := snd (q_succeed ul float_ok q j res (qs_world s))\<rparr>)"
| fail: "q = sql_queue pg c token d newid s \<Longrightarrow>
    queue_step pg ul float_ok s (s\<lparr>qs_world := snd (q_fail ul q j f (qs_world s))\<rparr>)"
| retry: "queue_step pg ul float_ok s
    (s\<lparr>qs_world := snd (store_retry pg (qs_now s) newid i m (qs_world s))\<rparr>)"
| cancel: "queue_step pg ul float_ok s
    (s\<lparr>qs_world := snd (store_cancel pg (qs_now s) newid i m (qs_world s))\<rparr>)"

lemmas queue_defs = sql_queue_def NewQueue_def WithLeaseDuration_def sql_job_store_def

lemma q_enqueue_rel: "preserves (job_rel (qs_now s)) (q_enqueue (sql_queue pg c token d newid s) input)"
proof (cases "build_job (qs_now s) newid input")
  case (Inl e)
  then show ?thesis by (auto simp: q_enqueue_def queue_defs intro!: inv_intros)
next
  case (Inr j)
  then show ?thesis using build_job_fresh[OF Inr]
    by (auto simp: q_enqueue_def queue_defs intro!: preserves_bindp store_enqueue_rel inv_intros)
qed

lemma q_claim_rel: "preserves (job_rel (qs_now s)) (q_claim_one (sql_queue pg c token d newid s))"
  by (auto simp: q_claim_one_def queue_defs intro: store_claim_rel)

lemma q_succeed_rel: "preserves (job_rel now) (q_succeed ul float_ok (sql_queue pg c token d newid s) j r)"
  by (auto simp: q_succeed_def queue_defs intro!: mark_succeeded_rel inv_intros split: sum.split)

lemma q_fail_rel: "preserves (job_rel now) (q_fail ul (sql_queue pg c token d newid s) j f)"
  by (auto simp: q_fail_def Let_def queue_defs intro!: mark_failed_rel inv_intros)

lemma retry_cancel_rel:
  "preserves (job_rel now) (store_retry pg now newid i m)"
  "preserves (job_rel now) (store_cancel pg now newid i m)"
  unfolding store_retry_def store_cancel_def by (rule mutate_rel, simp)+

lemma queue_step_rel:
  assumes "queue_step pg ul float_ok s s'"
  shows "qs_now s \<le> qs_now s' \<and> job_rel (qs_now s) (jobs_in s) (jobs_in s')"
  using assms
proof cases
  case (clock t)
  then show ?thesis using job_rel_refl by (simp add: jobs_in_def reflpD)
next
  case (network rs)
  then show ?thesis using job_rel_refl by (simp add: jobs_in_def reflpD)
qed (use q_enqueue_rel q_claim_rel q_succeed_rel q_fail_rel retry_cancel_rel
      in \<open>auto simp: jobs_in_def preserves_def\<close>)

definition sys_inv :: "queue_sys \<Rightarrow> bool" where
  "sys_inv s = (jobs_inv (jobs_in s) \<and> exclusive (qs_now s) (jobs_in s))"

lemma queue_step_inv: "queue_step pg ul float_ok s s' \<Longrightarrow> sys_inv s \<Longrightarrow> sys_inv s'"
  using queue_step_rel[of pg ul float_ok s s'] exclusive_later
  by (auto simp: sys_inv_def job_rel_def)

lemma queue_run_inv: "(queue_step pg ul float_ok)\<^sup>*\<^sup>* s s' \<Longrightarrow> sys_inv s \<Longrightarrow> sys_inv s'"
  by (induction rule: rtranclp_induct) (auto intro: queue_step_inv)

text \<open>Row by row: a step of the system is at most one step of the life cycle.\<close>

lemma queue_step_row:
  assumes "queue_step pg ul float_ok s s'" and "sys_inv s" and "r \<in> set (jobs_in s)"
  shows "\<exists>r' \<in> set (jobs_in s'). r' = r \<or> (\<exists>ev. row_step (qs_now s) r ev r')"
proof -
  have "evolves (qs_now s) (jobs_in s) (jobs_in s')"
    using queue_step_rel[OF assms(1)] assms(2) by (simp add: job_rel_def sys_inv_def)
  then show ?thesis using assms(3) by (rule evolves_row)
qed

section \<open>Claim tokens\<close>

text \<open>A token appears in a row only by the claim that generated it.\<close>

definition token_rel :: "string set \<Rightarrow> job_row list \<Rightarrow> job_row list \<Rightarrow> bool" where
  "token_rel T rows rows' = (\<forall>r' \<in> set rows'. \<forall>k. jr_claim_token r' = Some k \<longrightarrow>
     k \<in> T \<or> (\<exists>r \<in> set rows. jr_id r = jr_id r' \<and> jr_claim_token r = Some k))"

lemma token_rel_refl [simp]: "reflp (token_rel T)"
  by (rule reflpI) (auto simp: token_rel_def)

lemma token_rel_map:
  assumes "\<And>r. r \<in> set rows \<Longrightarrow> jr_id (g r) = jr_id r
      \<and> (jr_claim_token (g r) = jr_claim_token r \<or> jr_claim_token (g r) = None
         \<or> (\<exists>k \<in> T. jr_claim_token (g r) = Some k))"
  shows "token_rel T rows (map g rows)"
  unfolding token_rel_def using assms by fastforce

lemma token_rel_update:
  assumes "update_jobs p f t = Inr (n, t')"
    and "\<And>r. jr_id (f r) = jr_id r \<and> (jr_claim_token (f r) = jr_claim_token r \<or> jr_claim_token (f r) = None)"
  shows "token_rel T (t_jobs t) (t_jobs t')"
proof -
  have "t_jobs t' = map (\<lambda>r. if p r then f r else r) (t_jobs t)"
    using update_jobs_Inr[OF assms(1)] by (simp add: upd_where_def)
  moreover have "token_rel T (t_jobs t) (map (\<lambda>r. if p r then f r else r) (t_jobs t))"
    by (rule token_rel_map) (use assms(2) in \<open>simp split: if_split, blast\<close>)
  ultimately show ?thesis by simp
qed

lemma token_rel_eq: "rows = rows' \<Longrightarrow> token_rel T rows rows'"
  by (auto simp: token_rel_def)

lemma enqueue_tokens: "preserves (token_rel T) (q_enqueue (sql_queue pg c token d newid s) input)"
proof -
  have "preserves (token_rel T) (store_enqueue pg j)" for j
    unfolding store_enqueue_def
  proof (rule preserves_stmt[OF token_rel_refl])
    fix t a t' assume "(case new_job_row pg j of None \<Rightarrow> Inl cast_failure | Some r \<Rightarrow> insert_job r t) = Inr (a, t')"
    then show "token_rel T (t_jobs t) (t_jobs t')"
      by (auto simp: new_job_row_def insert_job_def token_rel_def split: option.splits if_splits)
  qed
  then show ?thesis
    by (auto simp: q_enqueue_def queue_defs split: sum.split intro!: preserves_bindp inv_intros)
qed

lemma claim_stmt_updates:
  assumes "claim_stmt c now lease token t = Inr (res, t')"
  shows "\<exists>p p'. t_jobs t' = upd_where p (claim_row now lease token) (upd_where p' (expire_row now) (t_jobs t))"
proof -
  let ?ids = "map jr_id (expired_candidates c now (t_jobs t))"
  obtain n1 t1 u t2 where 1: "update_jobs (\<lambda>r. jr_id r \<in> set ?ids) (expire_row now) t = Inr (n1, t1)"
    and 2: "insert_expired_logs now ?ids t1 = Inr (u, t2)"
    and 3: "(case next_claim c now (t_jobs t) of None \<Rightarrow> Inr (None, t2)
         | Some n \<Rightarrow> rbind (update_jobs (\<lambda>r. jr_id r = jr_id n) (claim_row now lease token) t2)
             (\<lambda>(_, t3). Inr (Some (claim_row now lease token n), t3))) = Inr (res, t')"
    using assms by (auto simp: claim_stmt_def Let_def rbind_eq_Inr)
  have t2: "t_jobs t2 = upd_where (\<lambda>r. jr_id r \<in> set ?ids) (expire_row now) (t_jobs t)"
    using update_jobs_Inr[OF 1] insert_expired_logs_jobs[OF 2] by auto
  show ?thesis
  proof (cases "next_claim c now (t_jobs t)")
    case None
    then have "t_jobs t' = upd_where (\<lambda>_. False) (claim_row now lease token) (t_jobs t2)"
      using 3 by (simp add: upd_where_none)
    then show ?thesis using t2 by metis
  next
    case (Some n)
    then obtain k where "update_jobs (\<lambda>r. jr_id r = jr_id n) (claim_row now lease token) t2 = Inr (k, t')"
      using 3 by (auto simp: rbind_eq_Inr)
    then show ?thesis using update_jobs_Inr t2 by fastforce
  qed
qed

lemma claim_tokens: "preserves (token_rel {token}) (q_claim_one (sql_queue pg c token d newid s))"
proof -
  have "preserves (token_rel {token}) (store_claim_one c token now lease)" for now lease
    unfolding store_claim_one_def
  proof (rule preserves_bindp)
    show "preserves (token_rel {token}) (stmt (claim_stmt c now lease token))"
    proof (rule preserves_stmt[OF token_rel_refl])
      fix t a t' assume "claim_stmt c now lease token t = Inr (a, t')"
      then obtain p p' where "t_jobs t' = upd_where p (claim_row now lease token) (upd_where p' (expire_row now) (t_jobs t))"
        using claim_stmt_updates by blast
      then show "token_rel {token} (t_jobs t) (t_jobs t')"
        by (simp add: upd_where_def) (rule token_rel_map, simp add: claim_row_def expire_row_def)
    qed
  qed (auto intro!: inv_intros split: option.split)
  then show ?thesis by (simp add: q_claim_one_def queue_defs)
qed

lemma finish_tokens:
  "preserves (token_rel T) (q_succeed ul float_ok (sql_queue pg c token d newid s) j r)"
  "preserves (token_rel T) (q_fail ul (sql_queue pg c token d newid s) j f)"
proof -
  have 1: "preserves (token_rel T) (stmt (with_claim pg j (\<lambda>i token t.
      case null_cast (jsonb_in pg) (rs_data res) of None \<Rightarrow> Inl cast_failure
      | Some data \<Rightarrow> update_jobs (owns i token) (succeed_row (rs_code res) data finished) t)))" for res finished
    by (rule preserves_stmt[OF token_rel_refl])
      (auto dest!: with_claim_Inr split: option.splits elim!: token_rel_update simp: succeed_row_def)
  have 2: "preserves (token_rel T) (stmt (with_claim pg j (\<lambda>i token.
      update_jobs (owns i token) (fail_row final retryable ra up fin))))" for final retryable ra up fin
    by (rule preserves_stmt[OF token_rel_refl])
      (auto dest!: with_claim_Inr elim!: token_rel_update simp: fail_row_def)
  have "preserves (token_rel T) (store_mark_succeeded pg j finished res)" for finished res
    unfolding store_mark_succeeded_def
    by (intro preserves_tx token_rel_refl preserves_bindp[OF 1]) (auto intro!: inv_intros)
  moreover have "preserves (token_rel T) (store_mark_failed pg j final retryable ra up fin msg)"
    for final retryable ra up fin msg
    unfolding store_mark_failed_def
    by (intro preserves_tx token_rel_refl preserves_bindp[OF 2]) (auto intro!: inv_intros)
  ultimately show
    "preserves (token_rel T) (q_succeed ul float_ok (sql_queue pg c token d newid s) j r)"
    "preserves (token_rel T) (q_fail ul (sql_queue pg c token d newid s) j f)"
    by (auto simp: q_succeed_def q_fail_def Let_def queue_defs intro!: inv_intros split: sum.split)
qed

lemma preserves_query_bindp:
  assumes "reflp R" and "\<And>a. preserves R (f a)"
  shows "preserves R (bindp (query q) f)"
  unfolding preserves_def
proof
  fix w
  obtain r w1 where q: "query q w = (r, w1)" by fastforce
  then have "w_tables w1 = w_tables w" using query_tables by (metis snd_conv)
  then show "R (jobs_of w) (jobs_of (snd (bindp (query q) f w)))"
    using assms q by (cases r) (auto simp: bindp_def preserves_def reflpD, metis)
qed

lemma mutate_tokens: "preserves (token_rel T) (store_mutate pg now newid i m from_status target action)"
proof -
  have 1: "preserves (token_rel T) (stmt (update_jobs p (mutate_row target now)))" for p
    by (rule preserves_stmt[OF token_rel_refl]) (auto elim!: token_rel_update simp: mutate_row_def)
  let ?after = "\<lambda>_. bindp (audit_record (audit_write pg) now newid (mutation_event m action i)) (\<lambda>_. retp (Commit ()))"
  have 2: "preserves (token_rel T) (bindp (stmt (update_jobs p (mutate_row target now))) ?after)" for p
    by (rule preserves_bindp[OF 1]) (auto intro!: inv_intros)
  show ?thesis unfolding store_mutate_def using 2
    by (auto intro!: preserves_tx preserves_query_bindp inv_intros split: option.split)
qed

lemma queue_step_tokens:
  assumes "queue_step pg ul float_ok s s'"
  shows "\<exists>T. T \<inter> qs_tokens s = {} \<and> qs_tokens s' = qs_tokens s \<union> T
    \<and> token_rel T (jobs_in s) (jobs_in s')"
  using assms
proof cases
  case (claim q c token d newid)
  then show ?thesis using claim_tokens
    by (intro exI[of _ "{token}"]) (auto simp: jobs_in_def preserves_def)
qed (use enqueue_tokens[where T="{}"] finish_tokens[where T="{}"] mutate_tokens[where T="{}"] token_rel_eq
     in \<open>auto simp: jobs_in_def preserves_def store_retry_def store_cancel_def intro!: exI[of _ "{}"]\<close>)

definition tokens_known :: "queue_sys \<Rightarrow> bool" where
  "tokens_known s = (\<forall>r \<in> set (jobs_in s). \<forall>k. jr_claim_token r = Some k \<longrightarrow> k \<in> qs_tokens s)"

lemma queue_run_lost:
  assumes "(queue_step pg ul float_ok)\<^sup>*\<^sup>* s s'" and "k \<in> qs_tokens s"
    and "\<And>r. r \<in> set (jobs_in s) \<Longrightarrow> \<not> owns i k r"
    and "sys_inv s"
  shows "k \<in> qs_tokens s' \<and> sys_inv s' \<and> (\<forall>r \<in> set (jobs_in s'). \<not> owns i k r)"
  using assms(1)
proof (induction rule: rtranclp_induct)
  case base
  then show ?case using assms by blast
next
  case (step s1 s2)
  obtain T where T: "T \<inter> qs_tokens s1 = {}" "qs_tokens s2 = qs_tokens s1 \<union> T"
    and rel: "token_rel T (jobs_in s1) (jobs_in s2)"
    using queue_step_tokens[OF step.hyps(2)] by blast
  have inv: "sys_inv s2" using queue_step_inv[OF step.hyps(2)] step.IH by blast
  have "\<not> owns i k r2" if r2: "r2 \<in> set (jobs_in s2)" for r2
  proof
    assume o: "owns i k r2"
    then obtain r1 where r1: "r1 \<in> set (jobs_in s1)" "jr_id r1 = i" "jr_claim_token r1 = Some k"
      using rel r2 T(1) step.IH unfolding token_rel_def owns_def by blast
    then have "job_checks r1" using step.IH by (simp add: sys_inv_def jobs_inv_def)
    then have "owns i k r1" using r1 by (auto simp: owns_def job_checks_def)
    then show False using step.IH r1(1) by blast
  qed
  then show ?case using T inv step.IH by blast
qed

lemma tokens_known_step: "queue_step pg ul float_ok s s' \<Longrightarrow> tokens_known s \<Longrightarrow> tokens_known s'"
  using queue_step_tokens[of pg ul float_ok s s'] unfolding tokens_known_def token_rel_def by blast

section \<open>What a worker without its claim can do\<close>

lemma update_jobs_miss:
  "(\<And>r. r \<in> set (t_jobs t) \<Longrightarrow> \<not> p r) \<Longrightarrow> update_jobs p f t = Inr (0, t)"
  by (simp add: update_jobs_def Let_def upd_where_none filter_empty_conv)

lemma tx_not_committed:
  assumes "\<And>w1 a w2. w_tables w1 = w_tables w \<Longrightarrow> body w1 \<noteq> (Inr a, w2)"
  shows "\<not> is_ok (fst (tx body w)) \<and> w_tables (snd (tx body w)) = w_tables w"
proof -
  obtain r w' where t: "tx body w = (r, w')" by fastforce
  have "w_tables w' = w_tables w" using tx_tables[of body w] t assms by auto
  moreover have "\<not> is_ok r" using tx_Inr[of body w _ w'] t assms by (cases r) auto
  ultimately show ?thesis using t by simp
qed

lemma stmt_count_zero:
  assumes "\<And>n t'. f (w_tables w) = Inr (n, t') \<Longrightarrow> n = 0"
  shows "bindp (stmt f) (\<lambda>n. bindp (requireUpdatedRow n) g) w \<noteq> (Inr a, w2)"
proof
  assume "bindp (stmt f) (\<lambda>n. bindp (requireUpdatedRow n) g) w = (Inr a, w2)"
  then obtain n w1 where st: "stmt f w = (Inr n, w1)" and b: "bindp (requireUpdatedRow n) g w1 = (Inr a, w2)"
    by (auto simp: bindp_Inr)
  obtain t' where "f (w_tables w) = Inr (n, t')" using stmt_Inr[OF st] by blast
  then have "n = 0" by (rule assms)
  with b show False by (simp add: requireUpdatedRow_def bindp_def failp_def)
qed

lemma mark_fenced:
  assumes "uuid_in pg (j_id j) = Some i" and "uuid_in pg (j_claim_token j) = Some k"
    and "\<And>r. r \<in> set (jobs_of w) \<Longrightarrow> \<not> owns i k r"
  shows "\<not> is_ok (fst (store_mark_succeeded pg j at res w))
      \<and> w_tables (snd (store_mark_succeeded pg j at res w)) = w_tables w" (is ?S)
    and "\<not> is_ok (fst (store_mark_failed pg j final ret ra up fin msg w))
      \<and> w_tables (snd (store_mark_failed pg j final ret ra up fin msg w)) = w_tables w" (is ?F)
proof -
  have miss: "update_jobs (owns i k) f (w_tables w) = Inr (0, w_tables w)" for f
    using assms(3) by (rule update_jobs_miss)
  show ?S unfolding store_mark_succeeded_def
  proof (rule tx_not_committed, rule stmt_count_zero)
    fix w1 n t' assume "w_tables w1 = w_tables w" "with_claim pg j (\<lambda>i token t.
        case null_cast (jsonb_in pg) (rs_data res) of None \<Rightarrow> Inl cast_failure
        | Some data \<Rightarrow> update_jobs (owns i token) (succeed_row (rs_code res) data at) t) (w_tables w1) = Inr (n, t')"
    then show "n = 0" by (simp add: with_claim_def assms(1,2) miss split: option.splits)
  qed
  show ?F unfolding store_mark_failed_def
  proof (rule tx_not_committed, rule stmt_count_zero)
    fix w1 n t' assume "w_tables w1 = w_tables w"
      "with_claim pg j (\<lambda>i token. update_jobs (owns i token) (fail_row final ret ra up fin)) (w_tables w1) = Inr (n, t')"
    then show "n = 0" by (simp add: with_claim_def assms(1,2) miss)
  qed
qed

end
