(* ===== verification/JobBudget.thy ===== *)
theory JobBudget
  imports JobQueue
begin

text \<open>
  How often a job can be handed out. A run of the queue is recorded: every call of
  \<open>ClaimOne\<close> that returns a job leaves an event with the job's id, and so does every retry
  that changed the database. The attempts of the rows bound the number of these events.
\<close>

section \<open>Recorded runs\<close>

datatype job_event = Claimed string | Retried string

definition claim_record :: "err + job \<Rightarrow> job_event list" where
  "claim_record res = (case res of Inl _ \<Rightarrow> [] | Inr j \<Rightarrow> [Claimed (j_id j)])"

definition retry_record :: "pg \<Rightarrow> string \<Rightarrow> world \<Rightarrow> world \<Rightarrow> job_event list" where
  "retry_record pg i w w' =
     (if w_tables w' = w_tables w then [] else [Retried (the (uuid_in pg i))])"

text \<open>The steps of \<open>queue_step\<close>, each with what it records.\<close>

inductive recorded_step ::
  "pg \<Rightarrow> (rune \<Rightarrow> rune) \<Rightarrow> (string \<Rightarrow> bool) \<Rightarrow> queue_sys \<Rightarrow> job_event list \<Rightarrow> queue_sys \<Rightarrow> bool"
  for pg ul float_ok where
  clock: "qs_now s \<le> t \<Longrightarrow> recorded_step pg ul float_ok s [] (s\<lparr>qs_now := t\<rparr>)"
| network: "recorded_step pg ul float_ok s [] (s\<lparr>qs_world := (qs_world s)\<lparr>w_replies := rs\<rparr>\<rparr>)"
| enqueue: "q = sql_queue pg c token d newid s \<Longrightarrow> q_enqueue q input (qs_world s) = (res, w') \<Longrightarrow>
    recorded_step pg ul float_ok s [] (s\<lparr>qs_world := w'\<rparr>)"
| claim: "q = sql_queue pg c token d newid s \<Longrightarrow> token \<notin> qs_tokens s \<Longrightarrow>
    q_claim_one q (qs_world s) = (res, w') \<Longrightarrow>
    recorded_step pg ul float_ok s (claim_record res)
      (s\<lparr>qs_world := w', qs_tokens := insert token (qs_tokens s)\<rparr>)"
| succeed: "q = sql_queue pg c token d newid s \<Longrightarrow>
    q_succeed ul float_ok q j out (qs_world s) = (res', w') \<Longrightarrow>
    recorded_step pg ul float_ok s [] (s\<lparr>qs_world := w'\<rparr>)"
| fail: "q = sql_queue pg c token d newid s \<Longrightarrow> q_fail ul q j f (qs_world s) = (res', w') \<Longrightarrow>
    recorded_step pg ul float_ok s [] (s\<lparr>qs_world := w'\<rparr>)"
| retry: "store_retry pg (qs_now s) newid i m (qs_world s) = (res', w') \<Longrightarrow>
    recorded_step pg ul float_ok s (retry_record pg i (qs_world s) w') (s\<lparr>qs_world := w'\<rparr>)"
| cancel: "store_cancel pg (qs_now s) newid i m (qs_world s) = (res', w') \<Longrightarrow>
    recorded_step pg ul float_ok s [] (s\<lparr>qs_world := w'\<rparr>)"

inductive recorded_run ::
  "pg \<Rightarrow> (rune \<Rightarrow> rune) \<Rightarrow> (string \<Rightarrow> bool) \<Rightarrow> queue_sys \<Rightarrow> job_event list \<Rightarrow> queue_sys \<Rightarrow> bool"
  for pg ul float_ok s where
  start: "recorded_run pg ul float_ok s [] s"
| step: "recorded_run pg ul float_ok s evs s1 \<Longrightarrow> recorded_step pg ul float_ok s1 es s2 \<Longrightarrow>
    recorded_run pg ul float_ok s (evs @ es) s2"

text \<open>Recording adds and hides nothing: the recorded runs are the runs of the queue.\<close>

lemma recorded_step_queue: "recorded_step pg ul float_ok s es s' \<Longrightarrow> queue_step pg ul float_ok s s'"
proof (induction rule: recorded_step.induct)
  case (enqueue q c token d newid s input res w')
  then show ?case using queue_step.enqueue[OF enqueue(1), of ul float_ok input] by simp
next
  case (claim q c token d newid s res w')
  then show ?case using queue_step.claim[OF claim(1,2), of ul float_ok] by simp
next
  case (succeed q c token d newid s j out res' w')
  then show ?case using queue_step.succeed[OF succeed(1), of ul float_ok j out] by simp
next
  case (fail q c token d newid s j f res' w')
  then show ?case using queue_step.fail[OF fail(1), of ul float_ok j f] by simp
next
  case (retry s newid i m res' w')
  then show ?case using queue_step.retry[of pg ul float_ok s newid i m] by simp
next
  case (cancel s newid i m res' w')
  then show ?case using queue_step.cancel[of pg ul float_ok s newid i m] by simp
qed (rule queue_step.clock, assumption, rule queue_step.network)

lemma queue_step_recorded: "queue_step pg ul float_ok s s' \<Longrightarrow> \<exists>es. recorded_step pg ul float_ok s es s'"
proof (induction rule: queue_step.induct)
  case (enqueue q c token d newid s input)
  then show ?case using recorded_step.enqueue prod.collapse by metis
next
  case (claim q c token d newid s)
  then show ?case using recorded_step.claim prod.collapse by metis
next
  case (succeed q c token d newid s j res)
  then show ?case using recorded_step.succeed prod.collapse by metis
next
  case (fail q c token d newid s j f)
  then show ?case using recorded_step.fail prod.collapse by metis
next
  case (retry s newid i m)
  then show ?case using recorded_step.retry prod.collapse by metis
next
  case (cancel s newid i m)
  then show ?case using recorded_step.cancel prod.collapse by metis
qed (blast intro: recorded_step.clock recorded_step.network)+

lemma recorded_run_queue: "recorded_run pg ul float_ok s evs s' \<Longrightarrow> (queue_step pg ul float_ok)\<^sup>*\<^sup>* s s'"
  by (induction rule: recorded_run.induct) (auto dest: recorded_step_queue intro: rtranclp.rtrancl_into_rtrancl)

lemma queue_run_recorded: "(queue_step pg ul float_ok)\<^sup>*\<^sup>* s s' \<Longrightarrow> \<exists>evs. recorded_run pg ul float_ok s evs s'"
  by (induction rule: rtranclp_induct) (blast intro: recorded_run.intros dest: queue_step_recorded)+

section \<open>Attempts only grow\<close>

text \<open>Rows stay, keep their limit, and spend attempts; only the ids in \<open>X\<close> may get some back.\<close>

definition spends :: "string set \<Rightarrow> job_row list \<Rightarrow> job_row list \<Rightarrow> bool" where
  "spends X rows rows' = (jr_id ` set rows \<subseteq> jr_id ` set rows'
     \<and> (\<forall>r' \<in> set rows'. jr_id r' \<in> jr_id ` set rows \<longrightarrow> (\<exists>r \<in> set rows. jr_id r = jr_id r'
          \<and> jr_max_attempts r = jr_max_attempts r' \<and> (jr_id r \<in> X \<or> jr_attempts r \<le> jr_attempts r'))))"

lemma spends_refl [simp]: "reflp (spends X)"
  by (rule reflpI) (auto simp: spends_def)

lemma spends_trans:
  assumes "spends X a b" and "spends X b c"
  shows "spends X a c"
  unfolding spends_def
proof (intro conjI ballI impI)
  show "jr_id ` set a \<subseteq> jr_id ` set c"
    using assms unfolding spends_def by (elim conjE) (rule subset_trans)
next
  fix z assume z: "z \<in> set c" "jr_id z \<in> jr_id ` set a"
  then have "jr_id z \<in> jr_id ` set b" using assms(1) by (auto simp: spends_def)
  then obtain y where y: "y \<in> set b" "jr_id y = jr_id z" "jr_max_attempts y = jr_max_attempts z"
      "jr_id y \<in> X \<or> jr_attempts y \<le> jr_attempts z"
    using assms(2) z(1) unfolding spends_def by blast
  then have "jr_id y \<in> jr_id ` set a" using z(2) by simp
  then obtain x where "x \<in> set a" "jr_id x = jr_id y" "jr_max_attempts x = jr_max_attempts y"
      "jr_id x \<in> X \<or> jr_attempts x \<le> jr_attempts y"
    using assms(1) y(1) unfolding spends_def by blast
  then show "\<exists>x \<in> set a. jr_id x = jr_id z \<and> jr_max_attempts x = jr_max_attempts z
      \<and> (jr_id x \<in> X \<or> jr_attempts x \<le> jr_attempts z)"
    using y by (intro bexI[of _ x]) auto
qed

lemma spends_upd_where:
  assumes "\<And>r. p r \<Longrightarrow> jr_id (f r) = jr_id r \<and> jr_max_attempts (f r) = jr_max_attempts r
      \<and> (jr_id r \<in> X \<or> jr_attempts r \<le> jr_attempts (f r))"
  shows "spends X rows (upd_where p f rows)"
proof -
  have e: "jr_id (if p r then f r else r) = jr_id r \<and> jr_max_attempts (if p r then f r else r) = jr_max_attempts r
      \<and> (jr_id r \<in> X \<or> jr_attempts r \<le> jr_attempts (if p r then f r else r))" for r
    using assms[of r] by simp
  have "jr_id ` set rows \<subseteq> jr_id ` set (upd_where p f rows)"
    unfolding upd_where_def set_map image_image using e by (simp add: image_iff)
  moreover have "\<exists>r \<in> set rows. jr_id r = jr_id r' \<and> jr_max_attempts r = jr_max_attempts r'
      \<and> (jr_id r \<in> X \<or> jr_attempts r \<le> jr_attempts r')" if r': "r' \<in> set (upd_where p f rows)" for r'
  proof -
    obtain r where "r \<in> set rows" "r' = (if p r then f r else r)" using r' by (auto simp: upd_where_def)
    then show ?thesis using e[of r] by (intro bexI[of _ r]) simp_all
  qed
  ultimately show ?thesis unfolding spends_def by blast
qed

lemma spends_update:
  assumes "update_jobs p f t = Inr (n, t')"
    and "\<And>r. p r \<Longrightarrow> jr_id (f r) = jr_id r \<and> jr_max_attempts (f r) = jr_max_attempts r
      \<and> (jr_id r \<in> X \<or> jr_attempts r \<le> jr_attempts (f r))"
  shows "spends X (t_jobs t) (t_jobs t')"
  using update_jobs_Inr[OF assms(1)] spends_upd_where[of p f X, OF assms(2)] by simp

lemma enqueue_spends: "preserves (spends X) (q_enqueue (sql_queue pg c token d newid s) input)"
proof -
  have "preserves (spends X) (store_enqueue pg j)" for j
    unfolding store_enqueue_def
  proof (rule preserves_stmt[OF spends_refl])
    fix t a t' assume "(case new_job_row pg j of None \<Rightarrow> Inl cast_failure | Some r \<Rightarrow> insert_job r t) = Inr (a, t')"
    then show "spends X (t_jobs t) (t_jobs t')"
      by (auto simp: insert_job_def spends_def split: option.splits if_splits)
  qed
  then show ?thesis
    by (auto simp: q_enqueue_def queue_defs split: sum.split intro!: preserves_bindp inv_intros)
qed

lemma claim_spends: "preserves (spends X) (q_claim_one (sql_queue pg c token d newid s))"
proof -
  have "preserves (spends X) (store_claim_one c token now lease)" for now lease
    unfolding store_claim_one_def
  proof (rule preserves_bindp)
    show "preserves (spends X) (stmt (claim_stmt c now lease token))"
    proof (rule preserves_stmt[OF spends_refl])
      fix t a t' assume "claim_stmt c now lease token t = Inr (a, t')"
      then obtain p p' where "t_jobs t' = upd_where p (claim_row now lease token) (upd_where p' (expire_row now) (t_jobs t))"
        using claim_stmt_updates by blast
      moreover have "spends X rows (upd_where p (claim_row now lease token) rows)"
        "spends X rows (upd_where p' (expire_row now) rows)" for rows
        by (rule spends_upd_where; simp add: claim_row_def expire_row_def)+
      ultimately show "spends X (t_jobs t) (t_jobs t')" using spends_trans by metis
    qed
  qed (auto intro!: inv_intros split: option.split)
  then show ?thesis by (simp add: q_claim_one_def queue_defs)
qed

lemma finish_spends:
  "preserves (spends X) (q_succeed ul float_ok (sql_queue pg c token d newid s) j r)"
  "preserves (spends X) (q_fail ul (sql_queue pg c token d newid s) j f)"
proof -
  have 1: "preserves (spends X) (stmt (with_claim pg j (\<lambda>i token t.
      case null_cast (jsonb_in pg) (rs_data res) of None \<Rightarrow> Inl cast_failure
      | Some data \<Rightarrow> update_jobs (owns i token) (succeed_row (rs_code res) data finished) t)))" for res finished
    by (rule preserves_stmt[OF spends_refl])
      (auto dest!: with_claim_Inr split: option.splits elim!: spends_update simp: succeed_row_def)
  have 2: "preserves (spends X) (stmt (with_claim pg j (\<lambda>i token.
      update_jobs (owns i token) (fail_row final retryable ra up fin))))" for final retryable ra up fin
    by (rule preserves_stmt[OF spends_refl])
      (auto dest!: with_claim_Inr elim!: spends_update simp: fail_row_def)
  have "preserves (spends X) (store_mark_succeeded pg j finished res)" for finished res
    unfolding store_mark_succeeded_def
    by (intro preserves_tx spends_refl preserves_bindp[OF 1]) (auto intro!: inv_intros)
  moreover have "preserves (spends X) (store_mark_failed pg j final retryable ra up fin msg)"
    for final retryable ra up fin msg
    unfolding store_mark_failed_def
    by (intro preserves_tx spends_refl preserves_bindp[OF 2]) (auto intro!: inv_intros)
  ultimately show
    "preserves (spends X) (q_succeed ul float_ok (sql_queue pg c token d newid s) j r)"
    "preserves (spends X) (q_fail ul (sql_queue pg c token d newid s) j f)"
    by (auto simp: q_succeed_def q_fail_def Let_def queue_defs intro!: inv_intros split: sum.split)
qed

lemma mutate_spends:
  assumes "target = Queued \<Longrightarrow> the (uuid_in pg i) \<in> X"
  shows "preserves (spends X) (store_mutate pg now newid i m from_status target action)"
proof -
  have 1: "preserves (spends X) (stmt (update_jobs (\<lambda>s. jr_id s = the (uuid_in pg i)) (mutate_row target now)))"
    by (rule preserves_stmt[OF spends_refl]) (use assms in \<open>auto elim!: spends_update simp: mutate_row_def split: if_splits\<close>)
  let ?after = "\<lambda>_. bindp (audit_record (audit_write pg) now newid (mutation_event m action i)) (\<lambda>_. retp (Commit ()))"
  have 2: "preserves (spends X) (bindp (stmt (update_jobs (\<lambda>s. jr_id s = the (uuid_in pg i)) (mutate_row target now))) ?after)"
    by (rule preserves_bindp[OF 1]) (auto intro!: inv_intros)
  show ?thesis unfolding store_mutate_def using 2
    by (auto intro!: preserves_tx preserves_query_bindp inv_intros split: option.split)
qed

text \<open>A claim that returns a job spends an attempt of that job.\<close>

lemma claim_returned:
  assumes "q_claim_one (sql_queue pg c token d newid s) w = (Inr j, w')" and "jobs_inv (jobs_of w)"
  obtains n now lease where "n \<in> set (jobs_of w)" "j_id j = jr_id n" "next_claim c now (jobs_of w) = Some n"
    "jobs_of w' = map (claim_effect c now lease token (jobs_of w)) (jobs_of w)"
proof -
  let ?now = "qs_now s" and ?lease = "qs_now s + (if d > 0 then d else defaultLeaseDuration)"
  have "store_claim_one c token ?now ?lease w = (Inr j, w')"
    using assms(1) by (cases "d > 0") (simp_all add: q_claim_one_def queue_defs)
  then obtain row where s: "stmt (claim_stmt c ?now ?lease token) w = (Inr (Some row), w')" and j: "j = scanJob row"
    by (auto simp: store_claim_one_def bindp_Inr failp_def retp_def split: option.splits)
  obtain t where t: "claim_stmt c ?now ?lease token (w_tables w) = Inr (Some row, t)" "w_tables w' = t"
    using stmt_Inr[OF s] by blast
  have "distinct (map jr_id (jobs_of w))" using assms(2) by (simp add: jobs_inv_def)
  note e = claim_stmt_Inr[OF t(1) this]
  then obtain n where n: "next_claim c ?now (jobs_of w) = Some n" "row = claim_row ?now ?lease token n"
    by (cases "next_claim c ?now (jobs_of w)") auto
  have "n \<in> set (jobs_of w)" using next_candidate_Some[OF next_claim_Some[OF n(1)]] by simp
  moreover have "j_id j = jr_id n" using n(2) j by (simp add: scanJob_def claim_row_def)
  moreover have "jobs_of w' = map (claim_effect c ?now ?lease token (jobs_of w)) (jobs_of w)" using e t(2) by blast
  ultimately show thesis using that n(1) by blast
qed

lemma claim_spends_one:
  assumes "q_claim_one (sql_queue pg c token d newid s) w = (Inr j, w')" and "jobs_inv (jobs_of w)"
    and "r' \<in> set (jobs_of w')" and "jr_id r' = j_id j"
  shows "\<exists>r \<in> set (jobs_of w). jr_id r = jr_id r' \<and> jr_max_attempts r = jr_max_attempts r'
    \<and> jr_attempts r' = jr_attempts r + 1"
proof -
  have d: "distinct (map jr_id (jobs_of w))" using assms(2) by (simp add: jobs_inv_def)
  obtain n now lease where n: "n \<in> set (jobs_of w)" "j_id j = jr_id n" "next_claim c now (jobs_of w) = Some n"
    and e: "jobs_of w' = map (claim_effect c now lease token (jobs_of w)) (jobs_of w)"
    by (rule claim_returned[OF assms(1,2)]) (rule that; assumption)
  obtain r where r: "r \<in> set (jobs_of w)" "r' = claim_effect c now lease token (jobs_of w) r"
    using e assms(3) by auto
  have "jr_id r' = jr_id r" using r(2) by (simp add: claim_effect_def expire_row_def claim_row_def)
  then have "jr_id r = jr_id n" using assms(4) n(2) by metis
  then have "r = n" by (rule distinct_map_inj_on[OF d r(1) n(1)])
  then have "r' = claim_row now lease token r"
    using r(2) n(3) next_not_expired[OF d n(3)] by (simp add: claim_effect_def)
  then show ?thesis using r(1) by (intro bexI[of _ r]) (simp_all add: claim_row_def)
qed

lemma claimed_present:
  assumes "q_claim_one (sql_queue pg c token d newid s) w = (Inr j, w')" and "jobs_inv (jobs_of w)"
  shows "j_id j \<in> jr_id ` set (jobs_of w)"
  by (rule claim_returned[OF assms]) (simp only: image_eqI)

section \<open>The budget\<close>

text \<open>What the events and the rows say of each other: the claims recorded for a job and the attempts
  it has left are covered by its limit, once for the job and once for every retry.\<close>

definition in_budget :: "job_event list \<Rightarrow> job_row list \<Rightarrow> bool" where
  "in_budget evs rows = ((\<forall>r \<in> set rows. int (count_list evs (Claimed (jr_id r))) + budget r
        \<le> jr_max_attempts r * (1 + int (count_list evs (Retried (jr_id r)))))
     \<and> (\<forall>i. Claimed i \<in> set evs \<longrightarrow> i \<in> jr_id ` set rows))"

lemma in_budget_step:
  assumes "in_budget evs rows" and "jobs_inv rows'" and "spends X rows rows'"
    and "\<And>i. Claimed i \<in> set es \<Longrightarrow> i \<in> jr_id ` set rows"
    and "\<And>r'. r' \<in> set rows' \<Longrightarrow> jr_id r' \<in> jr_id ` set rows \<Longrightarrow>
      \<exists>r \<in> set rows. jr_id r = jr_id r' \<and> jr_max_attempts r = jr_max_attempts r'
        \<and> int (count_list es (Claimed (jr_id r'))) + budget r'
            \<le> budget r + jr_max_attempts r' * int (count_list es (Retried (jr_id r')))"
  shows "in_budget (evs @ es) rows'"
  unfolding in_budget_def
proof (intro conjI ballI allI impI)
  fix r' assume r': "r' \<in> set rows'"
  then have "job_checks r'" using assms(2) by (simp add: jobs_inv_def)
  then have ck: "0 \<le> jr_attempts r'" "0 \<le> jr_max_attempts r'" by (auto simp: job_checks_def)
  show "int (count_list (evs @ es) (Claimed (jr_id r'))) + budget r'
      \<le> jr_max_attempts r' * (1 + int (count_list (evs @ es) (Retried (jr_id r'))))"
  proof (cases "jr_id r' \<in> jr_id ` set rows")
    case True
    then obtain r where r: "r \<in> set rows" "jr_id r = jr_id r'" "jr_max_attempts r = jr_max_attempts r'"
        "int (count_list es (Claimed (jr_id r'))) + budget r'
          \<le> budget r + jr_max_attempts r' * int (count_list es (Retried (jr_id r')))"
      using assms(5)[OF r'] by blast
    then have "int (count_list evs (Claimed (jr_id r'))) + budget r
        \<le> jr_max_attempts r' * (1 + int (count_list evs (Retried (jr_id r'))))"
      using assms(1) unfolding in_budget_def by metis
    then show ?thesis using r(4) by (simp add: algebra_simps)
  next
    case False
    then have "Claimed (jr_id r') \<notin> set evs" "Claimed (jr_id r') \<notin> set es"
      using assms(1,4) unfolding in_budget_def by blast+
    then have "count_list (evs @ es) (Claimed (jr_id r')) = 0" by (simp add: count_list_0_iff)
    moreover have "0 \<le> jr_max_attempts r' * int n" for n using ck(2) by simp
    ultimately show ?thesis using ck by (simp add: budget_def algebra_simps add_increasing)
  qed
next
  fix i assume "Claimed i \<in> set (evs @ es)"
  then have "i \<in> jr_id ` set rows" using assms(1,4) by (auto simp: in_budget_def)
  then show "i \<in> jr_id ` set rows'" using assms(3) by (auto simp: spends_def)
qed

lemma preserves_at: "preserves R p \<Longrightarrow> p w = (res, w') \<Longrightarrow> R (jobs_of w) (jobs_of w')"
  unfolding preserves_def by (metis snd_conv)

lemma in_budget_quiet:
  assumes "in_budget evs rows" and "jobs_inv rows'" and "spends {} rows rows'"
  shows "in_budget evs rows'"
  using in_budget_step[OF assms, of "[]"] assms(3) unfolding spends_def budget_def by fastforce

lemma recorded_step_budget:
  assumes "recorded_step pg ul float_ok s es s'" and "sys_inv s" and "in_budget evs (jobs_in s)"
  shows "in_budget (evs @ es) (jobs_in s')"
proof -
  have inv': "jobs_inv (jobs_in s')"
    using queue_step_inv[OF recorded_step_queue[OF assms(1)] assms(2)] by (simp add: sys_inv_def)
  have inv: "jobs_inv (jobs_in s)" using assms(2) by (simp add: sys_inv_def)
  have quiet: "in_budget evs (jobs_in s')" if "spends {} (jobs_in s) (jobs_in s')"
    by (rule in_budget_quiet[OF assms(3) inv' that])
  from assms(1) show ?thesis
  proof cases
    case (claim q c token d newid res w')
    have sp: "spends {} (jobs_in s) (jobs_in s')"
      using preserves_at[OF claim_spends claim(5)[unfolded claim(3)]] claim(2) by (simp add: jobs_in_def)
    show ?thesis
    proof (cases res)
      case (Inl e)
      then show ?thesis using quiet[OF sp] claim(1) by (simp add: claim_record_def)
    next
      case (Inr j)
      have c: "q_claim_one (sql_queue pg c token d newid s) (qs_world s) = (Inr j, w')"
        and s': "jobs_in s' = jobs_of w'" and es: "es = [Claimed (j_id j)]"
        using claim Inr by (simp_all add: jobs_in_def claim_record_def)
      show ?thesis
      proof (rule in_budget_step[OF assms(3) inv' sp])
        fix i assume "Claimed i \<in> set es"
        then show "i \<in> jr_id ` set (jobs_in s)"
          using claimed_present[OF c] inv es by (simp add: jobs_in_def)
      next
        fix r' assume r': "r' \<in> set (jobs_in s')" "jr_id r' \<in> jr_id ` set (jobs_in s)"
        show "\<exists>r \<in> set (jobs_in s). jr_id r = jr_id r' \<and> jr_max_attempts r = jr_max_attempts r'
            \<and> int (count_list es (Claimed (jr_id r'))) + budget r'
              \<le> budget r + jr_max_attempts r' * int (count_list es (Retried (jr_id r')))"
        proof (cases "jr_id r' = j_id j")
          case True
          then show ?thesis
            using claim_spends_one[OF c _ _ True] r'(1) inv es s' by (fastforce simp: jobs_in_def budget_def)
        next
          case False
          then show ?thesis using sp r' es unfolding spends_def budget_def by fastforce
        qed
      qed
    qed
  next
    case (retry newid i m res' w')
    let ?X = "{the (uuid_in pg i)}"
    have "preserves (spends ?X) (store_retry pg (qs_now s) newid i m)"
      unfolding store_retry_def by (rule mutate_spends) simp
    then have sp: "spends ?X (jobs_in s) (jobs_in s')"
      using preserves_at[of "spends ?X" "store_retry pg (qs_now s) newid i m" "qs_world s" res' w'] retry(2,3) by (simp add: jobs_in_def)
    show ?thesis
    proof (cases "w_tables w' = w_tables (qs_world s)")
      case True
      then have "jobs_in s' = jobs_in s" using retry(2) by (simp add: jobs_in_def)
      then show ?thesis using assms(3) retry(1) True by (simp add: retry_record_def)
    next
      case False
      then have es: "es = [Retried (the (uuid_in pg i))]" using retry(1) by (simp add: retry_record_def)
      show ?thesis
      proof (rule in_budget_step[OF assms(3) inv' sp])
        fix r' assume r': "r' \<in> set (jobs_in s')" "jr_id r' \<in> jr_id ` set (jobs_in s)"
        then obtain r where r: "r \<in> set (jobs_in s)" "jr_id r = jr_id r'" "jr_max_attempts r = jr_max_attempts r'"
            "jr_id r \<in> ?X \<or> jr_attempts r \<le> jr_attempts r'"
          using sp unfolding spends_def by blast
        have "job_checks r" "job_checks r'" using r(1) r'(1) inv inv' by (auto simp: jobs_inv_def)
        then have "0 \<le> budget r" "0 \<le> jr_attempts r'" by (auto simp: job_checks_def budget_def)
        then show "\<exists>r \<in> set (jobs_in s). jr_id r = jr_id r' \<and> jr_max_attempts r = jr_max_attempts r'
            \<and> int (count_list es (Claimed (jr_id r'))) + budget r'
              \<le> budget r + jr_max_attempts r' * int (count_list es (Retried (jr_id r')))"
          using r es by (intro bexI[of _ r]) (auto simp: budget_def)
      qed (use es in simp)
    qed
  next
    case (enqueue q c token d newid input res w')
    then show ?thesis using quiet preserves_at[OF enqueue_spends[of "{}"]] by (simp add: jobs_in_def)
  next
    case (succeed q c token d newid j out res' w')
    then show ?thesis using quiet preserves_at[OF finish_spends(1)[of "{}"]] by (simp add: jobs_in_def)
  next
    case (fail q c token d newid j f res' w')
    then show ?thesis using quiet preserves_at[OF finish_spends(2)[of "{}"]] by (simp add: jobs_in_def)
  next
    case (cancel newid i m res' w')
    then show ?thesis using quiet preserves_at[OF mutate_spends[of Cancelled pg i "{}"]]
      by (simp add: jobs_in_def store_cancel_def)
  qed (use assms(3) in \<open>simp_all add: jobs_in_def\<close>)
qed

lemma recorded_run_budget:
  assumes "recorded_run pg ul float_ok s evs s'" and "sys_inv s"
  shows "sys_inv s' \<and> in_budget evs (jobs_in s')"
  using assms(1)
proof (induction rule: recorded_run.induct)
  case start
  have "budget r \<le> jr_max_attempts r" if "r \<in> set (jobs_in s)" for r
    using that assms(2) by (auto simp: sys_inv_def jobs_inv_def job_checks_def budget_def)
  then show ?case using assms(2) by (simp add: in_budget_def)
next
  case (step evs s1 es s2)
  then show ?case using recorded_step_budget queue_step_inv recorded_step_queue by blast
qed

end
