(* ===== verification/JobProps.thy ===== *)
theory JobProps
  imports JobBudget
begin

text \<open>
  The properties of the job queue: exclusive resource keys, the life cycle, the budget of
  attempts, fencing of stale workers, which job a claim takes and when it finds one.
\<close>

section \<open>Data of the witnesses\<close>

definition plain_pg :: pg where
  "plain_pg = \<lparr>uuid_in = Some, jsonb_in = Some, inet_in = Some\<rparr>"

definition free :: contention where
  "free = \<lparr>ct_row_locked = (\<lambda>_. False), ct_key_granted = (\<lambda>_. True)\<rparr>"

definition queued_row :: "string \<Rightarrow> job_row" where
  "queued_row i = \<lparr>jr_id = i, jr_type = ''site.create'', jr_status = Queued,
     jr_resource_key = ''site:1'', jr_idempotency_key = i, jr_payload = [CHR 0x7B, CHR 0x7D],
     jr_attempts = 0, jr_max_attempts = 2, jr_retryable = True, jr_claim_token = None,
     jr_run_after = 5, jr_lease_expires_at = None, jr_started_at = None, jr_finished_at = None,
     jr_result_code = None, jr_result = None, jr_created_at = 5, jr_updated_at = 5\<rparr>"

definition two_jobs :: world where
  "two_jobs = \<lparr>w_tables = empty_tables\<lparr>t_jobs := [queued_row ''a'', queued_row ''b'']\<rparr>, w_replies = []\<rparr>"

definition two_jobs_sys :: queue_sys where
  "two_jobs_sys = \<lparr>qs_now = 10, qs_world = two_jobs, qs_tokens = {}\<rparr>"

lemmas demo_defs = plain_pg_def free_def queued_row_def two_jobs_def two_jobs_sys_def empty_tables_def

lemma two_jobs_inv: "sys_inv two_jobs_sys" "tokens_known two_jobs_sys"
  by (auto simp: demo_defs sys_inv_def jobs_in_def jobs_inv_def job_checks_def exclusive_def
      active_def tokens_known_def)

lemmas claim_eval = q_claim_one_def sql_queue_def NewQueue_def WithLeaseDuration_def
  sql_job_store_def store_claim_one_def bindp_def stmt_def take_reply_def claim_stmt_def Let_def
  expired_candidates_def exhausted_def lease_over_def lease_live_def next_claim_def
  next_candidate_def eligible_def claimable_def key_busy_def update_jobs_def claim_row_def
  job_checks_def retp_def failp_def defaultLeaseDuration_def

lemma two_jobs_claim:
  "jobs_of (snd (q_claim_one (sql_queue plain_pg free ''t'' 0 (Inr ''x'') two_jobs_sys) two_jobs))
     = [claim_row 10 (10 + minutes 10) ''t'' (queued_row ''a''), queued_row ''b'']"
  by (simp add: demo_defs claim_eval del: set_filter)

lemma claim_takes_earliest_demo:
  "\<exists>j w1. q_claim_one (sql_queue plain_pg free ''t'' 0 (Inr ''x'') two_jobs_sys) two_jobs = (Inr j, w1)"
  by (simp add: demo_defs claim_eval del: set_filter)

definition after_claim :: queue_sys where
  "after_claim = two_jobs_sys\<lparr>qs_world :=
     snd (q_claim_one (sql_queue plain_pg free ''t'' 0 (Inr ''x'') two_jobs_sys) two_jobs),
     qs_tokens := {''t''}\<rparr>"

lemma after_claim_step: "queue_step plain_pg id (\<lambda>_. True) two_jobs_sys after_claim"
proof -
  have "queue_step plain_pg id (\<lambda>_. True) two_jobs_sys
     (two_jobs_sys\<lparr>qs_world := snd (q_claim_one (sql_queue plain_pg free ''t'' 0 (Inr ''x'') two_jobs_sys)
        (qs_world two_jobs_sys)), qs_tokens := insert ''t'' (qs_tokens two_jobs_sys)\<rparr>)"
    by (rule queue_step.claim[OF refl]) (simp add: two_jobs_sys_def)
  then show ?thesis by (simp add: after_claim_def two_jobs_sys_def)
qed

lemma after_claim_run: "(queue_step plain_pg id (\<lambda>_. True))\<^sup>*\<^sup>* two_jobs_sys after_claim"
  using after_claim_step by (rule r_into_rtranclp)

lemma after_claim_jobs:
  "jobs_in after_claim = [claim_row 10 (10 + minutes 10) ''t'' (queued_row ''a''), queued_row ''b'']"
  "qs_now after_claim = 10" "qs_tokens after_claim = {''t''}"
  by (simp_all add: after_claim_def jobs_in_def two_jobs_claim) (simp add: two_jobs_sys_def)

text \<open>The record of that run.\<close>

lemma two_jobs_claimed:
  "fst (q_claim_one (sql_queue plain_pg free ''t'' 0 (Inr ''x'') two_jobs_sys) two_jobs)
     = Inr (scanJob (claim_row 10 (10 + minutes 10) ''t'' (queued_row ''a'')))"
  by (simp add: demo_defs claim_eval del: set_filter)

lemma after_claim_recorded: "recorded_run plain_pg id (\<lambda>_. True) two_jobs_sys [Claimed ''a''] after_claim"
proof -
  let ?Q = "sql_queue plain_pg free ''t'' 0 (Inr ''x'') two_jobs_sys"
  have "q_claim_one ?Q (qs_world two_jobs_sys) =
      (Inr (scanJob (claim_row 10 (10 + minutes 10) ''t'' (queued_row ''a''))), snd (q_claim_one ?Q two_jobs))"
    using two_jobs_claimed by (simp add: two_jobs_sys_def prod_eq_iff)
  from recorded_step.claim[OF refl _ this, of id "\<lambda>_. True"]
  have "recorded_step plain_pg id (\<lambda>_. True) two_jobs_sys [Claimed ''a''] after_claim"
    by (simp add: claim_record_def scanJob_def claim_row_def after_claim_def) (simp add: two_jobs_sys_def queued_row_def)
  then show ?thesis using recorded_run.step[OF recorded_run.start] by fastforce
qed

section \<open>Safety over every run\<close>

text \<open>C1. In every run whose SQL statements are executed one after another, each on what those
  before it wrote: at any point, whatever operations ran, whatever the database replied and
  whatever rows and keys other transactions had locked, two jobs with the same non-empty resource
  key are never both running under a live lease. (Claims that overlap, reading the table before
  either wrote it, are outside the claim, and for them it fails: see below.)\<close>

theorem resource_key_exclusive:
  assumes "(queue_step pg ul float_ok)\<^sup>*\<^sup>* s s'"
    and "jobs_inv (jobs_in s)" and "exclusive (qs_now s) (jobs_in s)"
    and "r1 \<in> set (jobs_in s')" and "r2 \<in> set (jobs_in s')"
    and "active (qs_now s') r1" and "active (qs_now s') r2"
    and "jr_resource_key r1 = jr_resource_key r2" and "jr_resource_key r1 \<noteq> []"
  shows "r1 = r2"
proof -
  have "sys_inv s'" using queue_run_inv[OF assms(1)] assms(2,3) by (simp add: sys_inv_def)
  then have d: "distinct (map jr_id (jobs_in s'))" and e: "exclusive (qs_now s') (jobs_in s')"
    by (simp_all add: sys_inv_def jobs_inv_def)
  have "jr_id r1 = jr_id r2" using e assms(4-9) unfolding exclusive_def by blast
  then show ?thesis by (rule distinct_map_inj_on[OF d assms(4,5)])
qed

theorem resource_key_exclusive_witness:
  "active 10 (hd (jobs_in after_claim)) \<and> jr_resource_key (hd (jobs_in after_claim)) = ''site:1''
   \<and> hd (jobs_in after_claim) = claim_row 10 (10 + minutes 10) ''t'' (queued_row ''a'')"
proof -
  let ?r = "claim_row 10 (10 + minutes 10) ''t'' (queued_row ''a'')"
  have r: "active 10 ?r" "jr_resource_key ?r = ''site:1''" "hd (jobs_in after_claim) \<in> set (jobs_in after_claim)"
    "?r \<in> set (jobs_in after_claim)" "active 10 (hd (jobs_in after_claim))"
    "jr_resource_key (hd (jobs_in after_claim)) = ''site:1''"
    by (simp_all add: after_claim_jobs active_def claim_row_def queued_row_def lease_live_def)
  have "hd (jobs_in after_claim) = ?r"
    by (rule resource_key_exclusive[OF after_claim_run])
      (use r two_jobs_inv in \<open>auto simp: sys_inv_def after_claim_jobs(2)\<close>)
  then show ?thesis using r by simp
qed

text \<open>The proviso is needed. Of two claims that read the table before either wrote it, the second
  passes over the row the first has locked and takes another one with the same key: the busy test
  reads the old rows, and the advisory lock is granted once the first transaction is over.\<close>

lemma overlapping_claims_share_key:
  "next_claim free 10 (t_jobs (w_tables two_jobs)) = Some (queued_row ''a'')
   \<and> next_claim (free\<lparr>ct_row_locked := (\<lambda>i. i = ''a'')\<rparr>) 10 (t_jobs (w_tables two_jobs)) = Some (queued_row ''b'')
   \<and> jr_resource_key (queued_row ''a'') = jr_resource_key (queued_row ''b'') \<and> jr_resource_key (queued_row ''a'') \<noteq> []"
  by (simp add: demo_defs claim_eval del: set_filter)

text \<open>C6. Every step of the queue moves every row by at most one step of the life cycle and
  never deletes it: a row keeps its identity, type, resource key, idempotency key, payload,
  attempt limit and creation time, and its status changes only along the allowed edges
  (queued to running or cancelled, running to running, succeeded, failed or queued, failed to
  queued); succeeded and cancelled jobs never change at all.\<close>

theorem queue_refines_lifecycle:
  assumes "queue_step pg ul float_ok s s'" and "sys_inv s" and "r \<in> set (jobs_in s)"
  shows "\<exists>r' \<in> set (jobs_in s'). r' = r \<or>
    ((\<exists>ev. (jr_status r, ev, jr_status r') \<in> allowed) \<and> jr_status r \<notin> {Succeeded, Cancelled}
     \<and> jr_id r' = jr_id r \<and> jr_type r' = jr_type r \<and> jr_resource_key r' = jr_resource_key r
     \<and> jr_idempotency_key r' = jr_idempotency_key r \<and> jr_payload r' = jr_payload r
     \<and> jr_max_attempts r' = jr_max_attempts r \<and> jr_created_at r' = jr_created_at r)"
proof -
  obtain r' where r': "r' \<in> set (jobs_in s')" "r' = r \<or> (\<exists>ev. row_step (qs_now s) r ev r')"
    using queue_step_row[OF assms] by blast
  then show ?thesis
    using row_step_allowed row_step_frame row_step_terminal by (intro bexI[OF _ r'(1)]) metis
qed

theorem queue_refines_lifecycle_witness:
  "\<exists>r' \<in> set (jobs_in after_claim). (Queued, jr_status r') = (Queued, Running) \<and> jr_id r' = ''a''
     \<and> jr_payload r' = jr_payload (queued_row ''a'') \<and> jr_max_attempts r' = 2"
proof -
  have q: "queued_row ''a'' \<in> set (jobs_in two_jobs_sys)"
    by (simp add: two_jobs_sys_def two_jobs_def jobs_in_def)
  have n: "queued_row ''a'' \<notin> set (jobs_in after_claim)" "r \<in> set (jobs_in after_claim) \<Longrightarrow> jr_id r = ''a'' \<Longrightarrow> jr_status r = Running" for r
    by (auto simp: after_claim_jobs claim_row_def queued_row_def)
  obtain r' where "r' \<in> set (jobs_in after_claim)" "r' = queued_row ''a'' \<or> jr_id r' = jr_id (queued_row ''a'')
      \<and> jr_payload r' = jr_payload (queued_row ''a'') \<and> jr_max_attempts r' = jr_max_attempts (queued_row ''a'')"
    using queue_refines_lifecycle[OF after_claim_step two_jobs_inv(1) q] by blast
  then show ?thesis using n by (intro bexI[of _ r']) (auto simp: queued_row_def)
qed

text \<open>C8. The number of times a job is handed out is bounded over every run: the calls of
  \<open>ClaimOne\<close> in the run that returned the job, together with the attempts the job still has
  left, are at most \<open>max_attempts\<close> times one plus the number of retries of that job in the run;
  the attempt counter never exceeds the limit, and the limit is at most 25. (Every run of the queue
  is a recorded run, and the record is that of its calls.)\<close>

theorem claims_bounded:
  assumes "recorded_run pg ul float_ok s evs s'" and "sys_inv s" and "r \<in> set (jobs_in s')"
  shows "int (count_list evs (Claimed (jr_id r))) + (jr_max_attempts r - jr_attempts r)
      \<le> jr_max_attempts r * (1 + int (count_list evs (Retried (jr_id r))))
    \<and> jr_attempts r \<le> jr_max_attempts r \<and> jr_max_attempts r \<le> 25"
proof -
  have i: "sys_inv s'" and b: "in_budget evs (jobs_in s')"
    using recorded_run_budget[OF assms(1,2)] by blast+
  have "job_checks r" using i assms(3) by (simp add: sys_inv_def jobs_inv_def)
  then have "jr_attempts r \<le> jr_max_attempts r" "jr_max_attempts r \<le> 25" by (auto simp: job_checks_def)
  moreover have "int (count_list evs (Claimed (jr_id r))) + budget r
      \<le> jr_max_attempts r * (1 + int (count_list evs (Retried (jr_id r))))"
    using b assms(3) unfolding in_budget_def by blast
  ultimately show ?thesis by (simp add: budget_def)
qed

theorem claims_bounded_witness:
  "recorded_run plain_pg id (\<lambda>_. True) two_jobs_sys [Claimed ''a''] after_claim
   \<and> map jr_attempts (jobs_in after_claim) = [1, 0]
   \<and> int (count_list [Claimed ''a''] (Claimed ''a'')) + (2 - 1)
       \<le> 2 * (1 + int (count_list [Claimed ''a''] (Retried ''a'')))"
proof -
  let ?r = "claim_row 10 (10 + minutes 10) ''t'' (queued_row ''a'')"
  have r: "?r \<in> set (jobs_in after_claim)" "jr_id ?r = ''a''" "jr_max_attempts ?r = 2" "jr_attempts ?r = 1"
    by (simp_all add: after_claim_jobs claim_row_def queued_row_def)
  have "map jr_attempts (jobs_in after_claim) = [1, 0]"
    by (simp add: after_claim_jobs claim_row_def queued_row_def)
  then show ?thesis
    using claims_bounded[OF after_claim_recorded two_jobs_inv(1) r(1)] after_claim_recorded
    unfolding r(2-4) by blast
qed

text \<open>C2. Fencing: once the row of a job no longer carries the token of a claim (the lease ran
  out and the job was claimed again, expired, retried or finished), a worker that still holds
  that claim can never again change anything: in every later state of the queue its
  \<open>Succeed\<close> and its \<open>Fail\<close> report an error and leave the database as it is.\<close>

theorem stale_worker_fenced:
  assumes "(queue_step pg ul float_ok)\<^sup>*\<^sup>* s s'" and "sys_inv s"
    and "uuid_in pg (j_id j) = Some i" and "uuid_in pg (j_claim_token j) = Some k"
    and "k \<in> qs_tokens s" and "\<forall>r \<in> set (jobs_in s). \<not> owns i k r"
  shows "(let (res, w) = q_succeed ul float_ok (sql_queue pg c token d newid s') j out (qs_world s') in
           \<not> is_ok res \<and> w_tables w = w_tables (qs_world s'))
    \<and> (let (res, w) = q_fail ul (sql_queue pg c token d newid s') j f (qs_world s') in
           \<not> is_ok res \<and> w_tables w = w_tables (qs_world s'))"
proof -
  have "\<And>r. r \<in> set (jobs_of (qs_world s')) \<Longrightarrow> \<not> owns i k r"
    using queue_run_lost[OF assms(1,5)] assms(2,6) by (auto simp: jobs_in_def)
  note m = mark_fenced[OF assms(3,4) this]
  show ?thesis
    using m by (auto simp: q_succeed_def q_fail_def Let_def queue_defs failp_def split_beta split: sum.split)
qed

definition reclaimed :: queue_sys where
  "reclaimed = \<lparr>qs_now = 50, qs_world = \<lparr>w_tables =
     empty_tables\<lparr>t_jobs := [claim_row 40 90 ''t2'' (claim_row 10 20 ''t1'' (queued_row ''a''))]\<rparr>, w_replies = []\<rparr>,
     qs_tokens = {''t1'', ''t2''}\<rparr>"

definition stale_job :: job where
  "stale_job = scanJob (claim_row 10 20 ''t1'' (queued_row ''a''))"

theorem stale_worker_fenced_witness:
  "w_tables (snd (q_fail id (sql_queue plain_pg free ''t3'' 0 (Inr ''x'') reclaimed) stale_job
      \<lparr>fi_message = ''late'', fi_backoff = 1, fi_permanent = True\<rparr> (qs_world reclaimed)))
   = w_tables (qs_world reclaimed)"
  using stale_worker_fenced[OF rtranclp.rtrancl_refl[of "queue_step plain_pg id (\<lambda>_. True)" reclaimed],
      where j = stale_job and i = "''a''" and k = "''t1''" and c = free and token = "''t3''" and d = 0
        and newid = "Inr ''x''" and f = "\<lparr>fi_message = ''late'', fi_backoff = 1, fi_permanent = True\<rparr>"]
  by (simp add: reclaimed_def stale_job_def scanJob_def claim_row_def queued_row_def sys_inv_def
      jobs_in_def jobs_inv_def job_checks_def exclusive_def owns_def plain_pg_def empty_tables_def split_beta)

section \<open>What a claim returns\<close>

lemma insert_expired_logs_total:
  "set is \<subseteq> jr_id ` set (t_jobs t) \<Longrightarrow> \<exists>t'. insert_expired_logs now is t = Inr ((), t')"
proof (induction "is" arbitrary: t)
  case Nil
  then show ?case by simp
next
  case (Cons i "is")
  have "log_checks \<lparr>jl_id = n, jl_job_id = i, jl_level = ''error'', jl_message = expiry_message,
      jl_created_at = now\<rparr>" for n
    by (simp add: log_checks_def log_levels_def expiry_message_def runes_ascii)
  then obtain t1 where t1: "insert_job_log i ''error'' expiry_message now t = Inr ((), t1)"
    using Cons.prems by (auto simp: insert_job_log_def Let_def)
  then have "set is \<subseteq> jr_id ` set (t_jobs t1)"
    using Cons.prems insert_job_log_jobs[OF t1] by simp
  then show ?case using Cons.IH t1 by auto
qed

lemma update_jobs_hit:
  "(\<And>r. r \<in> set (t_jobs t) \<Longrightarrow> p r \<Longrightarrow> job_checks (f r)) \<Longrightarrow>
     update_jobs p f t = Inr (length (filter p (t_jobs t)), t\<lparr>t_jobs := upd_where p f (t_jobs t)\<rparr>)"
  by (simp add: update_jobs_def Let_def)

lemma expire_checks: "job_checks r \<Longrightarrow> job_checks (expire_row now r)"
  by (auto simp: job_checks_def expire_row_def)

lemma claim_checks: "job_checks r \<Longrightarrow> claimable now r \<Longrightarrow> job_checks (claim_row now lease token r)"
  by (auto simp: job_checks_def claim_row_def claimable_def)

text \<open>No constraint of the table can stop a claim.\<close>

lemma claim_stmt_total:
  assumes i: "jobs_inv (t_jobs t)"
  shows "\<exists>res t'. claim_stmt c now lease token t = Inr (res, t')"
proof -
  let ?ids = "map jr_id (expired_candidates c now (t_jobs t))"
  have d: "distinct (map jr_id (t_jobs t))" and ck: "\<And>r. r \<in> set (t_jobs t) \<Longrightarrow> job_checks r"
    using i by (auto simp: jobs_inv_def)
  obtain n1 t1 where 1: "update_jobs (\<lambda>r. jr_id r \<in> set ?ids) (expire_row now) t = Inr (n1, t1)"
    by (rule that, rule update_jobs_hit, rule expire_checks, rule ck)
  have t1: "t_jobs t1 = upd_where (\<lambda>r. jr_id r \<in> set ?ids) (expire_row now) (t_jobs t)"
    using update_jobs_Inr[OF 1] by simp
  have "map jr_id (t_jobs t1) = map jr_id (t_jobs t)"
    unfolding t1 by (rule map_upd_where_same) (simp add: expire_row_def)
  then have "jr_id ` set (t_jobs t1) = jr_id ` set (t_jobs t)" by (metis set_map)
  then have "set ?ids \<subseteq> jr_id ` set (t_jobs t1)" using expired_sub by force
  then obtain t2 where 2: "insert_expired_logs now ?ids t1 = Inr ((), t2)"
    using insert_expired_logs_total by blast
  have t2: "t_jobs t2 = t_jobs t1" using insert_expired_logs_jobs[OF 2] .
  show ?thesis
  proof (cases "next_claim c now (t_jobs t)")
    case None
    then show ?thesis using 1 2 by (simp add: claim_stmt_def Let_def)
  next
    case (Some n)
    have n: "n \<in> set (t_jobs t)" "claimable now n"
      using next_candidate_Some[OF next_claim_Some[OF Some]] by (auto simp: eligible_def)
    have eq: "r = n" if "r \<in> set (t_jobs t2)" "jr_id r = jr_id n" for r
      using that next_not_expired[OF d Some] n(1) distinct_map_inj_on[OF d]
      unfolding t2 t1 by (elim in_upd_whereE) (auto simp: expire_row_def)
    have "job_checks (claim_row now lease token r)" if "r \<in> set (t_jobs t2)" "jr_id r = jr_id n" for r
      unfolding eq[OF that] by (rule claim_checks[OF ck[OF n(1)] n(2)])
    then obtain n3 t3 where "update_jobs (\<lambda>r. jr_id r = jr_id n) (claim_row now lease token) t2 = Inr (n3, t3)"
      by (rule that[OF update_jobs_hit])
    then show ?thesis using 1 2 Some by (simp add: claim_stmt_def Let_def)
  qed
qed

lemma stmt_all_done:
  assumes "all_done w" and "f (w_tables w) = Inr (a, t')"
  shows "\<exists>w'. stmt f w = (Inr a, w') \<and> w_tables w' = t' \<and> all_done w'"
proof -
  obtain r w1 where "take_reply w = (r, w1)" by fastforce
  then show ?thesis using assms take_reply_all_done take_reply_tables by (fastforce simp: stmt_def)
qed

lemma claim_one_effect:
  assumes "all_done w" and "jobs_inv (jobs_of w)" and "now = qs_now s" and "rows = jobs_of w"
    and "lease = now + (if d > 0 then d else defaultLeaseDuration)"
  shows "let (res, w') = q_claim_one (sql_queue pg c token d newid s) w in
    res = (case next_claim c now rows of None \<Rightarrow> Inl ErrNoJob
           | Some r \<Rightarrow> Inr (scanJob (claim_row now lease token r)))
    \<and> w_tables w' = (w_tables w)\<lparr>t_jobs := map (claim_effect c now lease token rows) rows,
         t_job_logs := t_job_logs (w_tables w')\<rparr>
    \<and> map log_entry (t_job_logs (w_tables w')) = map log_entry (t_job_logs (w_tables w))
        @ map (\<lambda>i. (i, ''error'', expiry_message, now)) (map jr_id (expired_candidates c now rows))"
proof -
  obtain res t' where c: "claim_stmt c now lease token (w_tables w) = Inr (res, t')"
    using claim_stmt_total[OF assms(2)] by blast
  obtain w' where w': "stmt (claim_stmt c now lease token) w = (Inr res, w')" "w_tables w' = t'"
    using stmt_all_done[of w "claim_stmt c now lease token", OF assms(1) c] by blast
  have "distinct (map jr_id (t_jobs (w_tables w)))" using assms(2) by (simp add: jobs_inv_def)
  note e = claim_stmt_Inr[OF c this] claim_stmt_logs[OF c]
  have q: "q_claim_one (sql_queue pg c token d newid s) w = store_claim_one c token now lease w"
    using assms(3,5) by (auto simp: q_claim_one_def queue_defs)
  have t: "t' = (w_tables w)\<lparr>t_jobs := map (claim_effect c now lease token rows) rows, t_job_logs := t_job_logs t'\<rparr>"
    using e assms(4) by metis
  have r: "snd (store_claim_one c token now lease w) = w'"
    "fst (store_claim_one c token now lease w) = (case next_claim c now rows of None \<Rightarrow> Inl ErrNoJob
           | Some r \<Rightarrow> Inr (scanJob (claim_row now lease token r)))"
    using e(1) w' assms(4)
    by (auto simp: store_claim_one_def bindp_def failp_def retp_def split: option.split)
  show ?thesis unfolding q split_beta Let_def r w'(2) using t e(2) assms(4) by blast
qed

text \<open>C14. What \<open>ClaimOne\<close> does, exactly, on a working database whose table satisfies its
  constraints. No constraint can make it fail. The jobs that are over are those running under a
  lease that ran out with no attempt left, at most 100 of them and none that is locked: each becomes
  failed and retryable, gives up token and lease, and gets exactly one error log. The candidates are
  the jobs that are queued and due, or running under a lease that ran out, with an attempt left and
  no live job under their resource key, none of them locked; the first in the order of
  \<open>run_after\<close> and \<open>created_at\<close> is picked if its key can be locked. It is returned as it is
  stored: running, with one more attempt, the new token and lease, started now. Without it the
  answer is \<open>ErrNoJob\<close>. No other row, and no other table, changes.\<close>

theorem claim_one_exact:
  assumes "all_done w" and "jobs_inv (jobs_of w)" and "now = qs_now s" and "rows = jobs_of w"
    and "gone = map jr_id (take 100 (filter (\<lambda>r. \<not> ct_row_locked c (jr_id r)) (sort_key lease_key
      (filter (\<lambda>r. jr_status r = Running \<and> lease_over now r \<and> jr_attempts r \<ge> jr_max_attempts r) rows))))"
    and "due = filter (\<lambda>r. \<not> ct_row_locked c (jr_id r)) (sort_key (\<lambda>r. (jr_run_after r, jr_created_at r))
      (filter (\<lambda>r. (jr_status r = Queued \<and> jr_run_after r \<le> now \<or> jr_status r = Running \<and> lease_over now r)
         \<and> jr_attempts r < jr_max_attempts r
         \<and> (jr_resource_key r = [] \<or> \<not> (\<exists>x \<in> set rows. jr_status x = Running \<and> lease_live now x
              \<and> jr_resource_key x = jr_resource_key r \<and> jr_id x \<noteq> jr_id r))) rows))"
    and "picked = (case due of [] \<Rightarrow> None | r # _ \<Rightarrow>
      if jr_resource_key r = [] \<or> ct_key_granted c (jr_resource_key r) then Some r else None)"
    and "taken = (\<lambda>r. r\<lparr>jr_status := Running, jr_attempts := jr_attempts r + 1, jr_claim_token := Some token,
      jr_lease_expires_at := Some (now + (if d > 0 then d else minutes 10)),
      jr_started_at := Some now, jr_finished_at := None, jr_updated_at := now\<rparr>)"
  shows "let (res, w') = q_claim_one (sql_queue pg c token d newid s) w in
    res = (case picked of None \<Rightarrow> Inl ErrNoJob | Some r \<Rightarrow> Inr (scanJob (taken r)))
    \<and> w_tables w' = (w_tables w)\<lparr>t_jobs := map (\<lambda>r. if jr_id r \<in> set gone
             then r\<lparr>jr_status := Failed, jr_retryable := True, jr_claim_token := None,
               jr_lease_expires_at := None, jr_finished_at := Some now, jr_updated_at := now\<rparr>
             else if picked = Some r then taken r else r) rows,
         t_job_logs := t_job_logs (w_tables w')\<rparr>
    \<and> map log_entry (t_job_logs (w_tables w')) = map log_entry (t_job_logs (w_tables w))
        @ map (\<lambda>i. (i, ''error'', ''job lease expired after final attempt'', now)) gone"
proof -
  let ?lease = "now + (if d > 0 then d else minutes 10)"
  have "exhausted now = (\<lambda>r. jr_status r = Running \<and> lease_over now r \<and> jr_attempts r \<ge> jr_max_attempts r)"
    by (rule ext) (simp add: exhausted_def)
  then have gone: "map jr_id (expired_candidates c now rows) = gone"
    by (simp add: expired_candidates_def assms(5))
  have "eligible now rows = (\<lambda>r. (jr_status r = Queued \<and> jr_run_after r \<le> now \<or> jr_status r = Running \<and> lease_over now r)
         \<and> jr_attempts r < jr_max_attempts r
         \<and> (jr_resource_key r = [] \<or> \<not> (\<exists>x \<in> set rows. jr_status x = Running \<and> lease_live now x
              \<and> jr_resource_key x = jr_resource_key r \<and> jr_id x \<noteq> jr_id r)))"
    by (rule ext) (auto simp: eligible_def claimable_def key_busy_def)
  then have picked: "next_claim c now rows = picked"
    unfolding next_claim_def next_candidate_def assms(6,7) by (simp split: list.split)
  have taken: "claim_row now ?lease token r = taken r" for r by (simp add: claim_row_def assms(8))
  have g: "claim_effect c now ?lease token rows r = (if jr_id r \<in> set gone then expire_row now r
      else if picked = Some r then taken r else r)" if "r \<in> set rows" for r
  proof -
    have "distinct (map jr_id rows)" using assms(2,4) by (simp add: jobs_inv_def)
    then have "jr_id r = jr_id n \<longleftrightarrow> r = n" if "picked = Some n" for n
      using next_candidate_Some[OF next_claim_Some[of c now rows n]] that picked \<open>r \<in> set rows\<close>
        distinct_map_inj_on[of jr_id rows r n] by auto
    then show ?thesis unfolding claim_effect_def picked gone[symmetric] set_map taken[symmetric] by auto
  qed
  have m: "map (claim_effect c now ?lease token rows) rows = map (\<lambda>r. if jr_id r \<in> set gone then expire_row now r
      else if picked = Some r then taken r else r) rows"
    using g by simp
  have l: "?lease = now + (if d > 0 then d else defaultLeaseDuration)" by (simp add: defaultLeaseDuration_def)
  show ?thesis
    using claim_one_effect[OF assms(1-4) l, of pg c token newid]
    unfolding picked gone m taken expire_row_def expiry_message_def .
qed

definition overdue :: world where
  "overdue = \<lparr>w_tables = empty_tables\<lparr>t_jobs := [claim_row 1 2 ''o'' (claim_row 0 1 ''o'' (queued_row ''z'')),
     queued_row ''a'']\<rparr>, w_replies = []\<rparr>"

theorem claim_one_exact_witness:
  "\<exists>j w'. q_claim_one (sql_queue plain_pg free ''t'' 0 (Inr ''x'') two_jobs_sys) overdue = (Inr j, w')
     \<and> j_id j = ''a'' \<and> map jr_status (jobs_of w') = [Failed, Running] \<and> map jr_attempts (jobs_of w') = [2, 1]
     \<and> map log_entry (t_job_logs (w_tables w')) = [(''z'', ''error'', ''job lease expired after final attempt'', 10)]"
proof -
  let ?z = "claim_row 1 2 ''o'' (claim_row 0 1 ''o'' (queued_row ''z''))" and ?a = "queued_row ''a''"
  obtain res w' where q: "q_claim_one (sql_queue plain_pg free ''t'' 0 (Inr ''x'') two_jobs_sys) overdue = (res, w')"
    by fastforce
  have rows: "jobs_of overdue = [?z, ?a]" "t_job_logs (w_tables overdue) = []" "all_done overdue"
    by (simp_all add: overdue_def empty_tables_def all_done_def)
  have inv: "jobs_inv (jobs_of overdue)"
    by (simp add: rows jobs_inv_def job_checks_def claim_row_def queued_row_def)
  have ids: "jr_id ?z = ''z''" "jr_id ?a = ''a''" "?z \<noteq> ?a" by (auto simp: claim_row_def queued_row_def)
  have now: "qs_now two_jobs_sys = 10" by (simp add: two_jobs_sys_def)
  let ?lost = "\<lambda>r. jr_status r = Running \<and> lease_over 10 r \<and> jr_attempts r \<ge> jr_max_attempts r"
  let ?due = "\<lambda>r. (jr_status r = Queued \<and> jr_run_after r \<le> 10 \<or> jr_status r = Running \<and> lease_over 10 r)
    \<and> jr_attempts r < jr_max_attempts r \<and> (jr_resource_key r = [] \<or> \<not> (\<exists>x \<in> set [?z, ?a]. jr_status x = Running
       \<and> lease_live 10 x \<and> jr_resource_key x = jr_resource_key r \<and> jr_id x \<noteq> jr_id r))"
  have f: "filter ?lost [?z, ?a] = [?z]" "filter ?due [?z, ?a] = [?a]"
    by (simp_all add: claim_row_def queued_row_def lease_over_def lease_live_def)
  have u: "filter (\<lambda>r. \<not> ct_row_locked free (jr_id r)) xs = xs" for xs by (simp add: free_def)
  have gone: "[''z''] = map jr_id (take 100 (filter (\<lambda>r. \<not> ct_row_locked free (jr_id r)) (sort_key lease_key (filter ?lost [?z, ?a]))))"
    unfolding f u by (simp add: ids)
  have due: "[?a] = filter (\<lambda>r. \<not> ct_row_locked free (jr_id r)) (sort_key (\<lambda>r. (jr_run_after r, jr_created_at r)) (filter ?due [?z, ?a]))"
    unfolding f u by simp
  show ?thesis
    using claim_one_exact[OF rows(3) inv now[symmetric] rows(1)[symmetric] gone due refl refl,
        where pg = plain_pg and token = "''t''" and d = 0 and newid = "Inr ''x''"]
    unfolding q split_conv Let_def
    by (intro exI[of _ "scanJob (claim_row 10 (10 + minutes 10) ''t'' ?a)"] exI[of _ w'] conjI)
      (auto simp: free_def ids rows scanJob_def claim_row_def queued_row_def)
qed

text \<open>C18. No job starves by the code's own choice: when some job is eligible (due and with
  attempts left, or running under an expired lease with attempts left, and no live job holds its
  resource key) and no other transaction holds locks, \<open>ClaimOne\<close> returns a job, and it is
  one that is eligible and earliest in (\<open>run_after\<close>, \<open>created_at\<close>) among all eligible
  ones.\<close>

theorem claim_takes_earliest:
  assumes "all_done w" and "jobs_inv (jobs_of w)"
    and "r \<in> set (jobs_of w)" and "eligible (qs_now s) (jobs_of w) r"
    and "\<And>i. \<not> ct_row_locked c i" and "\<And>k. ct_key_granted c k"
  shows "\<exists>r0 lease. r0 \<in> set (jobs_of w) \<and> eligible (qs_now s) (jobs_of w) r0
    \<and> fst (q_claim_one (sql_queue pg c token d newid s) w)
        = Inr (scanJob (claim_row (qs_now s) lease token r0))
    \<and> claim_row (qs_now s) lease token r0
        \<in> set (jobs_of (snd (q_claim_one (sql_queue pg c token d newid s) w)))
    \<and> (\<forall>s' \<in> set (jobs_of w). eligible (qs_now s) (jobs_of w) s' \<longrightarrow>
         (jr_run_after r0, jr_created_at r0) \<le> (jr_run_after s', jr_created_at s'))"
proof -
  let ?now = "qs_now s" and ?rows = "jobs_of w"
  obtain lease where l: "lease = ?now + (if d > 0 then d else defaultLeaseDuration)" by blast
  obtain r0 where r0: "next_candidate c ?now ?rows = Some r0"
    using next_candidate_None[of c ?now ?rows] assms(3-5) by (cases "next_candidate c ?now ?rows") auto
  then have n: "next_claim c ?now ?rows = Some r0" using assms(6) by (simp add: next_claim_def)
  note p = next_candidate_Some[OF r0]
  have d: "distinct (map jr_id ?rows)" using assms(2) by (simp add: jobs_inv_def)
  have "claim_effect c ?now lease token ?rows r0 = claim_row ?now lease token r0"
    using next_not_expired[OF d n] n by (simp add: claim_effect_def)
  then have "claim_row ?now lease token r0 \<in> set (map (claim_effect c ?now lease token ?rows) ?rows)"
    using p by (metis image_eqI set_map)
  moreover obtain res w' where q: "q_claim_one (sql_queue pg c token d newid s) w = (res, w')" by fastforce
  have res: "res = Inr (scanJob (claim_row ?now lease token r0))"
    and t: "w_tables w' = (w_tables w)\<lparr>t_jobs := map (claim_effect c ?now lease token ?rows) ?rows,
         t_job_logs := t_job_logs (w_tables w')\<rparr>"
    using claim_one_effect[OF assms(1,2) refl refl l, of pg c token newid] n unfolding q by simp_all
  have "jobs_of w' = map (claim_effect c ?now lease token ?rows) ?rows" by (subst t) simp
  ultimately show ?thesis
    using q res p assms(5) by (intro exI[of _ r0] exI[of _ lease]) auto
qed

theorem claim_takes_earliest_witness:
  "\<exists>r0 lease. r0 \<in> set (jobs_of two_jobs)
     \<and> fst (q_claim_one (sql_queue plain_pg free ''t'' 0 (Inr ''x'') two_jobs_sys) two_jobs)
        = Inr (scanJob (claim_row 10 lease ''t'' r0))"
proof -
  have "eligible 10 (jobs_of two_jobs) (queued_row ''b'')" "queued_row ''b'' \<in> set (jobs_of two_jobs)"
    by (simp_all add: demo_defs claim_eval)
  then show ?thesis
    using claim_takes_earliest[of two_jobs "queued_row ''b''" two_jobs_sys free plain_pg "''t''" 0 "Inr ''x''"]
      two_jobs_inv(1)
    by (auto simp: two_jobs_sys_def sys_inv_def jobs_in_def free_def) (auto simp: two_jobs_def all_done_def)
qed

end
