(* ===== verification/JobOutcome.thy ===== *)
theory JobOutcome
  imports JobProps
begin

text \<open>
  What comes out of the queue's methods: the policy a result must pass before it is stored,
  the failure messages, and the exact effect of \<open>Enqueue\<close>, \<open>Succeed\<close>, \<open>Fail\<close>, \<open>Retry\<close>
  and \<open>Cancel\<close> on the tables.
\<close>

section \<open>Failure messages\<close>

lemma length_runes_le: "length (runes (of_runes rs)) = length rs"
  by (simp add: runes_of_runes)

lemma safe_message_short: "length (runes (safeFailureMessage ul e)) \<le> maxFailureRunes"
  by (simp add: safeFailureMessage_def Let_def length_runes_le)

lemma safe_message_clean: "\<not> marked (to_lower ul (safeFailureMessage ul e))"
proof
  assume "marked (to_lower ul (safeFailureMessage ul e))"
  then obtain m where m: "m \<in> set secret_markers" "contains (to_lower ul (safeFailureMessage ul e)) m"
    by (auto simp: marked_def)
  let ?t = "trim_space (redact ul (err_msg e))"
  have "contains (to_lower ul ?t) m"
    using m(2) to_lower_take[of ul maxFailureRunes ?t m]
    by (cases "length (runes ?t) > maxFailureRunes") (simp_all add: safeFailureMessage_def Let_def)
  then have "contains (to_lower ul (redact ul (err_msg e))) m" by (rule to_lower_trim)
  then have "marked (to_lower ul (redact ul (err_msg e)))" unfolding marked_def using m(1) by blast
  then show False using redact_clean by blast
qed

text \<open>C25. No failure message leaks a marked secret: what the worker records of any error
  (wrapped or joined, any bytes) has at most 1024 code points and contains, in any letter
  case, none of the words the redaction looks for; an error that mentions one of them anywhere is
  replaced as a whole.\<close>

theorem failure_message_redacted:
  "length (runes (safeFailureMessage ul e)) \<le> 1024
   \<and> (\<forall>m \<in> set secret_markers. \<not> contains (to_lower ul (safeFailureMessage ul e)) m)
   \<and> (map lower_byte word \<notin> set secret_markers \<or> err_msg e \<noteq> pre @ word @ post
      \<or> safeFailureMessage ul e = redacted)"
proof -
  have "safeFailureMessage ul e = redacted"
    if "map lower_byte word \<in> set secret_markers" "err_msg e = pre @ word @ post"
  proof -
    have "redact ul (err_msg e) = redacted"
      using marked_word[OF that(1), of ul pre post] that(2) by (simp add: redact_marked)
    moreover have "trim_space redacted = redacted"
      by (rule trim_space_plain) (simp_all add: redacted_def plain_def)
    moreover have "length (runes redacted) \<le> maxFailureRunes"
      by (simp add: runes_ascii ascii_def redacted_def maxFailureRunes_def)
    ultimately show ?thesis by (simp add: safeFailureMessage_def Let_def)
  qed
  then show ?thesis
    using safe_message_short[of ul e] safe_message_clean[of ul e] by (auto simp: maxFailureRunes_def marked_def)
qed

theorem failure_message_redacted_witness:
  "safeFailureMessage id (Plain ''dial: Password=x'') = redacted"
proof -
  have "map lower_byte ''Password'' \<in> set secret_markers"
    by (simp add: secret_markers_def lower_byte_def char_of_eq)
  moreover have "err_msg (Plain ''dial: Password=x'') = ''dial: '' @ ''Password'' @ ''=x''" by simp
  ultimately show ?thesis
    using failure_message_redacted[of id "Plain ''dial: Password=x''" "''Password''" "''dial: ''" "''=x''"] by blast
qed

section \<open>The result policy\<close>

text \<open>The keys of the objects a decoded value holds, at any depth.\<close>

inductive key_in :: "string \<Rightarrow> json \<Rightarrow> bool" where
  here: "(k, v) \<in> set (obj_map kvs) \<Longrightarrow> key_in k (JObj kvs)"
| inside: "(k, v) \<in> set (obj_map kvs) \<Longrightarrow> key_in k' v \<Longrightarrow> key_in k' (JObj kvs)"
| elem: "v \<in> set vs \<Longrightarrow> key_in k' v \<Longrightarrow> key_in k' (JArr vs)"

inductive_cases key_inE: "key_in k (JObj kvs)" "key_in k (JArr vs)" "key_in k JNull"
  "key_in k (JBool b)" "key_in k (JNum n)" "key_in k (JStr s)"

lemma sensitive_iff: "containsSensitiveResultKey ul v \<longleftrightarrow> (\<exists>k. key_in k v \<and> sensitive_key ul k)"
proof
  assume "containsSensitiveResultKey ul v"
  then show "\<exists>k. key_in k v \<and> sensitive_key ul k"
  proof (induction ul v rule: containsSensitiveResultKey.induct)
    case (1 ul kvs)
    then obtain k v where kv: "(k, v) \<in> set (obj_map kvs)"
      and "sensitive_key ul k \<or> containsSensitiveResultKey ul v" by auto
    then show ?case using "1.IH"[OF kv refl] key_in.here key_in.inside by blast
  next
    case (2 ul vs)
    then show ?case using key_in.elem by fastforce
  qed simp_all
next
  assume "\<exists>k. key_in k v \<and> sensitive_key ul k"
  then obtain k where "key_in k v" "sensitive_key ul k" by blast
  then show "containsSensitiveResultKey ul v"
    by (induction rule: key_in.induct) auto
qed

lemma norm_logs_Inr:
  "norm_logs ul ls = Inr ls' \<Longrightarrow> length ls' = length ls
     \<and> (\<forall>l \<in> set ls'. lg_level l \<in> set log_levels \<and> (\<exists>e. lg_message l = safeFailureMessage ul e))"
proof (induction ls arbitrary: ls')
  case Nil
  then show ?case by simp
next
  case (Cons l ls)
  then show ?case by (auto simp: Let_def rbind_eq_Inr split: if_splits) blast
qed

lemma norm_logs_total:
  "(\<forall>l \<in> set ls. norm_level ul (lg_level l) \<in> set log_levels) \<Longrightarrow> \<exists>ls'. norm_logs ul ls = Inr ls'"
  by (induction ls) (auto simp: Let_def)

lemma normalize_Inr:
  assumes "normalizeResult ul ok r = Inr r'"
  shows "rs_code r' = trim_space (rs_code r) \<and> rs_data r' = trim_space (rs_data r)
    \<and> norm_logs ul (rs_logs r) = Inr (rs_logs r')
    \<and> rs_code r' \<noteq> [] \<and> length (rs_code r') \<le> maxResultCodeBytes
    \<and> length (rs_data r') \<le> maxJobPayloadBytes \<and> length (rs_logs r') \<le> maxResultLogs
    \<and> (rs_data r' = [] \<or> (hd (rs_data r') = CHR 0x7B \<and> json_valid (rs_data r')
         \<and> (\<exists>v. parse_json (rs_data r') = Some v \<and> floats_ok ok v
              \<and> \<not> containsSensitiveResultKey ul v)))"
  using assms
  by (auto simp: normalizeResult_def Let_def rbind_eq_Inr dest: norm_logs_Inr
      split: if_splits option.splits)

text \<open>C20. The policy a result passes before it is stored, whatever the agent sends: a code of 1
  to 64 bytes; no data, or a JSON object of at most 64 KiB in which no object at any depth has a
  key that, in lower case and without separators, contains a sensitive word; at most 100 logs,
  each with a known level and a short redacted message, so that every log row satisfies the
  constraints of its table.\<close>

theorem result_policy:
  assumes "normalizeResult ul ok r = Inr r'"
  shows "1 \<le> length (rs_code r') \<and> length (rs_code r') \<le> 64 \<and> length (rs_data r') \<le> 65536
    \<and> (rs_data r' = [] \<or> hd (rs_data r') = CHR 0x7B \<and> (\<exists>v. parse_json (rs_data r') = Some v
         \<and> (\<forall>k word. key_in k v \<and> word \<in> set sensitive_words
              \<longrightarrow> \<not> contains (squash (to_lower ul k)) word)))
    \<and> length (rs_logs r') \<le> 100
    \<and> (\<forall>l \<in> set (rs_logs r'). lg_level l \<in> set log_levels \<and> length (runes (lg_message l)) \<le> 1024
         \<and> \<not> marked (to_lower ul (lg_message l)))"
proof -
  note n = normalize_Inr[OF assms]
  have "\<not> contains (squash (to_lower ul k)) word"
    if "parse_json (rs_data r') = Some v" "\<not> containsSensitiveResultKey ul v" "key_in k v"
      "word \<in> set sensitive_words" for v k word
    using that sensitive_iff[of ul v] by (auto simp: sensitive_key_def sensitive_words_def Let_def)
  moreover have "length (runes (lg_message l)) \<le> 1024 \<and> \<not> marked (to_lower ul (lg_message l))
      \<and> lg_level l \<in> set log_levels" if "l \<in> set (rs_logs r')" for l
    using that norm_logs_Inr n safe_message_short safe_message_clean unfolding maxFailureRunes_def by metis
  ultimately show ?thesis
    using n by (auto simp: Suc_le_eq maxResultCodeBytes_def maxResultLogs_def maxJobPayloadBytes_def)
qed

definition demo_data :: string where
  \<open>demo_data = ''{"port":80}''\<close>

definition demo_result :: result where
  "demo_result = \<lparr>rs_code = ''site.created'', rs_data = demo_data,
     rs_logs = [\<lparr>lg_id = 0, lg_level = ''INFO'', lg_message = ''done'', lg_created_at = 0\<rparr>]\<rparr>"

lemma demo_normalized:
  "normalizeResult id (\<lambda>_. True) demo_result
     = Inr (demo_result\<lparr>rs_logs := [\<lparr>lg_id = 0, lg_level = ''info'', lg_message = ''done'', lg_created_at = 0\<rparr>]\<rparr>)"
proof -
  have t: "trim_space ''site.created'' = ''site.created''" "trim_space demo_data = demo_data"
    "trim_space ''INFO'' = ''INFO''" "trim_space ''done'' = ''done''"
    by (rule trim_space_plain; simp add: plain_def demo_data_def)+
  have p: "parse_json demo_data = Some (JObj [(''port'', JNum ''80'')])"
    by (simp add: demo_data_def json_eval)
  have d: "demo_data \<noteq> []" "hd demo_data = CHR 0x7B" "length demo_data = 11"
    by (simp_all add: demo_data_def)
  have s: "safeFailureMessage id (Plain ''done'') = ''done''"
    by (simp add: safeFailureMessage_def Let_def redact_marked marked_def secret_markers_def
        to_lower_ascii ascii_def lower_byte_def eq_char_of t runes_ascii maxFailureRunes_def)
  show ?thesis
    by (simp add: normalizeResult_def demo_result_def Let_def t p s d json_valid_def norm_level_def
        to_lower_ascii ascii_def lower_byte_def char_of_eq log_levels_def sensitive_key_def squash_def
        maxResultCodeBytes_def maxJobPayloadBytes_def maxResultLogs_def)
qed

theorem result_policy_witness:
  "length (rs_logs demo_result) \<le> 100 \<and> (\<exists>v. parse_json demo_data = Some v
     \<and> key_in ''port'' v \<and> \<not> contains (squash (to_lower id ''port'')) ''token'')"
proof -
  have p: "parse_json demo_data = Some (JObj [(''port'', JNum ''80'')])"
    by (simp add: demo_data_def json_eval)
  have k: "key_in ''port'' (JObj [(''port'', JNum ''80'')])" by (rule key_in.here) simp
  have "''token'' \<in> set sensitive_words" by (simp add: sensitive_words_def)
  then show ?thesis using result_policy[OF demo_normalized] p k
    by (auto simp: demo_result_def demo_data_def)
qed

text \<open>The worker normalises a result before it calls \<open>Succeed\<close>, which normalises it
  again: the second pass never rejects what the first accepted, and keeps code and data.\<close>

theorem normalize_twice:
  assumes "normalizeResult ul ok r = Inr r'"
  shows "\<exists>r''. normalizeResult ul ok r' = Inr r'' \<and> rs_code r'' = rs_code r' \<and> rs_data r'' = rs_data r'"
proof -
  note n = normalize_Inr[OF assms]
  have "norm_level ul (lg_level l) \<in> set log_levels" if "lg_level l \<in> set log_levels" for l :: job_log
  proof -
    have "plain (hd (lg_level l)) \<and> plain (last (lg_level l)) \<and> ascii (lg_level l)
        \<and> map lower_byte (lg_level l) = lg_level l"
      using that by (auto simp: log_levels_def plain_def ascii_def lower_byte_def)
    then show ?thesis using that by (simp add: norm_level_def trim_space_plain to_lower_ascii)
  qed
  then obtain ls where "norm_logs ul (rs_logs r') = Inr ls"
    using norm_logs_total norm_logs_Inr n by metis
  then show ?thesis using n by (auto simp: normalizeResult_def Let_def)
qed

theorem normalize_twice_witness:
  "\<exists>r''. normalizeResult id (\<lambda>_. True)
      (demo_result\<lparr>rs_logs := [\<lparr>lg_id = 0, lg_level = ''info'', lg_message = ''done'', lg_created_at = 0\<rparr>]\<rparr>) = Inr r''"
  using normalize_twice[OF demo_normalized] by blast

section \<open>Enqueue\<close>

lemma sql_queue_sel [simp]:
  "q_store (sql_queue pg c token d newid s) = sql_job_store pg c token"
  "q_now (sql_queue pg c token d newid s) = qs_now s"
  "q_new_id (sql_queue pg c token d newid s) = newid"
  by (simp_all add: queue_defs)

lemma sql_job_store_sel [simp]:
  "js_enqueue (sql_job_store pg c token) = store_enqueue pg"
  "js_mark_succeeded (sql_job_store pg c token) = store_mark_succeeded pg"
  "js_mark_failed (sql_job_store pg c token) = store_mark_failed pg"
  by (simp_all add: sql_job_store_def)






section \<open>Succeed, Fail, Retry and Cancel\<close>

lemma insertLogs_Inr:
  "insertLogs i ls at w = (Inr u, w') \<Longrightarrow>
     jobs_of w' = jobs_of w
     \<and> map log_entry (t_job_logs (w_tables w')) = map log_entry (t_job_logs (w_tables w))
         @ map (\<lambda>l. (i, lg_level l, lg_message l, at)) ls"
proof (induction ls arbitrary: w)
  case Nil
  then show ?case by (simp add: retp_def)
next
  case (Cons l ls)
  then obtain u1 w1 where 1: "stmt (insert_job_log i (lg_level l) (lg_message l) at) w = (Inr u1, w1)"
    and 2: "insertLogs i ls at w1 = (Inr u, w')"
    by (auto simp: bindp_Inr)
  obtain t where "insert_job_log i (lg_level l) (lg_message l) at (w_tables w) = Inr (u1, t)" "w_tables w1 = t"
    using stmt_Inr[OF 1] by blast
  then show ?case using Cons.IH[OF 2] insert_job_log_Inr by fastforce
qed

lemma one_hit: "length (filter p xs) = 1 \<Longrightarrow> \<exists>r. filter p xs = [r]"
  by (cases "filter p xs") auto

text \<open>The part the two finishing methods share: the guarded update of the claimed row.\<close>

lemma claimed_update:
  assumes "stmt (with_claim pg j f) w = (Inr n, w1)" and "requireUpdatedRow n w1 = (Inr u, w2)"
    and "\<And>i k t n t'. f i k t = Inr (n, t') \<Longrightarrow> \<exists>g. P g \<and> update_jobs (owns i k) g t = Inr (n, t')"
  shows "\<exists>i k r g. uuid_in pg (j_id j) = Some i \<and> uuid_in pg (j_claim_token j) = Some k
     \<and> filter (owns i k) (jobs_of w) = [r] \<and> P g
     \<and> w_tables w2 = (w_tables w)\<lparr>t_jobs := upd_where (owns i k) g (jobs_of w)\<rparr>"
proof -
  obtain t where t: "with_claim pg j f (w_tables w) = Inr (n, t)" "w_tables w1 = t"
    using stmt_Inr[OF assms(1)] by blast
  have n: "n = 1" "w_tables w2 = t"
    using assms(2) t(2) by (auto simp: requireUpdatedRow_def failp_def retp_def split: if_splits)
  obtain i k where ik: "uuid_in pg (j_id j) = Some i" "uuid_in pg (j_claim_token j) = Some k"
    and fi: "f i k (w_tables w) = Inr (n, t)"
    using with_claim_Inr[OF t(1)] by blast
  obtain g where g: "P g" "update_jobs (owns i k) g (w_tables w) = Inr (n, t)"
    using assms(3)[OF fi] by blast
  note u = update_jobs_Inr[OF g(2)]
  then obtain r where "filter (owns i k) (jobs_of w) = [r]" using n one_hit by metis
  then show ?thesis using ik g(1) u n(2) by blast
qed

lemma succeed_effect:
  assumes "q_succeed ul ok (sql_queue pg c token d newid s) j out w = (Inr (), w')"
  shows "\<exists>i k r out' data. uuid_in pg (j_id j) = Some i \<and> uuid_in pg (j_claim_token j) = Some k
    \<and> filter (owns i k) (jobs_of w) = [r] \<and> normalizeResult ul ok out = Inr out'
    \<and> null_cast (jsonb_in pg) (rs_data out') = Some data
    \<and> jobs_of w' = upd_where (owns i k) (succeed_row (rs_code out') data (qs_now s)) (jobs_of w)
    \<and> map log_entry (t_job_logs (w_tables w')) = map log_entry (t_job_logs (w_tables w))
        @ map (\<lambda>l. (i, lg_level l, lg_message l, qs_now s)) (rs_logs out')"
proof -
  let ?now = "qs_now s"
  obtain out' where o: "normalizeResult ul ok out = Inr out'"
    and m: "store_mark_succeeded pg j ?now out' w = (Inr (), w')"
    using assms by (auto simp: q_succeed_def failp_def split: if_splits sum.splits)
  let ?f = "\<lambda>i token t. case null_cast (jsonb_in pg) (rs_data out') of
      None \<Rightarrow> Inl cast_failure
    | Some data \<Rightarrow> update_jobs (owns i token) (succeed_row (rs_code out') data ?now) t"
  obtain w1 w2 where w1: "w_tables w1 = w_tables w" "w_tables w' = w_tables w2"
    and b: "bindp (stmt (with_claim pg j ?f)) (\<lambda>n. bindp (requireUpdatedRow n)
        (\<lambda>_. bindp (insertLogs (the (uuid_in pg (j_id j))) (rs_logs out') ?now)
        (\<lambda>_. retp (Commit ())))) w1 = (Inr (Commit ()), w2)"
    by (rule tx_commit[OF m[unfolded store_mark_succeeded_def]]) (intro inv_intros, rule that)
  obtain n u wa wb where 1: "stmt (with_claim pg j ?f) w1 = (Inr n, wa)"
    and 2: "requireUpdatedRow n wa = (Inr u, wb)"
    and 3: "insertLogs (the (uuid_in pg (j_id j))) (rs_logs out') ?now wb = (Inr (), w2)"
    using b by (auto simp: bindp_Inr retp_def)
  let ?P = "\<lambda>g. \<exists>data. null_cast (jsonb_in pg) (rs_data out') = Some data \<and> g = succeed_row (rs_code out') data ?now"
  have "\<exists>i k r g. uuid_in pg (j_id j) = Some i \<and> uuid_in pg (j_claim_token j) = Some k
     \<and> filter (owns i k) (jobs_of w1) = [r] \<and> ?P g
     \<and> w_tables wb = (w_tables w1)\<lparr>t_jobs := upd_where (owns i k) g (jobs_of w1)\<rparr>"
    by (rule claimed_update[OF 1 2]) (auto split: option.splits)
  then show ?thesis using insertLogs_Inr[OF 3] o w1 by force
qed

text \<open>C21. \<open>Succeed\<close> finishes exactly the claimed job: when it reports success, exactly one row
  was running under the worker's own claim token; that row becomes succeeded and not retryable,
  gives up token and lease, stores the code and the data of the normalised result (no data as
  \<open>NULL\<close>) and the time it finished; every other row is untouched, and exactly the normalised logs
  are appended under the job's id.\<close>

theorem succeed_exact:
  assumes "q_succeed ul ok (sql_queue pg c token d newid s) j out w = (Inr (), w')"
  shows "\<exists>i k r out' data. uuid_in pg (j_id j) = Some i \<and> uuid_in pg (j_claim_token j) = Some k
    \<and> filter (owns i k) (jobs_of w) = [r] \<and> normalizeResult ul ok out = Inr out'
    \<and> (if rs_data out' = [] then data = None else data \<noteq> None \<and> jsonb_in pg (rs_data out') = data)
    \<and> jobs_of w' = upd_where (owns i k) (\<lambda>x. x\<lparr>jr_status := Succeeded, jr_retryable := False,
         jr_claim_token := None, jr_lease_expires_at := None, jr_result_code := Some (rs_code out'),
         jr_result := data, jr_finished_at := Some (qs_now s), jr_updated_at := qs_now s\<rparr>) (jobs_of w)
    \<and> map log_entry (t_job_logs (w_tables w')) = map log_entry (t_job_logs (w_tables w))
        @ map (\<lambda>l. (i, lg_level l, lg_message l, qs_now s)) (rs_logs out')"
proof -
  obtain i k r out' data where e: "uuid_in pg (j_id j) = Some i" "uuid_in pg (j_claim_token j) = Some k"
    "filter (owns i k) (jobs_of w) = [r]" "normalizeResult ul ok out = Inr out'"
    "null_cast (jsonb_in pg) (rs_data out') = Some data"
    "jobs_of w' = upd_where (owns i k) (succeed_row (rs_code out') data (qs_now s)) (jobs_of w)"
    "map log_entry (t_job_logs (w_tables w')) = map log_entry (t_job_logs (w_tables w))
        @ map (\<lambda>l. (i, lg_level l, lg_message l, qs_now s)) (rs_logs out')"
    using succeed_effect[OF assms] by (elim exE conjE) (rule that)
  have "if rs_data out' = [] then data = None else data \<noteq> None \<and> jsonb_in pg (rs_data out') = data"
    using e(5) by (auto simp: null_cast_def split: if_splits option.splits)
  then show ?thesis using e(1-4,6,7) unfolding succeed_row_def by blast
qed

lemma fail_effect:
  assumes "q_fail ul (sql_queue pg c token d newid s) j f w = (Inr (), w')"
    and "final = (fi_permanent f \<or> j_attempts j \<ge> j_max_attempts j)"
    and "msg = (if trim_space (fi_message f) \<noteq> [] then safeFailureMessage ul (Plain (fi_message f)) else fi_message f)"
  shows "0 \<le> fi_backoff f \<and> (\<exists>i k r. uuid_in pg (j_id j) = Some i \<and> uuid_in pg (j_claim_token j) = Some k
    \<and> filter (owns i k) (jobs_of w) = [r]
    \<and> jobs_of w' = upd_where (owns i k) (\<lambda>x. x\<lparr>jr_status := (if final then Failed else Queued),
         jr_run_after := (if final then qs_now s else qs_now s + fi_backoff f),
         jr_retryable := (\<not> fi_permanent f), jr_claim_token := None, jr_lease_expires_at := None,
         jr_started_at := (if final then jr_started_at x else None),
         jr_finished_at := (if final then Some (qs_now s) else None), jr_updated_at := qs_now s\<rparr>) (jobs_of w)
    \<and> map log_entry (t_job_logs (w_tables w')) = map log_entry (t_job_logs (w_tables w))
        @ (if msg = [] then [] else [(i, ''error'', msg, qs_now s)]))"
proof -
  let ?now = "qs_now s"
  let ?ra = "if final then ?now else ?now + fi_backoff f" and ?fin = "if final then ?now else zero_time"
  let ?g = "fail_row final (\<not> fi_permanent f) ?ra ?now ?fin"
  have m: "store_mark_failed pg j final (\<not> fi_permanent f) ?ra ?now ?fin msg w = (Inr (), w')"
    and nb: "0 \<le> fi_backoff f"
    using assms by (auto simp: q_fail_def failp_def Let_def split: if_splits)
  obtain w1 w2 where w1: "w_tables w1 = w_tables w" "w_tables w' = w_tables w2"
    and b: "bindp (stmt (with_claim pg j (\<lambda>i token. update_jobs (owns i token) ?g))) (\<lambda>n. bindp (requireUpdatedRow n)
        (\<lambda>_. bindp (if msg \<noteq> [] then stmt (insert_job_log (the (uuid_in pg (j_id j))) ''error'' msg ?now)
             else retp ()) (\<lambda>_. retp (Commit ())))) w1 = (Inr (Commit ()), w2)"
    by (rule tx_commit[OF m[unfolded store_mark_failed_def]]) (intro inv_intros, rule that)
  obtain n u wa wb where 1: "stmt (with_claim pg j (\<lambda>i token. update_jobs (owns i token) ?g)) w1 = (Inr n, wa)"
    and 2: "requireUpdatedRow n wa = (Inr u, wb)"
    and 3: "(if msg \<noteq> [] then stmt (insert_job_log (the (uuid_in pg (j_id j))) ''error'' msg ?now)
             else retp ()) wb = (Inr (), w2)"
    using b by (auto simp: bindp_Inr retp_def)
  have "\<exists>i k r g. uuid_in pg (j_id j) = Some i \<and> uuid_in pg (j_claim_token j) = Some k
     \<and> filter (owns i k) (jobs_of w1) = [r] \<and> g = ?g
     \<and> w_tables wb = (w_tables w1)\<lparr>t_jobs := upd_where (owns i k) g (jobs_of w1)\<rparr>"
    by (rule claimed_update[OF 1 2]) auto
  then obtain i k r where i: "uuid_in pg (j_id j) = Some i" "uuid_in pg (j_claim_token j) = Some k"
     "filter (owns i k) (jobs_of w1) = [r]"
     and wb: "w_tables wb = (w_tables w1)\<lparr>t_jobs := upd_where (owns i k) ?g (jobs_of w1)\<rparr>" by blast
  have l: "jobs_of w2 = jobs_of wb \<and> map log_entry (t_job_logs (w_tables w2))
      = map log_entry (t_job_logs (w_tables wb)) @ (if msg = [] then [] else [(i, ''error'', msg, ?now)])"
    using 3 i(1) by (auto simp: retp_def dest!: stmt_Inr insert_job_log_Inr split: if_splits)
  have "upd_where (owns i k) ?g (jobs_of w) = upd_where (owns i k) (\<lambda>x. x\<lparr>jr_status := (if final then Failed else Queued),
         jr_run_after := ?ra,
         jr_retryable := (\<not> fi_permanent f), jr_claim_token := None, jr_lease_expires_at := None,
         jr_started_at := (if final then jr_started_at x else None),
         jr_finished_at := (if final then Some ?now else None), jr_updated_at := ?now\<rparr>) (jobs_of w)"
    by (cases final) (simp_all add: upd_where_def fail_row_def)
  then show ?thesis using l i wb w1 nb by (intro conjI exI[of _ i] exI[of _ k] exI[of _ r]) simp_all
qed

text \<open>C22. \<open>Fail\<close> decides between retrying and giving up: when it reports success, exactly one row
  was running under the worker's own claim token; that row is failed for good when the error is
  permanent or the job has no attempt left, and else queued again, due after the backoff; it
  can be retried by an operator exactly when the error was not permanent; and the bounded,
  redacted message (when there is one) is the only log added.\<close>

theorem fail_exact:
  assumes "q_fail ul (sql_queue pg c token d newid s) j f w = (Inr (), w')"
    and "final = (fi_permanent f \<or> j_attempts j \<ge> j_max_attempts j)"
    and "msg = (if trim_space (fi_message f) \<noteq> [] then safeFailureMessage ul (Plain (fi_message f)) else fi_message f)"
  shows "0 \<le> fi_backoff f \<and> (\<exists>i k r. uuid_in pg (j_id j) = Some i \<and> uuid_in pg (j_claim_token j) = Some k
    \<and> filter (owns i k) (jobs_of w) = [r]
    \<and> jobs_of w' = upd_where (owns i k) (\<lambda>x. x\<lparr>jr_status := (if final then Failed else Queued),
         jr_run_after := (if final then qs_now s else qs_now s + fi_backoff f),
         jr_retryable := (\<not> fi_permanent f), jr_claim_token := None, jr_lease_expires_at := None,
         jr_started_at := (if final then jr_started_at x else None),
         jr_finished_at := (if final then Some (qs_now s) else None), jr_updated_at := qs_now s\<rparr>) (jobs_of w)
    \<and> map log_entry (t_job_logs (w_tables w')) = map log_entry (t_job_logs (w_tables w))
        @ (if msg = [] then [] else [(i, ''error'', msg, qs_now s)]))"
  by (rule fail_effect[OF assms])

definition live_job :: job where
  "live_job = scanJob (claim_row 40 90 ''t2'' (claim_row 10 20 ''t1'' (queued_row ''a'')))"

lemma live_job_sel: "j_id live_job = ''a''" "j_claim_token live_job = ''t2''"
  "j_attempts live_job = 2" "j_max_attempts live_job = 2"
  by (simp_all add: live_job_def scanJob_def claim_row_def queued_row_def)

lemma demo_trims: "trim_space ''a'' = ''a''" "trim_space ''t2'' = ''t2''" "trim_space ''boom'' = ''boom''"
  by (rule trim_space_plain; simp add: plain_def)+

lemmas finish_eval = tx_def take_reply_def bindp_def stmt_def with_claim_def update_jobs_def Let_def
  owns_def requireUpdatedRow_def retp_def insert_job_log_def log_checks_def log_levels_def
  reclaimed_def plain_pg_def claim_row_def queued_row_def empty_tables_def job_checks_def next_log_id_def

lemma reclaimed_sel: "qs_now reclaimed = 50" "t_job_logs (w_tables (qs_world reclaimed)) = []"
  "jobs_of (qs_world reclaimed) = [claim_row 40 90 ''t2'' (claim_row 10 20 ''t1'' (queued_row ''a''))]"
  by (simp_all add: reclaimed_def empty_tables_def)

lemma demo_succeeds:
  "\<exists>w'. q_succeed id (\<lambda>_. True) (sql_queue plain_pg free ''t3'' 0 (Inr ''x'') reclaimed) live_job
      demo_result (qs_world reclaimed) = (Inr (), w')"
  by (simp add: q_succeed_def demo_normalized live_job_sel demo_trims reclaimed_sel store_mark_succeeded_def)
    (simp add: live_job_sel finish_eval demo_result_def null_cast_def demo_data_def succeed_row_def runes_ascii ascii_def del: set_filter)

theorem succeed_exact_witness:
  "\<exists>w'. q_succeed id (\<lambda>_. True) (sql_queue plain_pg free ''t3'' 0 (Inr ''x'') reclaimed) live_job
      demo_result (qs_world reclaimed) = (Inr (), w')
     \<and> map (\<lambda>r. (jr_status r, jr_result_code r, jr_result r, jr_claim_token r, jr_finished_at r)) (jobs_of w')
         = [(Succeeded, Some ''site.created'', Some demo_data, None, Some 50)]
     \<and> map log_entry (t_job_logs (w_tables w')) = [(''a'', ''info'', ''done'', 50)]"
proof -
  obtain w' where w': "q_succeed id (\<lambda>_. True) (sql_queue plain_pg free ''t3'' 0 (Inr ''x'') reclaimed) live_job
      demo_result (qs_world reclaimed) = (Inr (), w')"
    using demo_succeeds by blast
  obtain i k r out' data where e: "uuid_in plain_pg (j_id live_job) = Some i" "uuid_in plain_pg (j_claim_token live_job) = Some k"
      "normalizeResult id (\<lambda>_. True) demo_result = Inr out'"
      "if rs_data out' = [] then data = None else data \<noteq> None \<and> jsonb_in plain_pg (rs_data out') = data"
    and row: "jobs_of w' = upd_where (owns i k) (\<lambda>x. x\<lparr>jr_status := Succeeded, jr_retryable := False,
         jr_claim_token := None, jr_lease_expires_at := None, jr_result_code := Some (rs_code out'),
         jr_result := data, jr_finished_at := Some (qs_now reclaimed), jr_updated_at := qs_now reclaimed\<rparr>) (jobs_of (qs_world reclaimed))"
    and l: "map log_entry (t_job_logs (w_tables w')) = map log_entry (t_job_logs (w_tables (qs_world reclaimed)))
        @ map (\<lambda>l. (i, lg_level l, lg_message l, qs_now reclaimed)) (rs_logs out')"
    using succeed_exact[OF w'] by (elim exE conjE) (rule that)
  have "out' = demo_result\<lparr>rs_logs := [\<lparr>lg_id = 0, lg_level = ''info'', lg_message = ''done'', lg_created_at = 0\<rparr>]\<rparr>"
    using e(3) by (simp add: demo_normalized)
  then have "i = ''a''" "k = ''t2''" "rs_code out' = ''site.created''" "data = Some demo_data"
      "rs_logs out' = [\<lparr>lg_id = 0, lg_level = ''info'', lg_message = ''done'', lg_created_at = 0\<rparr>]"
    using e(1,2,4) by (auto simp: plain_pg_def live_job_sel demo_result_def demo_data_def)
  then show ?thesis using w' l row
    by (simp add: reclaimed_sel owns_def claim_row_def queued_row_def)
qed

definition demo_failure :: failure_input where
  "demo_failure = \<lparr>fi_message = ''boom'', fi_backoff = 7, fi_permanent = False\<rparr>"

lemma boom_message: "safeFailureMessage id (Plain ''boom'') = ''boom''"
  by (simp add: safeFailureMessage_def Let_def redact_marked marked_def secret_markers_def
      to_lower_ascii ascii_def lower_byte_def eq_char_of demo_trims runes_ascii maxFailureRunes_def)

lemma demo_fails:
  "\<exists>w'. q_fail id (sql_queue plain_pg free ''t3'' 0 (Inr ''x'') reclaimed) live_job
      demo_failure (qs_world reclaimed) = (Inr (), w')"
  by (simp add: q_fail_def Let_def live_job_sel reclaimed_sel store_mark_failed_def demo_failure_def
      demo_trims boom_message)
    (simp add: live_job_sel finish_eval
      demo_failure_def boom_message fail_row_def runes_ascii ascii_def del: set_filter)

theorem fail_exact_witness:
  "\<exists>w'. q_fail id (sql_queue plain_pg free ''t3'' 0 (Inr ''x'') reclaimed) live_job
      demo_failure (qs_world reclaimed) = (Inr (), w')
     \<and> map log_entry (t_job_logs (w_tables w')) = [(''a'', ''error'', ''boom'', 50)]
     \<and> map jr_status (jobs_of w') = [Failed]"
proof -
  obtain w' where w': "q_fail id (sql_queue plain_pg free ''t3'' 0 (Inr ''x'') reclaimed) live_job
      demo_failure (qs_world reclaimed) = (Inr (), w')"
    using demo_fails by blast
  then show ?thesis using fail_exact[OF w' refl refl]
    by (intro exI[of _ w'] conjI)
      (auto simp: live_job_sel demo_failure_def plain_pg_def reclaimed_sel demo_trims
        boom_message owns_def claim_row_def queued_row_def)
qed

lemma record_event:
  "audit_record put now newid ev w = (Inr ev', w') \<Longrightarrow>
     \<exists>i. ev' = (trim_event ev)\<lparr>ae_id := i, ae_created_at := now\<rparr>"
  by (auto simp: audit_record_def Let_def failp_def retp_def bindp_Inr split: if_splits sum.splits)

lemma mutate_exact:
  assumes "store_mutate pg now newid i m from_status target action w = (Inr (), w')"
  shows "\<exists>r a. r \<in> set (jobs_of w) \<and> uuid_in pg i = Some (jr_id r) \<and> jr_status r = from_status
    \<and> (action = ActionJobRetried \<longrightarrow> jr_retryable r)
    \<and> jobs_of w' = upd_where (\<lambda>s. jr_id s = jr_id r) (mutate_row target now) (jobs_of w)
    \<and> t_audit_events (w_tables w') = t_audit_events (w_tables w) @ [a] \<and> audit_row_ok a
    \<and> ar_action a = trim_space action \<and> ar_target_type a = trim_space ''job''
    \<and> ar_target_id a = trim_space i
    \<and> null_cast (uuid_in pg) (trim_space (mu_actor_user_id m)) = Some (ar_actor_user_id a) \<and> ar_created_at a = now"
proof -
  let ?upd = "update_jobs (\<lambda>s. jr_id s = the (uuid_in pg i)) (mutate_row target now)"
  let ?rec = "audit_record (audit_write pg) now newid (mutation_event m action i)"
  let ?k = "\<lambda>res. case res of None \<Rightarrow> failp ErrJobNotFound
        | Some r \<Rightarrow> if jr_status r \<noteq> from_status \<or> (action = ActionJobRetried \<and> \<not> jr_retryable r)
            then failp ErrInvalidTransition
            else bindp (stmt ?upd) (\<lambda>_. bindp ?rec (\<lambda>_. retp (Commit ())))"
  have "tx (bindp (query (find_job pg i)) ?k) w = (Inr (), w')"
    using assms by (auto simp: store_mutate_def failp_def split: if_splits)
  moreover have "commits (bindp (query (find_job pg i)) ?k)"
    by (auto intro!: inv_intros split: option.split)
  ultimately obtain w1 w2 where w1: "w_tables w1 = w_tables w" "w_tables w' = w_tables w2"
    and b: "bindp (query (find_job pg i)) ?k w1 = (Inr (Commit ()), w2)"
    by (rule tx_commit) blast
  obtain res wa where q: "query (find_job pg i) w1 = (Inr res, wa)" and k: "?k res wa = (Inr (Commit ()), w2)"
    using b by (auto simp only: bindp_Inr)
  then obtain r where r: "res = Some r" "jr_status r = from_status" "action = ActionJobRetried \<longrightarrow> jr_retryable r"
    and c: "bindp (stmt ?upd) (\<lambda>_. bindp ?rec (\<lambda>_. retp (Commit ()))) wa = (Inr (Commit ()), w2)"
    by (auto simp: failp_def split: option.splits if_splits)
  obtain u where u: "uuid_in pg i = Some u" "jr_id r = u" "r \<in> set (jobs_of w)"
    using find_job_Inr query_Inr[OF q] r(1) w1(1) by fastforce
  obtain n wb ev where 1: "stmt ?upd wa = (Inr n, wb)" and 2: "?rec wb = (Inr ev, w2)"
    using c by (auto simp: bindp_Inr retp_def)
  obtain t where "?upd (w_tables wa) = Inr (n, t)" "w_tables wb = t" using stmt_Inr[OF 1] by blast
  then have wb: "w_tables wb = (w_tables w)\<lparr>t_jobs := upd_where (\<lambda>s. jr_id s = jr_id r) (mutate_row target now) (jobs_of w)\<rparr>"
    using update_jobs_Inr query_Inr[OF q] w1(1) u by fastforce
  obtain a where a: "describes_event pg ev a" "audit_row_ok a"
      "t_audit_events (w_tables w2) = t_audit_events (w_tables wb) @ [a]"
    using sql_log.record_ok[OF 2] by blast
  obtain e where e: "ev = (trim_event (mutation_event m action i))\<lparr>ae_id := e, ae_created_at := now\<rparr>"
    using record_event[OF 2] by blast
  have "ar_action a = trim_space action \<and> ar_target_type a = trim_space ''job'' \<and> ar_target_id a = trim_space i
      \<and> null_cast (uuid_in pg) (trim_space (mu_actor_user_id m)) = Some (ar_actor_user_id a) \<and> ar_created_at a = now"
    using a(1) unfolding describes_event_def audit_row_of_def e
    by (auto simp: trim_event_def mutation_event_def event_literal_def split: option.splits)
  moreover have "jobs_of w2 = jobs_of wb"
    using keeps_audit_record[of pg now newid "mutation_event m action i"] 2
    unfolding preserves_def by (metis snd_conv)
  ultimately show ?thesis using r u wb w1 a by (intro exI[of _ r] exI[of _ a]) simp
qed

lemma action_trims: "trim_space ActionJobRetried = ActionJobRetried"
  "trim_space ActionJobCancelled = ActionJobCancelled" "trim_space ''job'' = ''job''"
  by (rule trim_space_plain; simp add: plain_def action_defs)+

text \<open>C24. Retry and cancel move exactly the rows they promise and leave a trace: when either
  reports success, the job existed; a retried job was failed and retryable and is queued again, due
  now, with no attempts spent, retryable and without a finishing time; a cancelled one was still
  queued, is cancelled for good, keeps its count of attempts and is finished now. Either has no
  start and no result any more. No other row changed, and exactly one well-formed audit event naming
  the job, the action, the actor and the time was appended in the same transaction.\<close>

theorem mutation_audited:
  assumes "(retried \<and> store_retry pg now newid i m w = (Inr (), w'))
      \<or> (\<not> retried \<and> store_cancel pg now newid i m w = (Inr (), w'))"
  shows "\<exists>r a. r \<in> set (jobs_of w) \<and> uuid_in pg i = Some (jr_id r)
    \<and> (if retried then jr_status r = Failed \<and> jr_retryable r else jr_status r = Queued)
    \<and> jobs_of w' = upd_where (\<lambda>x. jr_id x = jr_id r) (\<lambda>x. if retried
        then x\<lparr>jr_status := Queued, jr_attempts := 0, jr_retryable := True, jr_run_after := now,
          jr_started_at := None, jr_finished_at := None, jr_result_code := None, jr_result := None,
          jr_updated_at := now\<rparr>
        else x\<lparr>jr_status := Cancelled, jr_retryable := False, jr_started_at := None,
          jr_finished_at := Some now, jr_result_code := None, jr_result := None,
          jr_updated_at := now\<rparr>) (jobs_of w)
    \<and> t_audit_events (w_tables w') = t_audit_events (w_tables w) @ [a] \<and> audit_row_ok a
    \<and> ar_action a = (if retried then ActionJobRetried else ActionJobCancelled)
    \<and> ar_target_type a = ''job'' \<and> ar_target_id a = trim_space i
    \<and> null_cast (uuid_in pg) (trim_space (mu_actor_user_id m)) = Some (ar_actor_user_id a) \<and> ar_created_at a = now"
proof -
  have n: "ActionJobCancelled \<noteq> ActionJobRetried" by (simp add: action_defs)
  have r: "mutate_row Queued now = (\<lambda>x. x\<lparr>jr_status := Queued, jr_attempts := 0, jr_retryable := True,
      jr_run_after := now, jr_started_at := None, jr_finished_at := None, jr_result_code := None,
      jr_result := None, jr_updated_at := now\<rparr>)"
    "mutate_row Cancelled now = (\<lambda>x. x\<lparr>jr_status := Cancelled, jr_retryable := False, jr_started_at := None,
      jr_finished_at := Some now, jr_result_code := None, jr_result := None, jr_updated_at := now\<rparr>)"
    by (auto simp: mutate_row_def)
  show ?thesis
    using assms n mutate_exact[of pg now newid i m Failed Queued ActionJobRetried w w']
      mutate_exact[of pg now newid i m Queued Cancelled ActionJobCancelled w w']
    unfolding store_retry_def store_cancel_def action_trims r by (cases retried) auto
qed

definition demo_id :: string where
  "demo_id = ''0f000000-0000-4000-8000-000000000000''"

definition cancel_world :: world where
  "cancel_world = \<lparr>w_tables = empty_tables\<lparr>t_jobs := [queued_row demo_id]\<rparr>, w_replies = []\<rparr>"

definition no_actor :: mutation where
  "no_actor = \<lparr>mu_actor_user_id = [], mu_ip_address = [], mu_user_agent = []\<rparr>"

lemma demo_id_ok: "validJobID demo_id" "trim_space demo_id = demo_id"
  by (simp add: validJobID_def demo_id_def hex_char_def upt_rec nth_Cons')
    (rule trim_space_plain; simp add: plain_def demo_id_def)

lemma demo_cancels: "\<exists>w'. store_cancel plain_pg 9 (Inr ''e'') demo_id no_actor cancel_world = (Inr (), w')"
proof -
  have e: "trim_event (mutation_event no_actor ActionJobCancelled demo_id) = mutation_event no_actor ActionJobCancelled demo_id"
    by (simp add: trim_event_def mutation_event_def event_literal_def no_actor_def action_trims demo_id_ok)
  have v: "valid_event (mutation_event no_actor ActionJobCancelled demo_id)"
    by (simp add: valid_event_def mutation_event_def event_literal_def no_actor_def auditMetadataKeys_def
        action_defs demo_id_def metadata_bytes_def maxActionBytes_def maxTargetTypeBytes_def
        maxTargetIDBytes_def maxUserAgentBytes_def maxMetadataBytes_def)
  have 1: "query (find_job plain_pg demo_id) cancel_world = (Inr (Some (queued_row demo_id)), cancel_world)"
    by (simp add: query_def take_reply_def find_job_def plain_pg_def cancel_world_def empty_tables_def queued_row_def)
  have ck: "job_checks (mutate_row Cancelled 9 (queued_row demo_id))"
    by (simp add: job_checks_def mutate_row_def queued_row_def demo_id_def)
  let ?w = "cancel_world\<lparr>w_tables := empty_tables\<lparr>t_jobs := [mutate_row Cancelled 9 (queued_row demo_id)]\<rparr>\<rparr>"
  have 2: "stmt (update_jobs (\<lambda>s. jr_id s = the (uuid_in plain_pg demo_id)) (mutate_row Cancelled 9)) cancel_world
     = (Inr 1, cancel_world\<lparr>w_tables := empty_tables\<lparr>t_jobs := [mutate_row Cancelled 9 (queued_row demo_id)]\<rparr>\<rparr>)"
    using ck by (simp add: stmt_def take_reply_def update_jobs_def Let_def plain_pg_def cancel_world_def
        empty_tables_def) (simp add: queued_row_def)
  have 3: "\<exists>w'. audit_write plain_pg (mutation_event no_actor ActionJobCancelled demo_id\<lparr>ae_id := ''e'', ae_created_at := 9\<rparr>) ?w
      = (Inr (), w') \<and> w_replies w' = []"
    by (simp add: audit_write_def stmt_def take_reply_def audit_row_of_def null_cast_def mutation_event_def
        event_literal_def no_actor_def insert_audit_def plain_pg_def cancel_world_def empty_tables_def)
  have 4: "jr_status (queued_row demo_id) = Queued" "ActionJobCancelled \<noteq> ActionJobRetried"
    by (simp_all add: queued_row_def action_defs)
  have 5: "take_reply cancel_world = (Done, cancel_world)" by (simp add: take_reply_def cancel_world_def)
  show ?thesis
    using 3 by (auto simp: store_cancel_def store_mutate_def demo_id_ok audit_record_def e v Let_def
        tx_def bindp_def 1 2 4 5 retp_def take_reply_empty)
qed

theorem mutation_audited_witness:
  "\<exists>w'. store_cancel plain_pg 9 (Inr ''e'') demo_id no_actor cancel_world = (Inr (), w')
     \<and> map jr_status (jobs_of w') = [Cancelled] \<and> map jr_finished_at (jobs_of w') = [Some 9]
     \<and> map ar_action (t_audit_events (w_tables w')) = [ActionJobCancelled]"
proof -
  obtain w' where w': "store_cancel plain_pg 9 (Inr ''e'') demo_id no_actor cancel_world = (Inr (), w')"
    using demo_cancels by blast
  have n: "t_audit_events (w_tables cancel_world) = []" "jobs_of cancel_world = [queued_row demo_id]"
    by (simp_all add: cancel_world_def empty_tables_def)
  show ?thesis
    using mutation_audited[of False plain_pg 9 "Inr ''e''" demo_id no_actor cancel_world w'] w' n
    by (intro exI[of _ w']) auto
qed

section \<open>Errors\<close>

lemma keeps_insertLogs_loss [inv_intros]: "keeps_no_loss (insertLogs i ls at)"
  by (induction ls) (auto intro!: inv_intros)

lemma keeps_requireUpdatedRow_loss [inv_intros]: "keeps_no_loss (requireUpdatedRow n)"
  by (auto simp: requireUpdatedRow_def intro!: inv_intros)

lemma tx_error:
  "tx body w = (Inl e, w') \<Longrightarrow> no_loss w \<Longrightarrow> keeps_no_loss body \<Longrightarrow> w_tables w' = w_tables w"
  by (rule tx_Inl_no_loss)

lemma mutate_error:
  assumes "store_mutate pg now newid i m from_status target action w = (Inl e, w')" and "no_loss w"
  shows "w_tables w' = w_tables w"
proof (cases "validJobID i")
  case True
  with assms show ?thesis unfolding store_mutate_def
    by (auto elim!: tx_error intro!: inv_intros sql_log.record_keeps split: option.split)
qed (use assms in \<open>auto simp: store_mutate_def failp_def\<close>)

text \<open>C19. Failures are atomic: when \<open>Succeed\<close>, \<open>Fail\<close>, \<open>Retry\<close> or \<open>Cancel\<close> reports an error,
  at whatever statement it occurred (a refused connection, a constraint, a failed audit record, a
  refused commit), the database is exactly as before, jobs, logs and audit events alike; the
  only exception the code allows is a commit whose acknowledgement was lost.\<close>

theorem errors_change_nothing:
  assumes "p \<in> {q_succeed ul ok (sql_queue pg c token d newid s) j out,
                q_fail ul (sql_queue pg c token d newid s) j f,
                store_retry pg now newid i m, store_cancel pg now newid i m}"
    and "p w = (Inl e, w')" and "no_loss w"
  shows "w_tables w' = w_tables w"
proof -
  have "w_tables w' = w_tables w" if "store_mark_succeeded pg j at r w = (Inl e, w')" for at r
    using that assms(3) unfolding store_mark_succeeded_def by (auto elim!: tx_error intro!: inv_intros)
  moreover have "w_tables w' = w_tables w"
    if "store_mark_failed pg j final ret ra up fin msg w = (Inl e, w')" for final ret ra up fin msg
    using that assms(3) unfolding store_mark_failed_def by (auto elim!: tx_error intro!: inv_intros)
  ultimately show ?thesis
    using assms mutate_error unfolding store_retry_def store_cancel_def
    by (auto simp: q_succeed_def q_fail_def failp_def Let_def split: if_splits sum.splits)
qed

text \<open>A connection that breaks between the update of the row and the insert of the log.\<close>

definition breaks_halfway :: world where
  "breaks_halfway = (qs_world reclaimed)\<lparr>w_replies := [Done, Done, Refused ''gone'']\<rparr>"

lemma demo_breaks:
  "\<exists>w'. q_fail id (sql_queue plain_pg free ''t3'' 0 (Inr ''x'') reclaimed) live_job
      demo_failure breaks_halfway = (Inl (DbError ''gone''), w')"
  by (simp add: q_fail_def Let_def live_job_sel reclaimed_sel store_mark_failed_def demo_failure_def
      demo_trims boom_message)
    (simp add: breaks_halfway_def live_job_sel finish_eval
      demo_failure_def boom_message fail_row_def runes_ascii ascii_def del: set_filter)

theorem errors_change_nothing_witness:
  "\<exists>w'. q_fail id (sql_queue plain_pg free ''t3'' 0 (Inr ''x'') reclaimed) live_job
      demo_failure breaks_halfway = (Inl (DbError ''gone''), w')
    \<and> w_tables w' = w_tables (qs_world reclaimed)"
proof -
  obtain w' where w': "q_fail id (sql_queue plain_pg free ''t3'' 0 (Inr ''x'') reclaimed) live_job
      demo_failure breaks_halfway = (Inl (DbError ''gone''), w')"
    using demo_breaks by blast
  have "no_loss breaks_halfway" by (simp add: no_loss_def breaks_halfway_def)
  moreover have "w_tables breaks_halfway = w_tables (qs_world reclaimed)" by (simp add: breaks_halfway_def)
  ultimately show ?thesis
    using errors_change_nothing[of "q_fail id (sql_queue plain_pg free ''t3'' 0 (Inr ''x'') reclaimed) live_job demo_failure"
        id "\<lambda>_. True" plain_pg free "''t3''" 0 "Inr ''x''" reclaimed live_job demo_result demo_failure 9 "''x''" no_actor
        breaks_halfway "DbError ''gone''" w'] w'
    by simp
qed

end
