(* ===== verification/JobWorker.thy ===== *)
theory JobWorker
  imports JobOutcome
begin

text \<open>
  \<open>internal/jobs/worker.go\<close>: the worker over any \<open>RuntimeQueue\<close> and any \<open>Executor\<close>, and the
  executor of \<open>cmd/motekar-panel/main.go\<close>, which decides from the agent's error whether a
  job is retried, given up or left leased. Cancellation of a context and the firing of a timer
  are inputs of the model; the executor does not touch the database.
\<close>

section \<open>Backoff\<close>

function backoff_loop :: "int \<Rightarrow> int \<Rightarrow> duration \<Rightarrow> duration" where
  "backoff_loop current attempt backoff =
     (if current < attempt \<and> backoff < minutes 5 then backoff_loop (current + 1) attempt (backoff * 2)
      else backoff)"
  by pat_completeness auto
termination by (relation "measure (\<lambda>(c, a, b). nat (a - c))") auto

declare backoff_loop.simps [simp del]

definition exponentialBackoff :: "int \<Rightarrow> duration" where
  "exponentialBackoff attempt0 =
     (let attempt = (if attempt0 < 1 then 1 else attempt0);
          backoff = backoff_loop 1 attempt (seconds 1) in
      if backoff > minutes 5 then minutes 5 else backoff)"

lemma backoff_loop_closed:
  assumes "0 < backoff"
  shows "min (backoff_loop current attempt backoff) (minutes 5)
    = min (backoff * 2 ^ nat (attempt - current)) (minutes 5)"
  using assms
proof (induction current attempt backoff rule: backoff_loop.induct)
  case (1 current attempt backoff)
  show ?case
  proof (cases "current < attempt \<and> backoff < minutes 5")
    case True
    then have "min (backoff_loop (current + 1) attempt (backoff * 2)) (minutes 5)
        = min (backoff * 2 * 2 ^ nat (attempt - (current + 1))) (minutes 5)"
      using "1.IH" "1.prems" by simp
    moreover have "nat (attempt - current) = Suc (nat (attempt - (current + 1)))" using True by arith
    ultimately show ?thesis using True by (simp add: backoff_loop.simps[of current])
  next
    case False
    show ?thesis
    proof (cases "current < attempt")
      case True
      then have "minutes 5 \<le> backoff" using False by simp
      moreover have "backoff * 1 \<le> backoff * 2 ^ nat (attempt - current)"
        using "1.prems" by (intro mult_left_mono) auto
      ultimately have "min (backoff * 2 ^ nat (attempt - current)) (minutes 5) = minutes 5"
        by (intro min_absorb2) linarith
      moreover have "backoff_loop current attempt backoff = backoff"
        using False by (subst backoff_loop.simps) auto
      ultimately show ?thesis using \<open>minutes 5 \<le> backoff\<close> by simp
    next
      case le: False
      then show ?thesis by (simp add: backoff_loop.simps[of current])
    qed
  qed
qed

text \<open>C34. The retry delay after attempt n is one second doubled n - 1 times, capped at five
  minutes: the loop that stops doubling early computes exactly that, is at least one second, never
  decreases with the attempt, and no intermediate value reaches 2^63 nanoseconds.\<close>

theorem exponentialBackoff_closed:
  "exponentialBackoff n = min (seconds 1 * 2 ^ nat (n - 1)) (minutes 5)
   \<and> seconds 1 \<le> exponentialBackoff n \<and> exponentialBackoff n \<le> exponentialBackoff (n + 1)
   \<and> backoff_loop 1 (if n < 1 then 1 else n) (seconds 1) < 2 ^ 63"
proof -
  have c: "exponentialBackoff m = min (seconds 1 * 2 ^ nat (m - 1)) (minutes 5)" for m
  proof -
    have "exponentialBackoff m = min (backoff_loop 1 (if m < 1 then 1 else m) (seconds 1)) (minutes 5)"
      by (simp add: exponentialBackoff_def Let_def min_def)
    also have "\<dots> = min (seconds 1 * 2 ^ nat ((if m < 1 then 1 else m) - 1)) (minutes 5)"
      by (rule backoff_loop_closed) simp
    finally show ?thesis by (cases "m < 1") simp_all
  qed
  have bound: "backoff_loop c a b < minutes 10" if "0 < b" "b < minutes 10" for c a b
    using that
  proof (induction c a b rule: backoff_loop.induct)
    case (1 c a b)
    show ?case
    proof (cases "c < a \<and> b < minutes 5")
      case True
      then show ?thesis using 1 by (simp add: backoff_loop.simps[of c a b])
    next
      case False
      then have "backoff_loop c a b = b" by (subst backoff_loop.simps) auto
      then show ?thesis using "1.prems" by simp
    qed
  qed
  have one: "(1::int) \<le> 2 ^ nat (n - 1)" by simp
  have "(2::int) ^ nat (n - 1) \<le> 2 ^ nat (n + 1 - 1)" by (rule power_increasing) auto
  then have mono: "exponentialBackoff n \<le> exponentialBackoff (n + 1)"
    unfolding c by (intro min.mono mult_left_mono) auto
  moreover have "seconds 1 \<le> exponentialBackoff n" unfolding c using one by (simp add: min_def)
  moreover have "backoff_loop 1 (if n < 1 then 1 else n) (seconds 1) < minutes 10" by (rule bound) auto
  ultimately show ?thesis using c[of n] by simp
qed

section \<open>Classification of errors\<close>

text \<open>The errors \<open>errors.As\<close> looks at, in its order.\<close>

fun err_chain :: "err \<Rightarrow> err list" where
  "err_chain (Wrapped p e q) = Wrapped p e q # err_chain e"
| "err_chain (PermanentError e) = PermanentError e # err_chain e"
| "err_chain (UncertainError e) = UncertainError e # err_chain e"
| "err_chain (Joined d e) = Joined d e # err_chain d @ err_chain e"
| "err_chain (UncertainActionError e) = UncertainActionError e # err_chain e"
| "err_chain (ProtocolError e) = ProtocolError e # err_chain e"
| "err_chain e = [e]"

definition isPermanent :: "err \<Rightarrow> bool" where
  "isPermanent e = list_ex (\<lambda>x. case x of PermanentError _ \<Rightarrow> True | _ \<Rightarrow> False) (err_chain e)"

definition isUncertain :: "err \<Rightarrow> bool" where
  "isUncertain e = list_ex (\<lambda>x. case x of UncertainError _ \<Rightarrow> True | _ \<Rightarrow> False) (err_chain e)"

text \<open>\<open>Permanent\<close> and \<open>Uncertain\<close>; \<open>None\<close> is a nil error.\<close>

definition Permanent :: "err option \<Rightarrow> err option" where
  "Permanent e = (case e of None \<Rightarrow> None | Some e \<Rightarrow> Some (PermanentError e))"

definition Uncertain :: "err option \<Rightarrow> err option" where
  "Uncertain e = (case e of None \<Rightarrow> None | Some e \<Rightarrow> Some (UncertainError e))"

section \<open>Finalization\<close>

text \<open>
  \<open>retryFinalization\<close>: up to three calls of \<open>finalize\<close>; \<open>expired n\<close> says that the finalize
  context ended while the timer after call \<open>n\<close> was running.
\<close>

function retry_loop :: "nat \<Rightarrow> (nat \<Rightarrow> bool) \<Rightarrow> (nat \<Rightarrow> unit prog) \<Rightarrow> unit prog" where
  "retry_loop attempt expired finalize w = (case finalize attempt w of
      (Inr u, w1) \<Rightarrow> (Inr u, w1)
    | (Inl e, w1) \<Rightarrow>
        if err_is e ErrInvalidTransition then (Inl e, w1)
        else if 2 \<le> attempt then (Inl e, w1)
        else if expired attempt then (Inl (Joined e DeadlineExceeded), w1)
        else retry_loop (attempt + 1) expired finalize w1)"
  by pat_completeness auto
termination by (relation "measure (\<lambda>(a, x, f, w). 2 - a)") auto

declare retry_loop.simps [simp del]

definition retryFinalization :: "(nat \<Rightarrow> bool) \<Rightarrow> (nat \<Rightarrow> unit prog) \<Rightarrow> unit prog" where
  "retryFinalization expired finalize = retry_loop 0 expired finalize"

section \<open>The worker\<close>

record runtime_queue =
  rq_claim_one :: "job prog"
  rq_succeed :: "nat \<Rightarrow> job \<Rightarrow> result \<Rightarrow> unit prog"    \<comment> \<open>the call number, its clock may differ\<close>
  rq_fail :: "nat \<Rightarrow> job \<Rightarrow> failure_input \<Rightarrow> unit prog"

text \<open>What \<open>Execute\<close> returned and which contexts had ended when it did.\<close>

record execution =
  ex_outcome :: "err + result"
  ex_execution_ended :: bool
  ex_action_ended :: bool

record worker =
  wk_queue :: "runtime_queue option"
  wk_executor :: "(job \<Rightarrow> execution) option"
  wk_poll_interval :: duration
  wk_retry_backoff :: "int \<Rightarrow> duration"
  wk_execution_timeout :: duration
  wk_on_error :: bool                              \<comment> \<open>there is an error handler\<close>

definition NewWorker :: "runtime_queue option \<Rightarrow> (job \<Rightarrow> execution) option \<Rightarrow> worker" where
  "NewWorker q x = \<lparr>wk_queue = q, wk_executor = x, wk_poll_interval = seconds 1,
     wk_retry_backoff = exponentialBackoff, wk_execution_timeout = minutes 5, wk_on_error = False\<rparr>"

definition WithExecutionTimeout :: "duration \<Rightarrow> worker \<Rightarrow> worker" where
  "WithExecutionTimeout d w = (if d > 0 then w\<lparr>wk_execution_timeout := d\<rparr> else w)"

definition WithErrorHandler :: "bool \<Rightarrow> worker \<Rightarrow> worker" where
  "WithErrorHandler handler w = w\<lparr>wk_on_error := handler\<rparr>"

definition WithPollInterval :: "duration \<Rightarrow> worker \<Rightarrow> worker" where
  "WithPollInterval d w = (if d > 0 then w\<lparr>wk_poll_interval := d\<rparr> else w)"

definition WithRetryBackoff :: "(int \<Rightarrow> duration) option \<Rightarrow> worker \<Rightarrow> worker" where
  "WithRetryBackoff b w = (case b of None \<Rightarrow> w | Some f \<Rightarrow> w\<lparr>wk_retry_backoff := f\<rparr>)"

definition no_worker_parts :: err where
  "no_worker_parts = Plain ''job worker requires a queue and executor''"

text \<open>The last part of \<open>runOnce\<close>, for an execution that failed.\<close>

definition finish_failed ::
  "(rune \<Rightarrow> rune) \<Rightarrow> (nat \<Rightarrow> bool) \<Rightarrow> worker \<Rightarrow> runtime_queue \<Rightarrow> job \<Rightarrow> err \<Rightarrow> world
     \<Rightarrow> (bool \<times> err option) \<times> world" where
  "finish_failed ul expired wk q j e w =
     (let failure = \<lparr>fi_message = safeFailureMessage ul e,
            fi_backoff = wk_retry_backoff wk (j_attempts j), fi_permanent = isPermanent e\<rparr> in
      case retryFinalization expired (\<lambda>n. rq_fail q n j failure) w of
        (Inr u, w1) \<Rightarrow> ((True, None), w1)
      | (Inl e', w1) \<Rightarrow> ((True, Some (Wrapped ''mark job failed: '' e' [])), w1))"

text \<open>\<open>runOnce\<close>: the two return values, whether a job was worked on and the error.\<close>

definition runOnce ::
  "(rune \<Rightarrow> rune) \<Rightarrow> (string \<Rightarrow> bool) \<Rightarrow> (nat \<Rightarrow> bool) \<Rightarrow> worker \<Rightarrow> world \<Rightarrow> (bool \<times> err option) \<times> world"
where
  "runOnce ul float_ok expired wk w = (case (wk_queue wk, wk_executor wk) of
     (Some q, Some execute) \<Rightarrow>
       (case rq_claim_one q w of
          (Inl e, w1) \<Rightarrow>
            (if err_is e ErrNoJob then ((False, None), w1)
             else ((False, Some (Wrapped ''claim job: '' e [])), w1))
        | (Inr j, w1) \<Rightarrow>
            (let x = execute j in
             case ex_outcome x of
               Inl e \<Rightarrow>
                 (if ex_execution_ended x \<or> ex_action_ended x \<or> isUncertain e then ((True, None), w1)
                  else finish_failed ul expired wk q j e w1)
             | Inr r \<Rightarrow>
                 (case normalizeResult ul float_ok r of
                    Inl e \<Rightarrow> finish_failed ul expired wk q j e w1
                  | Inr r' \<Rightarrow> 
                      (case retryFinalization expired (\<lambda>n. rq_succeed q n j r') w1 of
                         (Inr u, w2) \<Rightarrow> ((True, None), w2)
                       | (Inl e, w2) \<Rightarrow> ((True, Some (Wrapped ''mark job succeeded: '' e [])), w2)))))
   | _ \<Rightarrow> ((False, Some no_worker_parts), w))"

section \<open>The loop\<close>

text \<open>
  One round of \<open>RunWithExecutionContext\<close>: what \<open>claimContext.Err()\<close> says before \<open>runOnce\<close> and
  after it, and whether the context ended before the poll timer fired; the queue and the executor of
  the worker as they behave in that round (its token, its clock, its locks, its timers); and what
  others did to the database before it. \<open>run_loop\<close> is the loop over the given rounds: what it
  returned (\<open>None\<close>: it is still running, \<open>Some None\<close>: nil), the errors it handed to the error
  handler, the number of rounds after which it waited for the timer to fire, and the database.
\<close>

record round_input =
  rd_cancelled :: bool
  rd_cancelled_after :: bool
  rd_cancelled_waiting :: bool
  rd_queue :: runtime_queue
  rd_execute :: "job \<Rightarrow> execution"
  rd_expired :: "nat \<Rightarrow> bool"
  rd_others :: "world \<Rightarrow> world"

definition round_once ::
  "(rune \<Rightarrow> rune) \<Rightarrow> (string \<Rightarrow> bool) \<Rightarrow> worker \<Rightarrow> round_input \<Rightarrow> world \<Rightarrow> (bool \<times> err option) \<times> world" where
  "round_once ul float_ok wk r w = runOnce ul float_ok (rd_expired r)
     (wk\<lparr>wk_queue := Some (rd_queue r), wk_executor := Some (rd_execute r)\<rparr>) (rd_others r w)"

fun run_loop ::
  "(rune \<Rightarrow> rune) \<Rightarrow> (string \<Rightarrow> bool) \<Rightarrow> worker \<Rightarrow> round_input list \<Rightarrow> world
     \<Rightarrow> err option option \<times> err list \<times> nat \<times> world" where
  "run_loop ul float_ok wk [] w = (None, [], 0, w)"
| "run_loop ul float_ok wk (r # rs) w =
     (if rd_cancelled r then (Some None, [], 0, w)
      else (case round_once ul float_ok wk r w of ((worked, e), w1) \<Rightarrow>
        if e \<noteq> None \<and> rd_cancelled_after r then (Some None, [], 0, w1)
        else (let reported = (case e of None \<Rightarrow> [] | Some x \<Rightarrow> if wk_on_error wk then [x] else []) in
          if worked \<and> e = None then run_loop ul float_ok wk rs w1
          else if rd_cancelled_waiting r then (Some None, reported, 0, w1)
          else (case run_loop ul float_ok wk rs w1 of (ret, es, waits, w2) \<Rightarrow>
            (ret, reported @ es, Suc waits, w2)))))"

definition RunWithExecutionContext ::
  "(rune \<Rightarrow> rune) \<Rightarrow> (string \<Rightarrow> bool) \<Rightarrow> worker \<Rightarrow> round_input list \<Rightarrow> world
     \<Rightarrow> err option option \<times> err list \<times> nat \<times> world" where
  "RunWithExecutionContext ul float_ok wk rs w =
     (if wk_queue wk = None \<or> wk_executor wk = None then (Some (Some no_worker_parts), [], 0, w)
      else run_loop ul float_ok wk rs w)"

section \<open>The executor of the panel\<close>

record agent_result =
  ag_status :: string
  ag_data :: "(err + string) option"       \<comment> \<open>nil, or what \<open>json.Marshal\<close> returns for it\<close>
  ag_logs :: "(string \<times> string) list"

definition job_executor :: "err + agent_result \<Rightarrow> err + result" where
  "job_executor answer = (case answer of
     Inl e \<Rightarrow>
       (if list_ex (\<lambda>x. case x of UncertainActionError _ \<Rightarrow> True | _ \<Rightarrow> False) (err_chain e)
        then Inl (UncertainError e)
        else if list_ex (\<lambda>x. case x of ProtocolError _ \<Rightarrow> True | _ \<Rightarrow> False) (err_chain e)
        then Inl (PermanentError e)
        else (case List.find (\<lambda>x. case x of RemoteActionError _ _ \<Rightarrow> True | _ \<Rightarrow> False) (err_chain e) of
                Some (RemoteActionError n c) \<Rightarrow>
                  if 400 \<le> n \<and> n < 500 \<and> n \<noteq> 408 \<and> n \<noteq> 429 then Inl (PermanentError e) else Inl e
              | _ \<Rightarrow> Inl e))
   | Inr r \<Rightarrow>
       (let logs = map (\<lambda>(l, msg). \<lparr>lg_id = 0, lg_level = l, lg_message = msg, lg_created_at = zero_time\<rparr>) (ag_logs r) in
        case ag_data r of
          None \<Rightarrow> Inr \<lparr>rs_code = ag_status r, rs_data = [CHR 0x7B, CHR 0x7D], rs_logs = logs\<rparr>
        | Some (Inl _) \<Rightarrow> Inl (PermanentError (Plain ''agent returned invalid result data''))
        | Some (Inr data) \<Rightarrow> Inr \<lparr>rs_code = ag_status r, rs_data = data, rs_logs = logs\<rparr>))"

section \<open>Finishing a claim takes effect at most once\<close>

text \<open>The contract of a finishing call, as the worker relies on it: it takes effect only while
  the claim is held and then gives the claim up; an error without a lost reply has no effect.\<close>

locale finalizer =
  fixes fin :: "nat \<Rightarrow> unit prog" and claimed :: "tables \<Rightarrow> bool"
  assumes change_claimed: "w_tables (snd (fin n w)) \<noteq> w_tables w \<Longrightarrow>
      claimed (w_tables w) \<and> \<not> claimed (w_tables (snd (fin n w)))"
    and ok_claimed: "fin n w = (Inr (), w') \<Longrightarrow> claimed (w_tables w) \<and> \<not> claimed (w_tables w')"
    and error_unchanged: "fin n w = (Inl e, w') \<Longrightarrow> no_loss w \<Longrightarrow> w_tables w' = w_tables w \<and> no_loss w'"
begin

abbreviation applied :: "world \<Rightarrow> world \<Rightarrow> bool" where
  "applied w w' \<equiv> claimed (w_tables w) \<and> \<not> claimed (w_tables w')
     \<and> (\<exists>n w1. w_tables w1 = w_tables w \<and> w_tables w' = w_tables (snd (fin n w1)))"

lemma one_call: "fin n w = (r, w1) \<Longrightarrow> w_tables w1 = w_tables w \<or> applied w w1"
  using change_claimed[of n w] by (cases "w_tables w1 = w_tables w") (auto intro!: exI[of _ n] exI[of _ w])

lemma applied_left: "w_tables w1 = w_tables w \<Longrightarrow> applied w1 w' \<Longrightarrow> applied w w'"
  by simp

lemma applied_right: "w_tables w' = w_tables w1 \<Longrightarrow> applied w w1 \<Longrightarrow> applied w w'"
  by simp

lemma retry_step:
  assumes "retry_loop a expired fin w = (r, w')" and "fin a w = (r1, w1)"
  shows "w' = w1 \<and> (r = Inr () \<longrightarrow> r1 = Inr ())
     \<or> (\<exists>e. r1 = Inl e) \<and> a < 2 \<and> retry_loop (Suc a) expired fin w1 = (r, w')"
proof (cases r1)
  case (Inl e)
  have "(if err_is e ErrInvalidTransition then (Inl e, w1)
        else if 2 \<le> a then (Inl e, w1)
        else if expired a then (Inl (Joined e DeadlineExceeded), w1)
        else retry_loop (a + 1) expired fin w1) = (r, w')"
    using assms Inl by (simp add: retry_loop.simps[of a expired fin w])
  then show ?thesis using Inl by (auto split: if_split_asm)
next
  case (Inr u)
  then show ?thesis using assms by (simp add: retry_loop.simps[of a expired fin w])
qed

lemma retry_error_first:
  "retry_loop a expired fin w = (Inl e, w') \<Longrightarrow> fin a w = (r1, w1) \<Longrightarrow> \<exists>e1. r1 = Inl e1"
  by (cases r1) (simp_all add: retry_loop.simps[of a expired fin w])

lemma retry_once:
  "retry_loop a expired fin w = (r, w') \<Longrightarrow> w_tables w' = w_tables w \<or> applied w w'"
proof (induction "2 - a" arbitrary: a w)
  case 0
  obtain r1 w1 where f: "fin a w = (r1, w1)" by fastforce
  then have "w' = w1" using retry_step[OF 0(2) f] 0(1) by auto
  then show ?case using one_call[OF f] by simp
next
  case (Suc k)
  obtain r1 w1 where f: "fin a w = (r1, w1)" by fastforce
  consider "w' = w1" | "retry_loop (Suc a) expired fin w1 = (r, w')" using retry_step[OF Suc(3) f] by auto
  then show ?case
  proof cases
    case 1
    then show ?thesis using one_call[OF f] by simp
  next
    case 2
    have ih: "w_tables w' = w_tables w1 \<or> applied w1 w'" by (rule Suc(1)[OF _ 2]) (use Suc(2) in simp)
    then show ?thesis using one_call[OF f] applied_left applied_right by metis
  qed
qed

lemma retry_ok: "retry_loop a expired fin w = (Inr (), w') \<Longrightarrow> applied w w'"
proof (induction "2 - a" arbitrary: a w)
  case 0
  obtain r1 w1 where f: "fin a w = (r1, w1)" by fastforce
  then have "w' = w1 \<and> r1 = Inr ()" using retry_step[OF 0(2) f] 0(1) by auto
  then show ?case using ok_claimed[of a w w1] f by (metis snd_conv)
next
  case (Suc k)
  obtain r1 w1 where f: "fin a w = (r1, w1)" by fastforce
  consider "w' = w1" "r1 = Inr ()" | "retry_loop (Suc a) expired fin w1 = (Inr (), w')"
    using retry_step[OF Suc(3) f] by auto
  then show ?case
  proof cases
    case 1
    then show ?thesis using ok_claimed[of a w w1] f by (metis snd_conv)
  next
    case 2
    have "applied w1 w'" by (rule Suc(1)[OF _ 2]) (use Suc(2) in simp)
    then show ?thesis using one_call[OF f] applied_left by metis
  qed
qed

text \<open>Without lost replies a success is that of the last call, on the tables the loop began with.\<close>

lemma retry_ok_call:
  "retry_loop a expired fin w = (Inr (), w') \<Longrightarrow> no_loss w \<Longrightarrow>
     \<exists>n w1. fin n w1 = (Inr (), w') \<and> w_tables w1 = w_tables w"
proof (induction "2 - a" arbitrary: a w)
  case 0
  obtain r1 w1 where f: "fin a w = (r1, w1)" by fastforce
  then have "w' = w1 \<and> r1 = Inr ()" using retry_step[OF 0(2) f] 0(1) by auto
  then show ?case using f by blast
next
  case (Suc k)
  obtain r1 w1 where f: "fin a w = (r1, w1)" by fastforce
  consider "w' = w1" "r1 = Inr ()" | e where "r1 = Inl e" "retry_loop (Suc a) expired fin w1 = (Inr (), w')"
    using retry_step[OF Suc(3) f] by auto
  then show ?case
  proof cases
    case 1
    then show ?thesis using f by blast
  next
    case 2
    have u: "w_tables w1 = w_tables w \<and> no_loss w1" using error_unchanged f 2(1) Suc(4) by blast
    have "\<exists>n w2. fin n w2 = (Inr (), w') \<and> w_tables w2 = w_tables w1"
      by (rule Suc(1)[OF _ 2(2)]) (use Suc(2) u in auto)
    then show ?thesis using u by simp
  qed
qed

lemma retry_error:
  "retry_loop a expired fin w = (Inl e, w') \<Longrightarrow> no_loss w \<Longrightarrow> w_tables w' = w_tables w"
proof (induction "2 - a" arbitrary: a w e)
  case 0
  obtain r1 w1 where f: "fin a w = (r1, w1)" by fastforce
  have "w' = w1" using retry_step[OF 0(2) f] 0(1) by auto
  moreover have "\<exists>e. r1 = Inl e" by (rule retry_error_first[OF 0(2) f])
  ultimately show ?case using error_unchanged f 0(3) by metis
next
  case (Suc k)
  obtain r1 w1 where f: "fin a w = (r1, w1)" by fastforce
  obtain e1 where r1: "r1 = Inl e1" using retry_error_first[OF Suc(3) f] by blast
  then have u: "w_tables w1 = w_tables w \<and> no_loss w1" using error_unchanged f Suc(4) by blast
  consider "w' = w1" | "retry_loop (Suc a) expired fin w1 = (Inl e, w')" using retry_step[OF Suc(3) f] by auto
  then show ?case
  proof cases
    case 1
    then show ?thesis using u by simp
  next
    case 2
    have "w_tables w' = w_tables w1" by (rule Suc(1)[OF _ 2]) (use Suc(2) u in auto)
    then show ?thesis using u by simp
  qed
qed

end

text \<open>The queue over the SQL store keeps the contract.\<close>

definition claimed_by :: "pg \<Rightarrow> job \<Rightarrow> tables \<Rightarrow> bool" where
  "claimed_by pg j t = (\<exists>i k. uuid_in pg (j_id j) = Some i \<and> uuid_in pg (j_claim_token j) = Some k
     \<and> (\<exists>r \<in> set (t_jobs t). owns i k r))"

lemma finish_body:
  assumes "bindp (stmt (with_claim pg j f)) (\<lambda>n. bindp (requireUpdatedRow n) (\<lambda>_. rest)) w1 = (Inr b, w2)"
    and "keeps_jobs rest"
    and "\<And>i k t n t'. f i k t = Inr (n, t') \<Longrightarrow>
      \<exists>g. (\<forall>x. jr_claim_token (g x) = None) \<and> update_jobs (owns i k) g t = Inr (n, t')"
  shows "claimed_by pg j (w_tables w1) \<and> \<not> claimed_by pg j (w_tables w2)"
proof -
  obtain n u wa wb where 1: "stmt (with_claim pg j f) w1 = (Inr n, wa)"
    and 2: "requireUpdatedRow n wa = (Inr u, wb)" and 3: "rest wb = (Inr b, w2)"
    using assms(1) by (auto simp: bindp_Inr)
  obtain i k r g where ik: "uuid_in pg (j_id j) = Some i" "uuid_in pg (j_claim_token j) = Some k"
    and hit: "filter (owns i k) (jobs_of w1) = [r]" and g: "\<forall>x. jr_claim_token (g x) = None"
    and wb: "w_tables wb = (w_tables w1)\<lparr>t_jobs := upd_where (owns i k) g (jobs_of w1)\<rparr>"
    using claimed_update[OF 1 2 assms(3)] by blast
  have "jobs_of w2 = upd_where (owns i k) g (jobs_of w1)"
    using assms(2) 3 wb unfolding preserves_def by (metis snd_conv tables.select_convs(9) tables.surjective tables.update_convs(9))
  then have "\<not> owns i k x" if "x \<in> set (jobs_of w2)" for x
    using that g by (auto simp: owns_def elim!: in_upd_whereE)
  moreover have "r \<in> set (jobs_of w1) \<and> owns i k r"
    using arg_cong[OF hit, of set] by auto
  ultimately show ?thesis using ik by (auto simp: claimed_by_def)
qed

lemma finish_tx:
  assumes "\<And>w1 b w2. body w1 = (Inr b, w2) \<Longrightarrow> claimed (w_tables w1) \<and> \<not> claimed (w_tables w2)"
    and "commits body"
  shows "w_tables (snd (tx body w)) \<noteq> w_tables w \<Longrightarrow>
      claimed (w_tables w) \<and> \<not> claimed (w_tables (snd (tx body w)))"
    and "tx body w = (Inr a, w') \<Longrightarrow> claimed (w_tables w) \<and> \<not> claimed (w_tables w')"
proof -
  assume c: "w_tables (snd (tx body w)) \<noteq> w_tables w"
  then obtain w1 a w2 where "w_tables w1 = w_tables w" "body w1 = (Inr (Commit a), w2)"
      "w_tables (snd (tx body w)) = w_tables w2"
    using tx_tables[of body w] by blast
  then show "claimed (w_tables w) \<and> \<not> claimed (w_tables (snd (tx body w)))" using assms(1) by fastforce
next
  assume "tx body w = (Inr a, w')"
  then show "claimed (w_tables w) \<and> \<not> claimed (w_tables w')"
    by (rule tx_commit[OF _ assms(2)]) (use assms(1) in fastforce)
qed

lemma finish_claimed:
  assumes "keeps_jobs rest" and "commits rest"
    and "\<And>i k t n t'. f i k t = Inr (n, t') \<Longrightarrow>
      \<exists>g. (\<forall>x. jr_claim_token (g x) = None) \<and> update_jobs (owns i k) g t = Inr (n, t')"
    and p: "p = tx (bindp (stmt (with_claim pg j f)) (\<lambda>n. bindp (requireUpdatedRow n) (\<lambda>_. rest)))"
  shows "w_tables (snd (p w)) \<noteq> w_tables w \<Longrightarrow>
      claimed_by pg j (w_tables w) \<and> \<not> claimed_by pg j (w_tables (snd (p w)))"
    and "p w = (Inr a, w') \<Longrightarrow> claimed_by pg j (w_tables w) \<and> \<not> claimed_by pg j (w_tables w')"
proof -
  have c: "commits (bindp (stmt (with_claim pg j f)) (\<lambda>n. bindp (requireUpdatedRow n) (\<lambda>_. rest)))"
    by (intro commits_intros(2) assms(2))
  have b: "claimed_by pg j (w_tables w1) \<and> \<not> claimed_by pg j (w_tables w2)"
    if "bindp (stmt (with_claim pg j f)) (\<lambda>n. bindp (requireUpdatedRow n) (\<lambda>_. rest)) w1 = (Inr b, w2)"
    for w1 b w2
    by (rule finish_body[OF that assms(1)]) (rule assms(3))
  show "w_tables (snd (p w)) \<noteq> w_tables w \<Longrightarrow>
      claimed_by pg j (w_tables w) \<and> \<not> claimed_by pg j (w_tables (snd (p w)))"
    unfolding p by (rule finish_tx(1)[where claimed = "claimed_by pg j", OF b c])
  show "p w = (Inr a, w') \<Longrightarrow> claimed_by pg j (w_tables w) \<and> \<not> claimed_by pg j (w_tables w')"
    unfolding p by (rule finish_tx(2)[where claimed = "claimed_by pg j", OF b c])
qed

lemma fail_row_token: "jr_claim_token (fail_row final ret ra up fin x) = None"
  by (simp add: fail_row_def)

lemma succeed_row_token: "jr_claim_token (succeed_row code data at x) = None"
  by (simp add: succeed_row_def)

lemma succeed_finish:
  "w_tables (snd (store_mark_succeeded pg j at out w)) \<noteq> w_tables w \<Longrightarrow>
     claimed_by pg j (w_tables w) \<and> \<not> claimed_by pg j (w_tables (snd (store_mark_succeeded pg j at out w)))"
  "store_mark_succeeded pg j at out w = (Inr (), w') \<Longrightarrow>
     claimed_by pg j (w_tables w) \<and> \<not> claimed_by pg j (w_tables w')"
  by (erule finish_claimed[OF _ _ _ store_mark_succeeded_def, rotated 3];
      auto intro!: inv_intros split: option.splits intro: succeed_row_token)+

lemma fail_finish:
  "w_tables (snd (store_mark_failed pg j final ret ra up fin msg w)) \<noteq> w_tables w \<Longrightarrow>
     claimed_by pg j (w_tables w) \<and> \<not> claimed_by pg j (w_tables (snd (store_mark_failed pg j final ret ra up fin msg w)))"
  "store_mark_failed pg j final ret ra up fin msg w = (Inr (), w') \<Longrightarrow>
     claimed_by pg j (w_tables w) \<and> \<not> claimed_by pg j (w_tables w')"
  by (erule finish_claimed[OF _ _ _ store_mark_failed_def, rotated 3];
      auto intro!: inv_intros split: option.splits intro: fail_row_token)+

lemma finish_keeps_loss:
  "keeps_no_loss (store_mark_succeeded pg j at out)"
  "keeps_no_loss (store_mark_failed pg j final ret ra up fin msg)"
  unfolding store_mark_succeeded_def store_mark_failed_def by (auto intro!: inv_intros)

lemma finish_error:
  "store_mark_succeeded pg j at out w = (Inl e, w') \<Longrightarrow> no_loss w \<Longrightarrow> w_tables w' = w_tables w \<and> no_loss w'"
  "store_mark_failed pg j final ret ra up fin msg w = (Inl e, w') \<Longrightarrow> no_loss w \<Longrightarrow> w_tables w' = w_tables w \<and> no_loss w'"
proof -
  assume a: "store_mark_succeeded pg j at out w = (Inl e, w')" and n: "no_loss w"
  have "w_tables w' = w_tables w"
    by (rule tx_error[OF a[unfolded store_mark_succeeded_def] n]) (auto intro!: inv_intros)
  moreover have "no_loss w'"
    using finish_keeps_loss(1)[of pg j at out] a n unfolding keeps_no_loss_def by (metis snd_conv)
  ultimately show "w_tables w' = w_tables w \<and> no_loss w'" by simp
next
  assume a: "store_mark_failed pg j final ret ra up fin msg w = (Inl e, w')" and n: "no_loss w"
  have "w_tables w' = w_tables w"
    by (rule tx_error[OF a[unfolded store_mark_failed_def] n]) (auto intro!: inv_intros)
  moreover have "no_loss w'"
    using finish_keeps_loss(2)[of pg j final ret ra up fin msg] a n
    unfolding keeps_no_loss_def by (metis snd_conv)
  ultimately show "w_tables w' = w_tables w \<and> no_loss w'" by simp
qed

text \<open>Both finishing calls of the queue, at any clock, are finalizers.\<close>

interpretation sql_succeed: finalizer
  "\<lambda>n. q_succeed ul ok (sql_queue pg c token d newid (clock n)) j out" "claimed_by pg j"
  for ul ok pg c token d newid and clock :: "nat \<Rightarrow> queue_sys" and j out
  by unfold_locales
    (use succeed_finish finish_error in \<open>auto simp: q_succeed_def failp_def split: if_splits sum.splits\<close>)

interpretation sql_fail: finalizer
  "\<lambda>n. q_fail ul (sql_queue pg c token d newid (clock n)) j f" "claimed_by pg j"
  for ul pg c token d newid and clock :: "nat \<Rightarrow> queue_sys" and j f
  by unfold_locales
    (use fail_finish finish_error in \<open>auto simp: q_fail_def failp_def Let_def split: if_splits\<close>)

definition sql_runtime ::
  "(rune \<Rightarrow> rune) \<Rightarrow> (string \<Rightarrow> bool) \<Rightarrow> pg \<Rightarrow> contention \<Rightarrow> string \<Rightarrow> duration \<Rightarrow> err + string
     \<Rightarrow> queue_sys \<Rightarrow> (nat \<Rightarrow> queue_sys) \<Rightarrow> runtime_queue" where
  "sql_runtime ul ok pg c token d newid s clock = \<lparr>
     rq_claim_one = q_claim_one (sql_queue pg c token d newid s),
     rq_succeed = (\<lambda>n. q_succeed ul ok (sql_queue pg c token d newid (clock n))),
     rq_fail = (\<lambda>n. q_fail ul (sql_queue pg c token d newid (clock n)))\<rparr>"

definition undecided :: "execution \<Rightarrow> bool" where
  "undecided x = (case ex_outcome x of Inr _ \<Rightarrow> False
     | Inl e \<Rightarrow> ex_execution_ended x \<or> ex_action_ended x \<or> isUncertain e)"

lemma finish_failed_sql:
  assumes "finish_failed ul expired wk (sql_runtime ul ok pg c token d newid s clock) j e w1 = ((worked, e'), w')"
  shows "worked \<and> (w_tables w' = w_tables w1 \<or> claimed_by pg j (w_tables w1) \<and> \<not> claimed_by pg j (w_tables w'))
    \<and> (e' = None \<longrightarrow> claimed_by pg j (w_tables w1) \<and> \<not> claimed_by pg j (w_tables w'))
    \<and> (e' \<noteq> None \<and> no_loss w1 \<longrightarrow> w_tables w' = w_tables w1)"
proof -
  let ?f = "\<lparr>fi_message = safeFailureMessage ul e, fi_backoff = wk_retry_backoff wk (j_attempts j),
      fi_permanent = isPermanent e\<rparr>"
  let ?fin = "\<lambda>n. q_fail ul (sql_queue pg c token d newid (clock n)) j ?f"
  obtain r w2 where l: "retry_loop 0 expired ?fin w1 = (r, w2)" by fastforce
  have w: "w' = w2" "worked" "e' = None \<longleftrightarrow> (\<exists>u. r = Inr u)"
    using assms l by (auto simp: finish_failed_def retryFinalization_def sql_runtime_def Let_def split: sum.splits)
  have ok: "claimed_by pg j (w_tables w1) \<and> \<not> claimed_by pg j (w_tables w2)" if "r = Inr ()"
    using sql_fail.retry_ok[OF l[unfolded that]] by blast
  show ?thesis
    using w ok sql_fail.retry_once[OF l] sql_fail.retry_error[of 0 expired _ _ _ _ _ _ clock j ?f w1 _ w2] l
    by (cases r) auto
qed

text \<open>C32. One pass of the worker over the SQL queue decides a claimed job at most once, whatever
  the executor answers, however often finalization is retried and whatever the database
  replies: when the outcome is uncertain (the execution was cancelled or timed out, or the
  request may have been acted on) the database stays exactly as the claim left it, so the lease
  recovers the job; otherwise either nothing changed or the claim was held and is given up; when
  the pass reports no error the claim was decided, and when it reports one (and no reply was
  lost) nothing changed.\<close>

theorem run_once_decides_once:
  assumes "q_claim_one (sql_queue pg c token d newid s) w = (Inr j, w1)"
    and "wk_queue wk = Some (sql_runtime ul ok pg c token d newid s clock)"
    and "wk_executor wk = Some execute"
    and "runOnce ul ok expired wk w = ((worked, e), w')"
  shows "worked
    \<and> (undecided (execute j) \<longrightarrow> w' = w1 \<and> e = None)
    \<and> (w_tables w' = w_tables w1 \<or> claimed_by pg j (w_tables w1) \<and> \<not> claimed_by pg j (w_tables w'))
    \<and> (e = None \<and> \<not> undecided (execute j) \<longrightarrow>
         claimed_by pg j (w_tables w1) \<and> \<not> claimed_by pg j (w_tables w'))
    \<and> (e \<noteq> None \<and> no_loss w1 \<longrightarrow> w_tables w' = w_tables w1)"
proof (cases "ex_outcome (execute j)")
  case (Inl er)
  have cl: "rq_claim_one (sql_runtime ul ok pg c token d newid s clock) w = (Inr j, w1)"
    using assms(1) by (simp add: sql_runtime_def)
  show ?thesis
  proof (cases "undecided (execute j)")
    case True
    then have "((worked, e), w') = ((True, None), w1)"
      using assms(2-4) Inl cl by (auto simp: runOnce_def undecided_def Let_def)
    then show ?thesis using True by simp
  next
    case False
    then have "finish_failed ul expired wk (sql_runtime ul ok pg c token d newid s clock) j er w1 = ((worked, e), w')"
      using assms(2-4) Inl cl by (auto simp: runOnce_def undecided_def Let_def)
    then show ?thesis using finish_failed_sql False by blast
  qed
next
  case (Inr r)
  have cl: "rq_claim_one (sql_runtime ul ok pg c token d newid s clock) w = (Inr j, w1)"
    using assms(1) by (simp add: sql_runtime_def)
  have u: "\<not> undecided (execute j)" using Inr by (simp add: undecided_def)
  show ?thesis
  proof (cases "normalizeResult ul ok r")
    case (Inl er)
    then have "finish_failed ul expired wk (sql_runtime ul ok pg c token d newid s clock) j er w1 = ((worked, e), w')"
      using assms(2-4) Inr cl by (simp add: runOnce_def Let_def)
    then show ?thesis using finish_failed_sql u by blast
  next
    case norm: (Inr r')
    let ?fin = "\<lambda>n. q_succeed ul ok (sql_queue pg c token d newid (clock n)) j r'"
    obtain res w2 where l: "retry_loop 0 expired ?fin w1 = (res, w2)" by fastforce
    have w: "w' = w2" "worked" "e = None \<longleftrightarrow> (\<exists>u. res = Inr u)"
      using assms(2-4) Inr norm cl l
      by (auto simp: runOnce_def retryFinalization_def sql_runtime_def Let_def split: sum.splits)
    have ok: "claimed_by pg j (w_tables w1) \<and> \<not> claimed_by pg j (w_tables w2)" if "res = Inr ()"
      using sql_succeed.retry_ok[OF l[unfolded that]] by blast
    show ?thesis
      using w ok u sql_succeed.retry_once[OF l] sql_succeed.retry_error[of 0 expired _ _ _ _ _ _ _ clock j r' w1 _ w2] l
      by (cases res) auto
  qed
qed

definition demo_worker :: worker where
  "demo_worker = NewWorker
     (Some (sql_runtime id (\<lambda>_. True) plain_pg free ''t'' 0 (Inr ''x'') two_jobs_sys (\<lambda>_. two_jobs_sys)))
     (Some (\<lambda>_. \<lparr>ex_outcome = Inl (UncertainError Canceled), ex_execution_ended = False, ex_action_ended = False\<rparr>))"

theorem run_once_decides_once_witness:
  "map jr_status (jobs_of (snd (runOnce id (\<lambda>_. True) (\<lambda>_. False) demo_worker two_jobs))) = [Running, Queued]"
proof -
  let ?Q = "sql_queue plain_pg free ''t'' 0 (Inr ''x'') two_jobs_sys"
  obtain j w1 where c: "q_claim_one ?Q two_jobs = (Inr j, w1)"
    using claim_takes_earliest_demo by blast
  obtain worked e w' where r: "runOnce id (\<lambda>_. True) (\<lambda>_. False) demo_worker two_jobs = ((worked, e), w')"
    by (metis prod.exhaust)
  have "w' = w1"
    using run_once_decides_once[OF c, of demo_worker id "\<lambda>_. True" "\<lambda>_. two_jobs_sys" _ "\<lambda>_. False" worked e w'] r
    by (simp add: demo_worker_def NewWorker_def undecided_def isUncertain_def)
  moreover have "jobs_of w1 = [claim_row 10 (10 + minutes 10) ''t'' (queued_row ''a''), queued_row ''b'']"
    using two_jobs_claim c by simp
  ultimately show ?thesis using r by (simp add: claim_row_def queued_row_def)
qed

text \<open>What the rounds return when each of them is run, and the database after them.\<close>

fun all_rounds ::
  "(rune \<Rightarrow> rune) \<Rightarrow> (string \<Rightarrow> bool) \<Rightarrow> worker \<Rightarrow> round_input list \<Rightarrow> world
     \<Rightarrow> (bool \<times> err option) list \<times> world" where
  "all_rounds ul float_ok wk [] w = ([], w)"
| "all_rounds ul float_ok wk (r # rs) w = (case round_once ul float_ok wk r w of (out, w1) \<Rightarrow>
     (case all_rounds ul float_ok wk rs w1 of (outs, w2) \<Rightarrow> (out # outs, w2)))"

definition undisturbed :: "round_input \<Rightarrow> bool" where
  "undisturbed r = (\<not> rd_cancelled r \<and> \<not> rd_cancelled_after r \<and> \<not> rd_cancelled_waiting r)"

lemma run_loop_append:
  assumes "list_all undisturbed rs" and "all_rounds ul ok wk rs w = (outs, w1)"
  shows "run_loop ul ok wk (rs @ rs') w = (case run_loop ul ok wk rs' w1 of (ret, es, waits, w2) \<Rightarrow>
    (ret, (if wk_on_error wk then List.map_filter snd outs else []) @ es,
     length (filter (\<lambda>(worked, e). \<not> worked \<or> e \<noteq> None) outs) + waits, w2))"
  using assms
proof (induction rs arbitrary: w outs)
  case Nil
  then show ?case by (simp add: List.map_filter_def)
next
  case (Cons r rs)
  obtain worked e wa where r: "round_once ul ok wk r w = ((worked, e), wa)" by (metis prod.exhaust)
  obtain os where o: "all_rounds ul ok wk rs wa = (os, w1)" "outs = (worked, e) # os"
    using Cons.prems(2) r by (auto split: prod.splits)
  have "list_all undisturbed rs" using Cons.prems(1) by simp
  from Cons.IH[OF this o(1)] show ?case
    using Cons.prems(1) r o(2)
    by (cases e) (auto simp: undisturbed_def Let_def List.map_filter_def split: prod.split)
qed

lemma run_loop_returns:
  "fst (run_loop ul ok wk rs w) \<noteq> None \<Longrightarrow> fst (run_loop ul ok wk rs w) = Some None \<and> \<not> list_all undisturbed rs"
proof (induction rs arbitrary: w)
  case (Cons r rs)
  obtain worked e w1 where "round_once ul ok wk r w = ((worked, e), w1)" by (metis prod.exhaust)
  then show ?case using Cons.prems Cons.IH[of w1]
    by (auto simp: undisturbed_def Let_def split: if_splits prod.splits)
qed simp

text \<open>C33. Errors never stop the worker. Without a queue or an executor the loop returns its error at
  once and touches nothing. Else, over any rounds of \<open>runOnce\<close> on the database in which the claim
  context is not cancelled, the loop does not return: it runs every round, hands every error to the
  error handler, if there is one, in order, and waits for the poll timer exactly after the rounds
  that were idle or failed; a cancellation before the next round makes it return nil without another
  one; and it never returns anything but nil, and only in rounds with a cancellation.\<close>

theorem run_loop_survives:
  assumes "list_all (\<lambda>r. \<not> rd_cancelled r \<and> \<not> rd_cancelled_after r \<and> \<not> rd_cancelled_waiting r) rs"
    and "all_rounds ul ok wk rs w = (outs, w1)"
    and "reports = (if wk_on_error wk then List.map_filter snd outs else [])"
    and "waits = length (filter (\<lambda>(worked, e). \<not> worked \<or> e \<noteq> None) outs)"
  shows "if wk_queue wk = None \<or> wk_executor wk = None
    then RunWithExecutionContext ul ok wk anyrounds w
      = (Some (Some (Plain ''job worker requires a queue and executor'')), [], 0, w)
    else RunWithExecutionContext ul ok wk rs w = (None, reports, waits, w1)
      \<and> RunWithExecutionContext ul ok wk (rs @ r\<lparr>rd_cancelled := True\<rparr> # rest) w = (Some None, reports, waits, w1)
      \<and> fst (RunWithExecutionContext ul ok wk anyrounds w) \<in> {None, Some None}
      \<and> (fst (RunWithExecutionContext ul ok wk anyrounds w) = None \<or> list_ex
           (\<lambda>r. rd_cancelled r \<or> rd_cancelled_after r \<or> rd_cancelled_waiting r) anyrounds)"
proof (cases "wk_queue wk = None \<or> wk_executor wk = None")
  case True
  then show ?thesis by (auto simp: RunWithExecutionContext_def no_worker_parts_def)
next
  case False
  have u: "list_all undisturbed rs" using assms(1) by (simp add: undisturbed_def list_all_iff)
  have "fst (run_loop ul ok wk anyrounds w) = None \<or> fst (run_loop ul ok wk anyrounds w) = Some None \<and> list_ex
      (\<lambda>r. rd_cancelled r \<or> rd_cancelled_after r \<or> rd_cancelled_waiting r) anyrounds"
    using run_loop_returns[of ul ok wk anyrounds w] by (auto simp: undisturbed_def list_all_iff list_ex_iff)
  then show ?thesis
    using False run_loop_append[OF u assms(2), of "[]"] run_loop_append[OF u assms(2), of "r\<lparr>rd_cancelled := True\<rparr> # rest"]
    by (auto simp: RunWithExecutionContext_def assms(3,4))
qed

text \<open>A round in which the database cannot be reached, and one without a job.\<close>

definition claim_fails :: "err \<Rightarrow> round_input" where
  "claim_fails e = \<lparr>rd_cancelled = False, rd_cancelled_after = False, rd_cancelled_waiting = False,
     rd_queue = \<lparr>rq_claim_one = failp e, rq_succeed = (\<lambda>_ _ _. retp ()), rq_fail = (\<lambda>_ _ _. retp ())\<rparr>,
     rd_execute = (\<lambda>_. \<lparr>ex_outcome = Inl e, ex_execution_ended = False, ex_action_ended = False\<rparr>),
     rd_expired = (\<lambda>_. True), rd_others = id\<rparr>"

theorem run_loop_survives_witness:
  "RunWithExecutionContext id (\<lambda>_. True) (WithErrorHandler True demo_worker)
     [claim_fails (DbError ''gone''), claim_fails ErrNoJob, claim_fails (DbError ''again'')] two_jobs
   = (None, [Wrapped ''claim job: '' (DbError ''gone'') [], Wrapped ''claim job: '' (DbError ''again'') []], 3, two_jobs)"
proof -
  let ?rs = "[claim_fails (DbError ''gone''), claim_fails ErrNoJob, claim_fails (DbError ''again'')]"
  let ?wk = "WithErrorHandler True demo_worker"
  have o: "all_rounds id (\<lambda>_. True) ?wk ?rs two_jobs = ([(False, Some (Wrapped ''claim job: '' (DbError ''gone'') [])),
      (False, None), (False, Some (Wrapped ''claim job: '' (DbError ''again'') []))], two_jobs)"
    by (simp add: round_once_def runOnce_def claim_fails_def failp_def)
  have p: "wk_queue ?wk \<noteq> None" "wk_executor ?wk \<noteq> None" "wk_on_error ?wk"
    by (simp_all add: WithErrorHandler_def demo_worker_def NewWorker_def)
  show ?thesis
    using run_loop_survives[OF _ o refl refl] p by (simp add: claim_fails_def List.map_filter_def)
qed

end
