(* ===== verification/Rbac.thy ===== *)
theory Rbac
  imports Store
begin

text \<open>
  \<open>internal/rbac\<close>: roles and permissions, the authorizer over any \<open>PermissionChecker\<close>, the SQL
  checker, and the rows that migration 2 seeds. A \<open>map[string]bool\<close> is a set.
\<close>

section \<open>Roles and permissions\<close>

definition RoleOwner :: string where "RoleOwner = ''owner''"
definition RoleAdmin :: string where "RoleAdmin = ''admin''"
definition RoleReseller :: string where "RoleReseller = ''reseller''"
definition RoleCustomer :: string where "RoleCustomer = ''customer''"

definition PermissionSystemAdmin :: string where "PermissionSystemAdmin = ''system:admin''"
definition PermissionSettingsManage :: string where "PermissionSettingsManage = ''settings:manage''"
definition PermissionUsersManage :: string where "PermissionUsersManage = ''users:manage''"
definition PermissionAccountsManage :: string where "PermissionAccountsManage = ''accounts:manage''"
definition PermissionWebsitesManage :: string where "PermissionWebsitesManage = ''websites:manage''"
definition PermissionDatabasesManage :: string where "PermissionDatabasesManage = ''databases:manage''"
definition PermissionDNSManage :: string where "PermissionDNSManage = ''dns:manage''"
definition PermissionMailManage :: string where "PermissionMailManage = ''mail:manage''"
definition PermissionJobsManage :: string where "PermissionJobsManage = ''jobs:manage''"
definition PermissionAuditRead :: string where "PermissionAuditRead = ''audit:read''"
definition PermissionAgentExecute :: string where "PermissionAgentExecute = ''agent:execute''"
definition PermissionBillingManage :: string where "PermissionBillingManage = ''billing:manage''"
definition PermissionResellersManage :: string where "PermissionResellersManage = ''resellers:manage''"

lemmas role_names = RoleOwner_def RoleAdmin_def RoleReseller_def RoleCustomer_def
lemmas permission_codes = PermissionSystemAdmin_def PermissionSettingsManage_def
  PermissionUsersManage_def PermissionAccountsManage_def PermissionWebsitesManage_def
  PermissionDatabasesManage_def PermissionDNSManage_def PermissionMailManage_def
  PermissionJobsManage_def PermissionAuditRead_def PermissionAgentExecute_def
  PermissionBillingManage_def PermissionResellersManage_def

record permission =
  pm_code :: string
  pm_description :: string

record role =
  ro_name :: string
  ro_description :: string
  ro_permissions :: "string list"

definition DefaultPermissions :: "permission list" where
  "DefaultPermissions = [
     \<lparr>pm_code = PermissionSystemAdmin, pm_description = ''Full system administration''\<rparr>,
     \<lparr>pm_code = PermissionSettingsManage, pm_description = ''Manage panel and server settings''\<rparr>,
     \<lparr>pm_code = PermissionUsersManage, pm_description = ''Manage panel users and access''\<rparr>,
     \<lparr>pm_code = PermissionAccountsManage, pm_description = ''Manage hosting accounts and packages''\<rparr>,
     \<lparr>pm_code = PermissionWebsitesManage, pm_description = ''Manage websites, domains, and vhosts''\<rparr>,
     \<lparr>pm_code = PermissionDatabasesManage, pm_description = ''Manage databases and database users''\<rparr>,
     \<lparr>pm_code = PermissionDNSManage, pm_description = ''Manage DNS zones and records''\<rparr>,
     \<lparr>pm_code = PermissionMailManage, pm_description = ''Manage mail domains, mailboxes, and routing''\<rparr>,
     \<lparr>pm_code = PermissionJobsManage, pm_description = ''Manage background jobs and retries''\<rparr>,
     \<lparr>pm_code = PermissionAuditRead, pm_description = ''Read audit events''\<rparr>,
     \<lparr>pm_code = PermissionAgentExecute, pm_description = ''Execute allowlisted agent actions''\<rparr>,
     \<lparr>pm_code = PermissionBillingManage, pm_description = ''Manage license, billing, and commercial settings''\<rparr>,
     \<lparr>pm_code = PermissionResellersManage, pm_description = ''Manage reseller accounts and ownership''\<rparr>]"

definition allPermissionCodes :: "string list" where
  "allPermissionCodes = map pm_code DefaultPermissions"

definition DefaultRoles :: "role list" where
  "DefaultRoles = [
     \<lparr>ro_name = RoleOwner, ro_description = ''System owner with all permissions'',
      ro_permissions = allPermissionCodes\<rparr>,
     \<lparr>ro_name = RoleAdmin, ro_description = ''Server administrator without commercial ownership controls'',
      ro_permissions = [PermissionSettingsManage, PermissionUsersManage, PermissionAccountsManage, PermissionWebsitesManage,
        PermissionDatabasesManage, PermissionDNSManage, PermissionMailManage, PermissionJobsManage,
        PermissionAuditRead, PermissionAgentExecute]\<rparr>,
     \<lparr>ro_name = RoleReseller, ro_description = ''Reseller operator for assigned customer accounts'',
      ro_permissions = [PermissionAccountsManage, PermissionWebsitesManage, PermissionDatabasesManage, PermissionDNSManage,
        PermissionMailManage]\<rparr>,
     \<lparr>ro_name = RoleCustomer, ro_description = ''Hosting customer for owned resources'',
      ro_permissions = [PermissionWebsitesManage, PermissionDatabasesManage, PermissionDNSManage, PermissionMailManage]\<rparr>]"

definition role_permissions :: "string \<rightharpoonup> string set" where
  "role_permissions = fold (\<lambda>r m. m(ro_name r \<mapsto> set (ro_permissions r))) DefaultRoles Map.empty"

definition HasPermission :: "string list \<Rightarrow> string \<Rightarrow> bool" where
  "HasPermission roleNames perm = (\<exists>r \<in> set roleNames. case role_permissions r of
      None \<Rightarrow> False | Some codes \<Rightarrow> perm \<in> codes)"

definition RoleByName :: "string \<Rightarrow> err + role" where
  "RoleByName name = (case List.find (\<lambda>r. ro_name r = name) DefaultRoles of
      Some r \<Rightarrow> Inr r | None \<Rightarrow> Inl (Wrapped [] ErrUnknownRole ('': '' @ name)))"

text \<open>\<open>ValidateDefaults\<close> over any tables of permissions and roles; \<open>seen\<close> is the map filled so far.\<close>

fun validate_permissions :: "string list \<Rightarrow> permission list \<Rightarrow> err + string list" where
  "validate_permissions seen [] = Inr seen"
| "validate_permissions seen (p # ps) =
     (if pm_code p = [] then Inl (Plain ''permission code cannot be empty'')
      else if pm_code p \<in> set seen then Inl (Plain (''duplicate permission code: '' @ pm_code p))
      else validate_permissions (pm_code p # seen) ps)"

fun validate_roles :: "string list \<Rightarrow> string list \<Rightarrow> role list \<Rightarrow> err + unit" where
  "validate_roles codes seen [] = Inr ()"
| "validate_roles codes seen (r # rs) =
     (if ro_name r = [] then Inl (Plain ''role name cannot be empty'')
      else if ro_name r \<in> set seen then Inl (Plain (''duplicate role name: '' @ ro_name r))
      else (case List.find (\<lambda>p. p \<notin> set codes) (ro_permissions r) of
          Some p \<Rightarrow> Inl (Plain (''role '' @ ro_name r @ '' references unknown permission '' @ p))
        | None \<Rightarrow> validate_roles codes (ro_name r # seen) rs))"

definition validate_tables :: "permission list \<Rightarrow> role list \<Rightarrow> err + unit" where
  "validate_tables ps rs = rbind (validate_permissions [] ps) (\<lambda>codes. validate_roles codes [] rs)"

definition ValidateDefaults :: "err + unit" where
  "ValidateDefaults = validate_tables DefaultPermissions DefaultRoles"

section \<open>The authorizer\<close>

definition wrap_err :: "string \<Rightarrow> 'a prog \<Rightarrow> 'a prog" where
  "wrap_err pre p w = (case p w of (Inl e, w') \<Rightarrow> (Inl (Wrapped pre e []), w') | (Inr a, w') \<Rightarrow> (Inr a, w'))"

definition Authorize :: "(string \<Rightarrow> string \<Rightarrow> bool prog) \<Rightarrow> string \<Rightarrow> string \<Rightarrow> unit prog" where
  "Authorize has_permission userID perm =
     (if trim_space userID = [] \<or> trim_space perm = [] then failp ErrForbidden
      else bindp (wrap_err ''check permission: '' (has_permission userID perm))
        (\<lambda>allowed. if \<not> allowed then failp ErrForbidden else retp ()))"

definition AuthorizeAccount ::
  "(string \<Rightarrow> string \<Rightarrow> string \<Rightarrow> bool prog) \<Rightarrow> string \<Rightarrow> string \<Rightarrow> string \<Rightarrow> unit prog" where
  "AuthorizeAccount has_account_permission userID perm accountID0 =
     (let accountID = trim_space accountID0 in
      if trim_space userID = [] \<or> trim_space perm = [] \<or> accountID = [] then failp ErrForbidden
      else bindp (wrap_err ''check account permission: '' (has_account_permission userID perm accountID))
        (\<lambda>allowed. if \<not> allowed then failp ErrForbidden else retp ()))"

section \<open>The SQL checker\<close>

text \<open>The join of \<open>users\<close>, \<open>user_roles\<close>, \<open>role_permissions\<close> and \<open>permissions\<close>.\<close>

definition grants :: "tables \<Rightarrow> user_row \<Rightarrow> string \<Rightarrow> bool" where
  "grants t u perm = (ur_is_active u \<and> (\<exists>(ui, ri) \<in> set (t_user_roles t). ui = ur_id u
     \<and> (\<exists>(ri', pi) \<in> set (t_role_permissions t). ri' = ri
     \<and> (\<exists>p \<in> set (t_permissions t). pr_id p = pi \<and> pr_code p = perm))))"

definition sql_has_permission :: "pg \<Rightarrow> string \<Rightarrow> string \<Rightarrow> bool prog" where
  "sql_has_permission pg userID perm = query (\<lambda>t. case uuid_in pg userID of
      None \<Rightarrow> Inl cast_failure
    | Some i \<Rightarrow> Inr (\<exists>u \<in> set (t_users t). ur_id u = i \<and> grants t u perm))"

definition sees_account :: "tables \<Rightarrow> user_row \<Rightarrow> string \<Rightarrow> bool" where
  "sees_account t u accountID =
     ((\<exists>(ui, ri) \<in> set (t_user_roles t). ui = ur_id u
        \<and> (\<exists>r \<in> set (t_roles t). rr_id r = ri \<and> rr_name r \<in> {RoleOwner, RoleAdmin}))
      \<or> (ur_id u, accountID) \<in> set (t_user_accounts t))"

definition sql_has_account_permission :: "pg \<Rightarrow> string \<Rightarrow> string \<Rightarrow> string \<Rightarrow> bool prog" where
  "sql_has_account_permission pg userID perm accountID =
     query (\<lambda>t. case (uuid_in pg userID, uuid_in pg accountID) of
         (Some i, Some a) \<Rightarrow>
           Inr (\<exists>u \<in> set (t_users t). ur_id u = i \<and> grants t u perm \<and> sees_account t u a)
       | _ \<Rightarrow> Inl cast_failure)"

section \<open>The seeds of migration 2\<close>

definition upsert_permission :: "permission_row \<Rightarrow> tables \<Rightarrow> err + tables" where
  "upsert_permission p t =
     (if pr_code p \<in> pr_code ` set (t_permissions t)
      then Inr (t\<lparr>t_permissions := upd_where (\<lambda>q. pr_code q = pr_code p)
             (\<lambda>q. q\<lparr>pr_description := pr_description p\<rparr>) (t_permissions t)\<rparr>)
      else if pr_id p \<in> pr_id ` set (t_permissions t) then Inl unique_violation
      else Inr (t\<lparr>t_permissions := t_permissions t @ [p]\<rparr>))"

definition upsert_role :: "role_row \<Rightarrow> tables \<Rightarrow> err + tables" where
  "upsert_role r t =
     (if rr_name r \<in> rr_name ` set (t_roles t)
      then Inr (t\<lparr>t_roles := upd_where (\<lambda>q. rr_name q = rr_name r)
             (\<lambda>q. q\<lparr>rr_description := rr_description r\<rparr>) (t_roles t)\<rparr>)
      else if rr_id r \<in> rr_id ` set (t_roles t) then Inl unique_violation
      else Inr (t\<lparr>t_roles := t_roles t @ [r]\<rparr>))"

fun upsert_all :: "('a \<Rightarrow> tables \<Rightarrow> err + tables) \<Rightarrow> 'a list \<Rightarrow> tables \<Rightarrow> err + tables" where
  "upsert_all f [] t = Inr t"
| "upsert_all f (x # xs) t = rbind (f x t) (upsert_all f xs)"

definition grant_role :: "string \<Rightarrow> (string \<Rightarrow> bool) \<Rightarrow> tables \<Rightarrow> tables" where
  "grant_role name codes t =
     (let pairs = [(rr_id r, pr_id p). r \<leftarrow> t_roles t, rr_name r = name,
                   p \<leftarrow> t_permissions t, codes (pr_code p)] in
      t\<lparr>t_role_permissions := t_role_permissions t
         @ filter (\<lambda>x. x \<notin> set (t_role_permissions t)) pairs\<rparr>)"

definition seed_permissions :: "permission_row list" where
  "seed_permissions = [
     \<lparr>pr_id = ''10000000-0000-4000-8000-000000000001'', pr_code = ''system:admin'',
      pr_description = ''Full system administration''\<rparr>,
     \<lparr>pr_id = ''10000000-0000-4000-8000-000000000002'', pr_code = ''settings:manage'',
      pr_description = ''Manage panel and server settings''\<rparr>,
     \<lparr>pr_id = ''10000000-0000-4000-8000-000000000003'', pr_code = ''users:manage'',
      pr_description = ''Manage panel users and access''\<rparr>,
     \<lparr>pr_id = ''10000000-0000-4000-8000-000000000004'', pr_code = ''accounts:manage'',
      pr_description = ''Manage hosting accounts and packages''\<rparr>,
     \<lparr>pr_id = ''10000000-0000-4000-8000-000000000005'', pr_code = ''websites:manage'',
      pr_description = ''Manage websites, domains, and vhosts''\<rparr>,
     \<lparr>pr_id = ''10000000-0000-4000-8000-000000000006'', pr_code = ''databases:manage'',
      pr_description = ''Manage databases and database users''\<rparr>,
     \<lparr>pr_id = ''10000000-0000-4000-8000-000000000007'', pr_code = ''dns:manage'',
      pr_description = ''Manage DNS zones and records''\<rparr>,
     \<lparr>pr_id = ''10000000-0000-4000-8000-000000000008'', pr_code = ''mail:manage'',
      pr_description = ''Manage mail domains, mailboxes, and routing''\<rparr>,
     \<lparr>pr_id = ''10000000-0000-4000-8000-000000000009'', pr_code = ''jobs:manage'',
      pr_description = ''Manage background jobs and retries''\<rparr>,
     \<lparr>pr_id = ''10000000-0000-4000-8000-000000000010'', pr_code = ''audit:read'',
      pr_description = ''Read audit events''\<rparr>,
     \<lparr>pr_id = ''10000000-0000-4000-8000-000000000011'', pr_code = ''agent:execute'',
      pr_description = ''Execute allowlisted agent actions''\<rparr>,
     \<lparr>pr_id = ''10000000-0000-4000-8000-000000000012'', pr_code = ''billing:manage'',
      pr_description = ''Manage license, billing, and commercial settings''\<rparr>,
     \<lparr>pr_id = ''10000000-0000-4000-8000-000000000013'', pr_code = ''resellers:manage'',
      pr_description = ''Manage reseller accounts and ownership''\<rparr>]"

definition seed_roles :: "role_row list" where
  "seed_roles = [
     \<lparr>rr_id = ''20000000-0000-4000-8000-000000000001'', rr_name = ''owner'',
      rr_description = ''System owner with all permissions''\<rparr>,
     \<lparr>rr_id = ''20000000-0000-4000-8000-000000000002'', rr_name = ''admin'',
      rr_description = ''Server administrator without commercial ownership controls''\<rparr>,
     \<lparr>rr_id = ''20000000-0000-4000-8000-000000000003'', rr_name = ''reseller'',
      rr_description = ''Reseller operator for assigned customer accounts''\<rparr>,
     \<lparr>rr_id = ''20000000-0000-4000-8000-000000000004'', rr_name = ''customer'',
      rr_description = ''Hosting customer for owned resources''\<rparr>]"

definition seed_admin_codes :: "string list" where
  "seed_admin_codes = [''settings:manage'', ''users:manage'', ''accounts:manage'', ''websites:manage'', ''databases:manage'', ''dns:manage'', ''mail:manage'', ''jobs:manage'', ''audit:read'', ''agent:execute'']"

definition seed_reseller_codes :: "string list" where
  "seed_reseller_codes = [''accounts:manage'', ''websites:manage'', ''databases:manage'', ''dns:manage'', ''mail:manage'']"

definition seed_customer_codes :: "string list" where
  "seed_customer_codes = [''websites:manage'', ''databases:manage'', ''dns:manage'', ''mail:manage'']"

definition seed_rbac :: "tables \<Rightarrow> err + tables" where
  "seed_rbac t =
     rbind (upsert_all upsert_permission seed_permissions t) (\<lambda>t1.
     rbind (upsert_all upsert_role seed_roles t1) (\<lambda>t2.
     Inr (grant_role ''customer'' (\<lambda>c. c \<in> set seed_customer_codes)
         (grant_role ''reseller'' (\<lambda>c. c \<in> set seed_reseller_codes)
         (grant_role ''admin'' (\<lambda>c. c \<in> set seed_admin_codes)
         (grant_role ''owner'' (\<lambda>c. True) t2))))))"

section \<open>What a permission checker promises\<close>

text \<open>A checker only reads, answers what the tables hold, and never says "forbidden" itself.\<close>

locale permission_checker =
  fixes check :: "string \<Rightarrow> string \<Rightarrow> bool prog" and holds :: "tables \<Rightarrow> string \<Rightarrow> string \<Rightarrow> bool"
  assumes answer: "check u p w = (Inr b, w') \<Longrightarrow> b = holds (w_tables w) u p"
    and reads: "w_tables (snd (check u p w)) = w_tables w"
    and error: "check u p w = (Inl e, w') \<Longrightarrow> \<not> err_is e ErrForbidden"
begin

lemma authorize_ok:
  assumes "Authorize check u p w = (Inr (), w')"
  shows "trim_space u \<noteq> [] \<and> trim_space p \<noteq> [] \<and> holds (w_tables w) u p \<and> w_tables w' = w_tables w"
proof -
  obtain r w1 where c: "check u p w = (r, w1)" by fastforce
  then show ?thesis
    using assms answer[of u p w] reads[of u p w]
    by (cases r) (auto simp: Authorize_def bindp_def wrap_err_def failp_def retp_def split: if_splits)
qed

lemma authorize_denied:
  assumes "Authorize check u p w = (Inl e, w')"
  shows "w_tables w' = w_tables w \<and>
    (err_is e ErrForbidden \<longrightarrow> trim_space u = [] \<or> trim_space p = [] \<or> \<not> holds (w_tables w) u p)"
proof -
  obtain r w1 where c: "check u p w = (r, w1)" by fastforce
  then show ?thesis
    using assms answer[of u p w] reads[of u p w] error[of u p w]
    by (cases r) (auto simp: Authorize_def bindp_def wrap_err_def failp_def retp_def split: if_splits)
qed

end

definition holds_permission :: "pg \<Rightarrow> tables \<Rightarrow> string \<Rightarrow> string \<Rightarrow> bool" where
  "holds_permission pg t userID perm =
     (\<exists>u \<in> set (t_users t). uuid_in pg userID = Some (ur_id u) \<and> grants t u perm)"

definition holds_account_permission :: "pg \<Rightarrow> string \<Rightarrow> tables \<Rightarrow> string \<Rightarrow> string \<Rightarrow> bool" where
  "holds_account_permission pg accountID t userID perm =
     (\<exists>u \<in> set (t_users t). \<exists>a. uuid_in pg userID = Some (ur_id u) \<and> uuid_in pg accountID = Some a
        \<and> grants t u perm \<and> sees_account t u a)"

lemma query_db_error: "query f w = (Inl e, w') \<Longrightarrow> (\<exists>s. e = DbError s) \<or> f (w_tables w) = Inl e"
  by (auto simp: query_def split: prod.splits reply.splits dest: take_reply_tables)

interpretation sql_checker: permission_checker "sql_has_permission pg" "holds_permission pg" for pg
proof unfold_locales
  fix u p w b w' assume "sql_has_permission pg u p w = (Inr b, w')"
  then show "b = holds_permission pg (w_tables w) u p"
    by (auto simp: sql_has_permission_def holds_permission_def dest!: query_Inr split: option.splits)
next
  fix u p w e w' assume "sql_has_permission pg u p w = (Inl e, w')"
  then show "\<not> err_is e ErrForbidden"
    by (auto simp: sql_has_permission_def cast_failure_def dest!: query_db_error split: option.splits)
qed (simp add: sql_has_permission_def)

interpretation sql_account_checker: permission_checker
  "\<lambda>u p. sql_has_account_permission pg u p a" "holds_account_permission pg a" for pg a
proof unfold_locales
  fix u p w b w' assume "sql_has_account_permission pg u p a w = (Inr b, w')"
  then show "b = holds_account_permission pg a (w_tables w) u p"
    by (auto simp: sql_has_account_permission_def holds_account_permission_def dest!: query_Inr split: option.splits)
next
  fix u p w e w' assume "sql_has_account_permission pg u p a w = (Inl e, w')"
  then show "\<not> err_is e ErrForbidden"
    by (auto simp: sql_has_account_permission_def cast_failure_def dest!: query_db_error split: option.splits)
qed (simp add: sql_has_account_permission_def)

section \<open>The defaults\<close>

lemma role_permissions_eval:
  "role_permissions RoleOwner = Some (set allPermissionCodes)"
  "role_permissions RoleAdmin = Some {PermissionSettingsManage, PermissionUsersManage,
     PermissionAccountsManage, PermissionWebsitesManage, PermissionDatabasesManage,
     PermissionDNSManage, PermissionMailManage, PermissionJobsManage, PermissionAuditRead,
     PermissionAgentExecute}"
  "role_permissions RoleReseller = Some {PermissionAccountsManage, PermissionWebsitesManage,
     PermissionDatabasesManage, PermissionDNSManage, PermissionMailManage}"
  "role_permissions RoleCustomer = Some {PermissionWebsitesManage, PermissionDatabasesManage,
     PermissionDNSManage, PermissionMailManage}"
  by (simp_all add: role_permissions_def DefaultRoles_def role_names)

lemma has_permission_sets:
  "{p. HasPermission [RoleOwner] p} = set allPermissionCodes"
  "{p. HasPermission [RoleAdmin] p} = the (role_permissions RoleAdmin)"
  "{p. HasPermission [RoleReseller] p} = the (role_permissions RoleReseller)"
  "{p. HasPermission [RoleCustomer] p} = the (role_permissions RoleCustomer)"
  by (auto simp add: HasPermission_def role_permissions_eval)

lemma role_permissions_other:
  "r \<notin> {RoleOwner, RoleAdmin, RoleReseller, RoleCustomer} \<Longrightarrow> role_permissions r = None"
  by (simp add: role_permissions_def DefaultRoles_def)

lemma all_codes: "set allPermissionCodes = {PermissionSystemAdmin, PermissionSettingsManage,
     PermissionUsersManage, PermissionAccountsManage, PermissionWebsitesManage,
     PermissionDatabasesManage, PermissionDNSManage, PermissionMailManage, PermissionJobsManage,
     PermissionAuditRead, PermissionAgentExecute, PermissionBillingManage, PermissionResellersManage}"
  by (simp add: allPermissionCodes_def DefaultPermissions_def)

section \<open>The seeds\<close>

lemma upsert_permissions_fresh:
  "distinct (map pr_code (t_permissions t @ ps)) \<Longrightarrow> distinct (map pr_id (t_permissions t @ ps)) \<Longrightarrow>
     upsert_all upsert_permission ps t = Inr (t\<lparr>t_permissions := t_permissions t @ ps\<rparr>)"
proof (induction ps arbitrary: t)
  case (Cons p ps)
  then have "upsert_permission p t = Inr (t\<lparr>t_permissions := t_permissions t @ [p]\<rparr>)"
    by (auto simp: upsert_permission_def)
  then show ?case using Cons.prems by (simp add: Cons.IH)
qed simp

lemma upsert_roles_fresh:
  "distinct (map rr_name (t_roles t @ rs)) \<Longrightarrow> distinct (map rr_id (t_roles t @ rs)) \<Longrightarrow>
     upsert_all upsert_role rs t = Inr (t\<lparr>t_roles := t_roles t @ rs\<rparr>)"
proof (induction rs arbitrary: t)
  case (Cons r rs)
  then have "upsert_role r t = Inr (t\<lparr>t_roles := t_roles t @ [r]\<rparr>)"
    by (auto simp: upsert_role_def)
  then show ?case using Cons.prems by (simp add: Cons.IH)
qed simp

lemma seeds_distinct:
  "distinct (map pr_code seed_permissions)" "distinct (map pr_id seed_permissions)"
  "distinct (map rr_name seed_roles)" "distinct (map rr_id seed_roles)"
  by (simp_all add: seed_permissions_def seed_roles_def)

lemma grant_role_sel [simp]:
  "t_roles (grant_role n c t) = t_roles t" "t_permissions (grant_role n c t) = t_permissions t"
  "t_users (grant_role n c t) = t_users t" "t_user_roles (grant_role n c t) = t_user_roles t"
  by (simp_all add: grant_role_def Let_def)

lemma set_grant_role: "set (t_role_permissions (grant_role n c t)) = set (t_role_permissions t)
    \<union> {(rr_id r, pr_id p) | r p. r \<in> set (t_roles t) \<and> rr_name r = n \<and> p \<in> set (t_permissions t) \<and> c (pr_code p)}"
  by (auto simp: grant_role_def Let_def)

definition seed_codes :: "string \<Rightarrow> string \<Rightarrow> bool" where
  "seed_codes n c = (n = ''owner'' \<or> n = ''admin'' \<and> c \<in> set seed_admin_codes
     \<or> n = ''reseller'' \<and> c \<in> set seed_reseller_codes \<or> n = ''customer'' \<and> c \<in> set seed_customer_codes)"

lemma seed_rbac_fresh:
  assumes "t_permissions t = []" and "t_roles t = []" and "t_role_permissions t = []"
  shows "\<exists>t'. seed_rbac t = Inr t' \<and> t_permissions t' = seed_permissions \<and> t_roles t' = seed_roles
    \<and> set (t_role_permissions t') = {(rr_id r, pr_id p) | r p. r \<in> set seed_roles
         \<and> p \<in> set seed_permissions \<and> seed_codes (rr_name r) (pr_code p)}"
proof -
  have "upsert_all upsert_permission seed_permissions t = Inr (t\<lparr>t_permissions := seed_permissions\<rparr>)"
    using upsert_permissions_fresh[of t seed_permissions] seeds_distinct assms(1) by simp
  moreover have "upsert_all upsert_role seed_roles (t\<lparr>t_permissions := seed_permissions\<rparr>)
      = Inr (t\<lparr>t_permissions := seed_permissions, t_roles := seed_roles\<rparr>)"
    using upsert_roles_fresh[of "t\<lparr>t_permissions := seed_permissions\<rparr>" seed_roles] seeds_distinct assms(2) by simp
  ultimately show ?thesis
    using assms(3) by (auto simp: seed_rbac_def set_grant_role seed_codes_def)
qed

definition role_names_of :: "tables \<Rightarrow> user_row \<Rightarrow> string list" where
  "role_names_of t u = map rr_name (filter (\<lambda>r. (ur_id u, rr_id r) \<in> set (t_user_roles t)) (t_roles t))"

lemma seed_role_names: "rr_name ` set seed_roles = {RoleOwner, RoleAdmin, RoleReseller, RoleCustomer}"
  by (simp add: seed_roles_def role_names)

lemma seed_codes_default:
  assumes "r \<in> set seed_roles"
  shows "(\<exists>p \<in> set seed_permissions. pr_code p = perm \<and> seed_codes (rr_name r) perm)
    \<longleftrightarrow> (case role_permissions (rr_name r) of None \<Rightarrow> False | Some codes \<Rightarrow> perm \<in> codes)"
proof -
  have all: "perm \<in> pr_code ` set seed_permissions \<longleftrightarrow> perm \<in> set allPermissionCodes"
    unfolding all_codes by (simp add: seed_permissions_def permission_codes)
  have "rr_name r \<in> {RoleOwner, RoleAdmin, RoleReseller, RoleCustomer}"
    using assms seed_role_names by blast
  then consider "rr_name r = RoleOwner" | "rr_name r = RoleAdmin" | "rr_name r = RoleReseller"
    | "rr_name r = RoleCustomer" by blast
  then have "(perm \<in> set allPermissionCodes \<and> seed_codes (rr_name r) perm)
    \<longleftrightarrow> (case role_permissions (rr_name r) of None \<Rightarrow> False | Some codes \<Rightarrow> perm \<in> codes)"
  proof cases
    case 1
    then show ?thesis by (simp add: role_permissions_eval) (simp add: seed_codes_def role_names)
  next
    case 2
    then show ?thesis unfolding all_codes
      by (simp add: role_permissions_eval) (auto simp: seed_codes_def role_names seed_admin_codes_def permission_codes)
  next
    case 3
    then show ?thesis unfolding all_codes
      by (simp add: role_permissions_eval) (auto simp: seed_codes_def role_names seed_reseller_codes_def permission_codes)
  next
    case 4
    then show ?thesis unfolding all_codes
      by (simp add: role_permissions_eval) (auto simp: seed_codes_def role_names seed_customer_codes_def permission_codes)
  qed
  then show ?thesis using all by (auto simp: image_iff)
qed

lemma seeded_grants:
  assumes "seed_rbac t0 = Inr t1" and "t_permissions t0 = []" "t_roles t0 = []" "t_role_permissions t0 = []"
    and "t_permissions t = t_permissions t1" "t_roles t = t_roles t1" "t_role_permissions t = t_role_permissions t1"
  shows "grants t u perm \<longleftrightarrow> ur_is_active u \<and> HasPermission (role_names_of t u) perm"
proof -
  have s: "t_permissions t = seed_permissions" "t_roles t = seed_roles"
    "set (t_role_permissions t) = {(rr_id r, pr_id p) | r p. r \<in> set seed_roles
         \<and> p \<in> set seed_permissions \<and> seed_codes (rr_name r) (pr_code p)}"
    using seed_rbac_fresh[OF assms(2-4)] assms(1,5-7) by auto
  have "(\<exists>(ui, ri) \<in> set (t_user_roles t). ui = ur_id u \<and> (\<exists>(ri', pi) \<in> set (t_role_permissions t). ri' = ri
      \<and> (\<exists>p \<in> set (t_permissions t). pr_id p = pi \<and> pr_code p = perm)))
    \<longleftrightarrow> (\<exists>r \<in> set seed_roles. (ur_id u, rr_id r) \<in> set (t_user_roles t)
          \<and> (\<exists>p \<in> set seed_permissions. pr_code p = perm \<and> seed_codes (rr_name r) perm))" (is "?L \<longleftrightarrow> ?R")
  proof
    assume ?L
    then obtain r q p where "r \<in> set seed_roles" "(ur_id u, rr_id r) \<in> set (t_user_roles t)"
      "q \<in> set seed_permissions" "seed_codes (rr_name r) (pr_code q)" "p \<in> set seed_permissions"
      "pr_id p = pr_id q" "pr_code p = perm"
      unfolding s by auto
    moreover from this have "p = q" using distinct_map_inj_on[OF seeds_distinct(2)] by blast
    ultimately show ?R by blast
  next
    assume ?R
    then show ?L unfolding s by fastforce
  qed
  also have "?R \<longleftrightarrow> HasPermission (role_names_of t u) perm"
    unfolding HasPermission_def role_names_of_def s using seed_codes_default by auto
  finally show ?thesis by (simp add: grants_def)
qed

text \<open>C15. The database and the code agree on who may do what: on a database whose roles and
  permissions are those migration 2 seeds (whatever users and assignments exist since),
  \<open>Authorize\<close> over the SQL checker lets a user pass exactly when the user exists, is active and
  the built-in table \<open>DefaultRoles\<close> gives the permission to one of the user's roles; blank
  arguments are refused and nothing is written.\<close>

theorem authorize_matches_defaults:
  assumes "seed_rbac t0 = Inr t1" and "t_permissions t0 = []" "t_roles t0 = []" "t_role_permissions t0 = []"
    and "t_permissions (w_tables w) = t_permissions t1" "t_roles (w_tables w) = t_roles t1"
        "t_role_permissions (w_tables w) = t_role_permissions t1"
    and "all_done w" and "uuid_in pg userID = Some i"
  shows "((fst (Authorize (sql_has_permission pg) userID perm w) = Inr ()) \<longleftrightarrow>
      trim_space userID \<noteq> [] \<and> trim_space perm \<noteq> [] \<and>
      (\<exists>u \<in> set (t_users (w_tables w)). ur_id u = i \<and> ur_is_active u
         \<and> HasPermission (role_names_of (w_tables w) u) perm))
    \<and> w_tables (snd (Authorize (sql_has_permission pg) userID perm w)) = w_tables w" (is "?A \<and> ?B")
proof -
  obtain r w1 where "take_reply w = (r, w1)" by fastforce
  then have q: "fst (sql_has_permission pg userID perm w) = Inr (holds_permission pg (w_tables w) userID perm)"
    using assms(8,9) take_reply_all_done take_reply_tables
    by (fastforce simp: sql_has_permission_def query_def holds_permission_def)
  have h: "holds_permission pg (w_tables w) userID perm \<longleftrightarrow>
      (\<exists>u \<in> set (t_users (w_tables w)). ur_id u = i \<and> ur_is_active u
         \<and> HasPermission (role_names_of (w_tables w) u) perm)"
    using seeded_grants[OF assms(1-4), of "w_tables w"] assms(5-7,9) by (auto simp: holds_permission_def)
  have ?A unfolding h[symmetric] using q
    by (cases "sql_has_permission pg userID perm w")
      (auto simp: Authorize_def bindp_def wrap_err_def failp_def retp_def)
  obtain res w' where a: "Authorize (sql_has_permission pg) userID perm w = (res, w')" by fastforce
  then have ?B using sql_checker.authorize_ok[of pg userID perm w w']
      sql_checker.authorize_denied[of pg userID perm w _ w'] by (cases res) auto
  with \<open>?A\<close> show ?thesis by blast
qed

definition demo_pg :: pg where
  "demo_pg = \<lparr>uuid_in = Some, jsonb_in = Some, inet_in = Some\<rparr>"

definition seeded_world :: "(string \<times> string) list \<Rightarrow> tables \<Rightarrow> world" where
  "seeded_world urs t1 = \<lparr>w_tables = t1\<lparr>t_users := [\<lparr>ur_id = ''u1'', ur_email = ''a@b.id'',
     ur_password_hash = [], ur_display_name = ''A'', ur_is_active = True\<rparr>], t_user_roles := urs\<rparr>, w_replies = []\<rparr>"

theorem authorize_matches_defaults_witness:
  "\<exists>t1. seed_rbac empty_tables = Inr t1 \<and> fst (Authorize (sql_has_permission demo_pg) ''u1'' PermissionAuditRead
      (seeded_world [(''u1'', ''20000000-0000-4000-8000-000000000002'')] t1)) = Inr ()"
proof -
  have e: "t_permissions empty_tables = []" "t_roles empty_tables = []" "t_role_permissions empty_tables = []"
    by (simp_all add: empty_tables_def)
  obtain t1 where t1: "seed_rbac empty_tables = Inr t1" "t_roles t1 = seed_roles"
    using seed_rbac_fresh[OF e] by blast
  let ?w = "seeded_world [(''u1'', ''20000000-0000-4000-8000-000000000002'')] t1"
  let ?u = "\<lparr>ur_id = ''u1'', ur_email = ''a@b.id'', ur_password_hash = [], ur_display_name = ''A'', ur_is_active = True\<rparr>"
  have n: "role_names_of (w_tables ?w) ?u = [RoleAdmin]"
    by (simp add: role_names_of_def seeded_world_def t1(2) seed_roles_def role_names)
  have h: "HasPermission [RoleAdmin] PermissionAuditRead" by (simp add: HasPermission_def role_permissions_eval)
  have "trim_space ''u1'' = ''u1''" "trim_space PermissionAuditRead = PermissionAuditRead"
    by (rule trim_space_plain; simp add: plain_def permission_codes)+
  then have "fst (Authorize (sql_has_permission demo_pg) ''u1'' PermissionAuditRead ?w) = Inr ()"
    using authorize_matches_defaults[OF t1(1) e, of ?w demo_pg "''u1''" "''u1''" PermissionAuditRead] n h
    by (simp add: seeded_world_def all_done_def demo_pg_def PermissionAuditRead_def)
  then show ?thesis using t1(1) by blast
qed

text \<open>C30. Access to a hosting account needs both the permission and the account: when
  \<open>AuthorizeAccount\<close> over the SQL checker lets a user pass, the user is active, some role grants
  the permission, and the user is an owner or an administrator or is assigned to that very
  account; and no outcome writes anything.\<close>

theorem authorize_account_scoped:
  assumes "AuthorizeAccount (sql_has_account_permission pg) userID perm account w = (res, w')"
  shows "w_tables w' = w_tables w \<and> (res = Inr () \<longrightarrow>
    (\<exists>u \<in> set (t_users (w_tables w)). \<exists>a. uuid_in pg userID = Some (ur_id u)
       \<and> uuid_in pg (trim_space account) = Some a \<and> grants (w_tables w) u perm
       \<and> ((\<exists>r \<in> set (t_roles (w_tables w)). (ur_id u, rr_id r) \<in> set (t_user_roles (w_tables w))
             \<and> rr_name r \<in> {RoleOwner, RoleAdmin})
          \<or> (ur_id u, a) \<in> set (t_user_accounts (w_tables w)))))"
proof -
  let ?a = "trim_space account"
  obtain r w1 where c: "sql_has_account_permission pg userID perm ?a w = (r, w1)" by fastforce
  have t: "w_tables w1 = w_tables w" using sql_account_checker.reads[of pg userID perm ?a w] c by simp
  have h: "holds_account_permission pg ?a (w_tables w) userID perm" if "r = Inr True"
    using sql_account_checker.answer[of pg userID perm ?a w True w1] c that by simp
  have "w_tables w' = w_tables w \<and> (res = Inr () \<longrightarrow> r = Inr True)"
    using assms c t
    by (auto simp: AuthorizeAccount_def bindp_def wrap_err_def failp_def retp_def Let_def
        split: if_splits sum.splits)
  then show ?thesis using h by (force simp: holds_account_permission_def sees_account_def)
qed

definition account_world :: world where
  "account_world = \<lparr>w_tables = empty_tables\<lparr>
     t_users := [\<lparr>ur_id = ''u1'', ur_email = ''a@b.id'', ur_password_hash = [], ur_display_name = ''A'', ur_is_active = True\<rparr>],
     t_roles := [\<lparr>rr_id = ''r4'', rr_name = ''customer'', rr_description = []\<rparr>],
     t_permissions := [\<lparr>pr_id = ''p5'', pr_code = ''websites:manage'', pr_description = []\<rparr>],
     t_user_roles := [(''u1'', ''r4'')], t_role_permissions := [(''r4'', ''p5'')],
     t_user_accounts := [(''u1'', ''a7'')]\<rparr>, w_replies = []\<rparr>"

theorem authorize_account_scoped_witness:
  "fst (AuthorizeAccount (sql_has_account_permission demo_pg) ''u1'' ''websites:manage'' ''a7'' account_world) = Inr ()
   \<and> w_tables (snd (AuthorizeAccount (sql_has_account_permission demo_pg) ''u1'' ''websites:manage'' ''a7'' account_world))
       = w_tables account_world
   \<and> (\<exists>u \<in> set (t_users (w_tables account_world)). grants (w_tables account_world) u ''websites:manage'')"
proof -
  let ?x = "AuthorizeAccount (sql_has_account_permission demo_pg) ''u1'' ''websites:manage'' ''a7'' account_world"
  have "trim_space ''u1'' = ''u1''" "trim_space ''websites:manage'' = ''websites:manage''" "trim_space ''a7'' = ''a7''"
    by (rule trim_space_plain; simp add: plain_def)+
  then have "fst ?x = Inr ()"
    by (simp add: AuthorizeAccount_def sql_has_account_permission_def bindp_def wrap_err_def query_def take_reply_def
        grants_def sees_account_def demo_pg_def account_world_def empty_tables_def retp_def)
  moreover obtain res w' where "?x = (res, w')" by fastforce
  ultimately show ?thesis using authorize_account_scoped[of demo_pg "''u1''" "''websites:manage''" "''a7''" account_world res w']
    by auto
qed

text \<open>The built-in roles are consistent and ordered: \<open>ValidateDefaults\<close> finds no error,
  whatever a customer may do a reseller may, whatever a reseller may do an administrator may,
  whatever an administrator may do the owner may; full system administration, billing and
  reseller management are the owner's alone; an unknown role may do nothing.\<close>

theorem role_hierarchy:
  "ValidateDefaults = Inr ()
   \<and> {p. HasPermission [RoleCustomer] p} \<subset> {p. HasPermission [RoleReseller] p}
   \<and> {p. HasPermission [RoleReseller] p} \<subset> {p. HasPermission [RoleAdmin] p}
   \<and> {p. HasPermission [RoleAdmin] p} \<union> {PermissionSystemAdmin, PermissionBillingManage, PermissionResellersManage}
       = {p. HasPermission [RoleOwner] p}
   \<and> {p. HasPermission [RoleAdmin] p} \<inter> {PermissionSystemAdmin, PermissionBillingManage, PermissionResellersManage} = {}
   \<and> {p. HasPermission [r] p \<and> r \<notin> {RoleOwner, RoleAdmin, RoleReseller, RoleCustomer}} = {}"
proof (intro conjI)
  show "ValidateDefaults = Inr ()"
    by (simp add: ValidateDefaults_def validate_tables_def DefaultPermissions_def DefaultRoles_def
        allPermissionCodes_def permission_codes role_names)
  have strict: "A \<subset> B" if "A \<subseteq> B" "x \<in> B" "x \<notin> A" for A B :: "string set" and x
    using that by blast
  show "{p. HasPermission [RoleCustomer] p} \<subset> {p. HasPermission [RoleReseller] p}"
    by (rule strict[of _ _ PermissionAccountsManage]) (auto simp: has_permission_sets role_permissions_eval, simp_all add: permission_codes)
  show "{p. HasPermission [RoleReseller] p} \<subset> {p. HasPermission [RoleAdmin] p}"
    by (rule strict[of _ _ PermissionAuditRead]) (auto simp: has_permission_sets role_permissions_eval, simp_all add: permission_codes)
  show "{p. HasPermission [RoleAdmin] p} \<union> {PermissionSystemAdmin, PermissionBillingManage, PermissionResellersManage}
       = {p. HasPermission [RoleOwner] p}"
    by (simp add: has_permission_sets role_permissions_eval all_codes) blast
  show "{p. HasPermission [RoleAdmin] p} \<inter> {PermissionSystemAdmin, PermissionBillingManage, PermissionResellersManage} = {}"
    by (simp add: has_permission_sets role_permissions_eval permission_codes)
  show "{p. HasPermission [r] p \<and> r \<notin> {RoleOwner, RoleAdmin, RoleReseller, RoleCustomer}} = {}"
    by (cases "r \<in> {RoleOwner, RoleAdmin, RoleReseller, RoleCustomer}")
      (simp, simp add: HasPermission_def role_permissions_other)
qed

end
