(* ===== verification/Settings.thy ===== *)
theory Settings
  imports AuditTrail
begin

text \<open>
  \<open>internal/settings\<close>: the choice of the web server, which is made once. \<open>Select\<close> over any
  store and audit recorder, the SQL store, and the concurrent execution of many \<open>Select\<close>
  calls, interleaved between the read and the write of the setting.
\<close>

section \<open>Data\<close>

definition WebServerSettingKey :: string where "WebServerSettingKey = ''web_server''"

datatype web_server = WebServerNginx | WebServerApache

definition web_server_text :: "web_server \<Rightarrow> string" where
  "web_server_text v = (case v of WebServerNginx \<Rightarrow> ''nginx'' | WebServerApache \<Rightarrow> ''apache'')"

record setting =
  sg_key :: string
  sg_value :: string
  sg_is_immutable :: bool

record setting_store =
  ss_get :: "string \<Rightarrow> setting prog"
  ss_save :: "setting \<Rightarrow> unit prog"

text \<open>The service: the store and the recorder (\<open>None\<close> is nil).\<close>

record web_server_service =
  ws_store :: setting_store
  ws_record :: "(audit_event \<Rightarrow> audit_event prog) option"

definition NewWebServerService :: "setting_store \<Rightarrow> web_server_service" where
  "NewWebServerService st = \<lparr>ws_store = st, ws_record = None\<rparr>"

definition WithAudit :: "(audit_event \<Rightarrow> audit_event prog) option \<Rightarrow> web_server_service \<Rightarrow> web_server_service" where
  "WithAudit r s = s\<lparr>ws_record := r\<rparr>"

section \<open>The service\<close>

definition ParseWebServer :: "(rune \<Rightarrow> rune) \<Rightarrow> string \<Rightarrow> err + web_server" where
  "ParseWebServer ul value =
     (let v = to_lower ul (trim_space value) in
      if v = ''nginx'' then Inr WebServerNginx
      else if v = ''apache'' then Inr WebServerApache
      else Inl ErrUnsupportedWebServer)"

text \<open>\<open>_, _ = s.record.Record(..)\<close>: the effect without the result.\<close>

definition ignoring :: "'a prog \<Rightarrow> unit prog" where
  "ignoring p w = (Inr (), snd (p w))"

definition recordSelected :: "web_server_service \<Rightarrow> string \<Rightarrow> unit prog" where
  "recordSelected s value = (case ws_record s of None \<Rightarrow> retp ()
     | Some record \<Rightarrow> ignoring (record (event_literal [] ActionWebServerSelected ''server_setting''
         WebServerSettingKey [] [] [(''value'', value)])))"

definition recordChangeDenied :: "web_server_service \<Rightarrow> string \<Rightarrow> string \<Rightarrow> unit prog" where
  "recordChangeDenied s requested current = (case ws_record s of None \<Rightarrow> retp ()
     | Some record \<Rightarrow> ignoring (record (event_literal [] ActionWebServerChangeDenied ''server_setting''
         WebServerSettingKey [] []
         ((''value'', requested) # (if current \<noteq> [] then [(''current'', current)] else [])))))"

text \<open>The first half of \<open>Select\<close>: parse, read, refuse when the choice is made.\<close>

definition select_check :: "(rune \<Rightarrow> rune) \<Rightarrow> web_server_service \<Rightarrow> string \<Rightarrow> web_server prog" where
  "select_check ul s value = (case ParseWebServer ul value of
     Inl e \<Rightarrow> failp e
   | Inr selected \<Rightarrow> (\<lambda>w. case ss_get (ws_store s) WebServerSettingKey w of
       (Inl e, w1) \<Rightarrow> if err_is e ErrSettingNotFound then (Inr selected, w1) else (Inl e, w1)
     | (Inr current, w1) \<Rightarrow>
         if sg_value current \<noteq> [] \<and> sg_is_immutable current
         then bindp (recordChangeDenied s (web_server_text selected) (sg_value current))
                (\<lambda>_. failp (Wrapped [] ErrWebServerAlreadySelected ('': '' @ sg_value current))) w1
         else (Inr selected, w1)))"

text \<open>The second half: save, and record what happened.\<close>

definition select_save :: "web_server_service \<Rightarrow> web_server \<Rightarrow> web_server prog" where
  "select_save s selected w =
     (case ss_save (ws_store s) \<lparr>sg_key = WebServerSettingKey, sg_value = web_server_text selected,
             sg_is_immutable = True\<rparr> w of
        (Inl e, w1) \<Rightarrow>
          (if err_is e ErrWebServerAlreadySelected
           then bindp (recordChangeDenied s (web_server_text selected) []) (\<lambda>_. failp e) w1
           else (Inl e, w1))
      | (Inr u, w1) \<Rightarrow>
          bindp (recordSelected s (web_server_text selected)) (\<lambda>_. retp selected) w1)"

definition Select :: "(rune \<Rightarrow> rune) \<Rightarrow> web_server_service \<Rightarrow> string \<Rightarrow> web_server prog" where
  "Select ul s value = bindp (select_check ul s value) (select_save s)"

definition Selected :: "(rune \<Rightarrow> rune) \<Rightarrow> web_server_service \<Rightarrow> web_server prog" where
  "Selected ul s = bindp (ss_get (ws_store s) WebServerSettingKey) (\<lambda>current.
     if sg_value current = [] then failp ErrWebServerNotSelected
     else (case ParseWebServer ul (sg_value current) of Inl e \<Rightarrow> failp e | Inr v \<Rightarrow> retp v))"

section \<open>The SQL store\<close>

definition find_setting :: "string \<Rightarrow> tables \<Rightarrow> setting_row option" where
  "find_setting key t = List.find (\<lambda>r. st_key r = key) (t_settings t)"

definition sql_setting_get :: "string \<Rightarrow> setting prog" where
  "sql_setting_get key = bindp (query (\<lambda>t. Inr (find_setting key t))) (\<lambda>res. case res of
      None \<Rightarrow> failp ErrSettingNotFound
    | Some r \<Rightarrow> retp \<lparr>sg_key = st_key r, sg_value = st_value r, sg_is_immutable = st_is_immutable r\<rparr>)"

text \<open>\<open>INSERT .. ON CONFLICT (key) DO UPDATE .. WHERE value = '' OR is_immutable = FALSE\<close>.\<close>

definition upsert_setting :: "setting \<Rightarrow> tables \<Rightarrow> err + nat \<times> tables" where
  "upsert_setting s t = (case find_setting (sg_key s) t of
      None \<Rightarrow> Inr (1, t\<lparr>t_settings := t_settings t @
        [\<lparr>st_key = sg_key s, st_value = sg_value s, st_is_immutable = sg_is_immutable s\<rparr>]\<rparr>)
    | Some r \<Rightarrow>
        if st_value r = [] \<or> \<not> st_is_immutable r
        then Inr (1, t\<lparr>t_settings := upd_where (\<lambda>q. st_key q = sg_key s)
               (\<lambda>q. q\<lparr>st_value := sg_value s, st_is_immutable := sg_is_immutable s\<rparr>) (t_settings t)\<rparr>)
        else Inr (0, t))"

definition sql_setting_save :: "setting \<Rightarrow> unit prog" where
  "sql_setting_save s = bindp (stmt (upsert_setting s))
     (\<lambda>affected. if affected = 0 then failp ErrWebServerAlreadySelected else retp ())"

definition sql_setting_store :: setting_store where
  "sql_setting_store = \<lparr>ss_get = sql_setting_get, ss_save = sql_setting_save\<rparr>"

section \<open>What the service relies on\<close>

text \<open>A store of a write-once setting, seen through \<open>chosen\<close>: the fixed value of a key, if any.\<close>

locale write_once_store =
  fixes get :: "string \<Rightarrow> setting prog" and save :: "setting \<Rightarrow> unit prog"
    and chosen :: "string \<Rightarrow> tables \<Rightarrow> string option"
  assumes get_reads: "w_tables (snd (get k w)) = w_tables w"
    and save_other: "save s w = (res, w') \<Longrightarrow> sg_key s \<noteq> k \<Longrightarrow> chosen k (w_tables w') = chosen k (w_tables w)"
    and save_fixed: "save s w = (res, w') \<Longrightarrow> chosen (sg_key s) (w_tables w) = Some v \<Longrightarrow>
        chosen (sg_key s) (w_tables w') = Some v \<and> \<not> is_ok res"
    and save_ok: "save s w = (Inr (), w') \<Longrightarrow> sg_is_immutable s \<Longrightarrow> sg_value s \<noteq> [] \<Longrightarrow>
        chosen (sg_key s) (w_tables w') = Some (sg_value s)"
begin

lemma fixed_stays: "chosen k (w_tables w) = Some v \<Longrightarrow> chosen k (w_tables (snd (save s w))) = Some v"
  using save_other[of s w _ _ k] save_fixed[of s w] by (cases "sg_key s = k") (metis prod.collapse)+

lemma one_winner: "chosen (sg_key s) (w_tables w) = Some v \<Longrightarrow> \<not> is_ok (fst (save s w))"
  using save_fixed[of s w] by (metis prod.collapse)

end

definition chosen_setting :: "string \<Rightarrow> tables \<Rightarrow> string option" where
  "chosen_setting k t = (case find_setting k t of None \<Rightarrow> None
     | Some r \<Rightarrow> if st_value r \<noteq> [] \<and> st_is_immutable r then Some (st_value r) else None)"

lemma find_setting_key: "find_setting k t = Some r \<Longrightarrow> st_key r = k \<and> r \<in> set (t_settings t)"
  by (auto simp: find_setting_def dest: find_Some_set)

lemma find_append: "List.find p (xs @ ys) = (case List.find p xs of None \<Rightarrow> List.find p ys | Some x \<Rightarrow> Some x)"
  by (induction xs) auto

lemma upsert_find:
  assumes "upsert_setting s t = Inr (n, t')"
  shows "find_setting k t' = (if k = sg_key s \<and> n \<noteq> 0
      then Some \<lparr>st_key = sg_key s, st_value = sg_value s, st_is_immutable = sg_is_immutable s\<rparr>
      else find_setting k t)
    \<and> (n = 0 \<longleftrightarrow> chosen_setting (sg_key s) t \<noteq> None)"
proof (cases "find_setting (sg_key s) t")
  case None
  then show ?thesis using assms
    by (auto simp: upsert_setting_def find_setting_def find_append chosen_setting_def split: option.splits)
next
  case (Some r)
  show ?thesis
  proof (cases "st_value r = [] \<or> \<not> st_is_immutable r")
    case True
    let ?f = "\<lambda>q. q\<lparr>st_value := sg_value s, st_is_immutable := sg_is_immutable s\<rparr>"
    have t': "t' = t\<lparr>t_settings := upd_where (\<lambda>q. st_key q = sg_key s) ?f (t_settings t)\<rparr>" "n = 1"
      using assms Some True by (auto simp: upsert_setting_def)
    have "find_setting (sg_key s) t' = Some (?f r)"
      unfolding find_setting_def t' using Some find_setting_key[OF Some]
      by (simp add: find_upd_where_hit[where k = st_key] find_setting_def)
    moreover have "find_setting k t' = find_setting k t" if "k \<noteq> sg_key s"
      unfolding find_setting_def t' using that by (simp add: find_upd_where_other[where k = st_key])
    ultimately show ?thesis using Some True t' find_setting_key[OF Some]
      by (cases r) (auto simp: chosen_setting_def)
  next
    case False
    then show ?thesis using assms Some by (auto simp: upsert_setting_def chosen_setting_def)
  qed
qed

lemma save_cases:
  assumes "sql_setting_save s w = (res, w')"
  shows "w_tables w' = w_tables w \<and> \<not> is_ok res
    \<or> (\<exists>n. upsert_setting s (w_tables w) = Inr (n, w_tables w') \<and> (is_ok res \<longrightarrow> n \<noteq> 0)
         \<and> (n = 0 \<longrightarrow> w_tables w' = w_tables w))"
proof -
  obtain r w1 where st: "stmt (upsert_setting s) w = (r, w1)" by fastforce
  have zero: "t' = t" if "upsert_setting s t = Inr (0, t')" for t t'
    using that by (auto simp: upsert_setting_def split: option.splits if_splits)
  have w1: "w_tables w' = w_tables w1" and ok: "is_ok res \<longleftrightarrow> (\<exists>n. r = Inr n \<and> n \<noteq> 0)"
    using assms st by (auto simp: sql_setting_save_def bindp_def failp_def retp_def split: sum.splits if_splits)
  show ?thesis
  proof (cases r)
    case (Inl e)
    then have "\<not> is_ok res" using ok by simp
    then show ?thesis using stmt_cases_tables[of "upsert_setting s" w] st w1 zero by fastforce
  next
    case (Inr n)
    then obtain t where "upsert_setting s (w_tables w) = Inr (n, t)" "w_tables w1 = t"
      using stmt_Inr[OF st[unfolded Inr]] by blast
    then show ?thesis using Inr ok w1 zero by auto
  qed
qed

interpretation sql_once: write_once_store sql_setting_get sql_setting_save chosen_setting
proof unfold_locales
  fix k w
  obtain r w1 where q: "query (\<lambda>t. Inr (find_setting k t)) w = (r, w1)" by fastforce
  then have "w_tables w1 = w_tables w" using query_tables by (metis snd_conv)
  then show "w_tables (snd (sql_setting_get k w)) = w_tables w"
    using q by (auto simp: sql_setting_get_def bindp_def failp_def retp_def split: sum.split option.split)
next
  fix s w res w' k
  assume s: "sql_setting_save s w = (res, w')" and k: "sg_key s \<noteq> k"
  show "chosen_setting k (w_tables w') = chosen_setting k (w_tables w)"
    using save_cases[OF s] upsert_find[of s "w_tables w" _ "w_tables w'" k] k
    by (auto simp: chosen_setting_def)
next
  fix s w res w' v
  assume s: "sql_setting_save s w = (res, w')" and c: "chosen_setting (sg_key s) (w_tables w) = Some v"
  have "w_tables w' = w_tables w \<and> \<not> is_ok res"
    using save_cases[OF s] upsert_find[of s "w_tables w" _ "w_tables w'" "sg_key s"] c by auto
  then show "chosen_setting (sg_key s) (w_tables w') = Some v \<and> \<not> is_ok res" using c by simp
next
  fix s w w'
  assume s: "sql_setting_save s w = (Inr (), w')" and i: "sg_is_immutable s" "sg_value s \<noteq> []"
  obtain n where "upsert_setting s (w_tables w) = Inr (n, w_tables w')" "n \<noteq> 0"
    using save_cases[OF s] by auto
  then show "chosen_setting (sg_key s) (w_tables w') = Some (sg_value s)"
    using upsert_find[of s "w_tables w" n "w_tables w'" "sg_key s"] i by (simp add: chosen_setting_def)
qed

section \<open>Concurrent selections\<close>

definition sql_service :: "pg \<Rightarrow> bool \<Rightarrow> time \<Rightarrow> err + string \<Rightarrow> web_server_service" where
  "sql_service pg audited now newid =
     WithAudit (if audited then Some (audit_record (audit_write pg) now newid) else None)
       (NewWebServerService sql_setting_store)"

text \<open>A call of \<open>Select\<close>: before its read, between its read and its write, or returned.\<close>

datatype selection = Asked string | Checked web_server | Answered "err + web_server"

inductive select_step ::
  "pg \<Rightarrow> (rune \<Rightarrow> rune) \<Rightarrow> selection list \<times> world \<Rightarrow> selection list \<times> world \<Rightarrow> bool"
  for pg ul where
  ask: "select_step pg ul (ts, w) (ts @ [Asked v], w)"
| network: "select_step pg ul (ts, w) (ts, w\<lparr>w_replies := rs\<rparr>)"
| check: "i < length ts \<Longrightarrow> ts ! i = Asked v \<Longrightarrow>
    select_check ul (sql_service pg audited now newid) v w = (res, w') \<Longrightarrow>
    select_step pg ul (ts, w) (ts[i := (case res of Inl e \<Rightarrow> Answered (Inl e) | Inr x \<Rightarrow> Checked x)], w')"
| save: "i < length ts \<Longrightarrow> ts ! i = Checked x \<Longrightarrow>
    select_save (sql_service pg audited now newid) x w = (res, w') \<Longrightarrow>
    select_step pg ul (ts, w) (ts[i := Answered res], w')"

lemma service_store [simp]:
  "ss_get (ws_store (sql_service pg audited now newid)) = sql_setting_get"
  "ss_save (ws_store (sql_service pg audited now newid)) = sql_setting_save"
  by (simp_all add: sql_service_def WithAudit_def NewWebServerService_def sql_setting_store_def)

lemma ignoring_record_settings:
  "t_settings (w_tables (snd (ignoring (audit_record (audit_write pg) now newid ev) w))) = t_settings (w_tables w)"
proof -
  obtain r w' where r: "audit_record (audit_write pg) now newid ev w = (r, w')" by fastforce
  then show ?thesis using sql_log.record_any[OF r] by (auto simp: ignoring_def)
qed

lemma record_settings:
  "t_settings (w_tables (snd (recordSelected (sql_service pg audited now newid) v w))) = t_settings (w_tables w)"
  "t_settings (w_tables (snd (recordChangeDenied (sql_service pg audited now newid) v c w))) = t_settings (w_tables w)"
  by (cases audited; simp add: recordSelected_def recordChangeDenied_def sql_service_def WithAudit_def
      NewWebServerService_def retp_def ignoring_record_settings)+

lemma chosen_cong: "t_settings t = t_settings t' \<Longrightarrow> chosen_setting k t = chosen_setting k t'"
  by (simp add: chosen_setting_def find_setting_def)

lemma record_total:
  "\<exists>w'. recordSelected (sql_service pg audited now newid) v w = (Inr (), w')"
  "\<exists>w'. recordChangeDenied (sql_service pg audited now newid) v c w = (Inr (), w')"
  by (cases audited; simp add: recordSelected_def recordChangeDenied_def sql_service_def WithAudit_def
      NewWebServerService_def retp_def ignoring_def)+

lemma select_check_settings:
  assumes "select_check ul (sql_service pg audited now newid) v w = (res, w')"
  shows "t_settings (w_tables w') = t_settings (w_tables w)"
proof -
  obtain r w1 where g: "sql_setting_get WebServerSettingKey w = (r, w1)" by fastforce
  have t: "w_tables w1 = w_tables w" using sql_once.get_reads[of WebServerSettingKey w] g by simp
  have d: "t_settings (w_tables w2) = t_settings (w_tables w1)"
    if "bindp (recordChangeDenied (sql_service pg audited now newid) x y) (\<lambda>_. failp e) w1 = (res, w2)"
    for x y e w2 and res :: "err + web_server"
    using that record_settings(2)[of pg audited now newid x y w1] record_total(2)[of pg audited now newid x y w1]
    by (auto simp: bindp_def failp_def)
  show ?thesis
    using assms g t d
    by (auto simp: select_check_def failp_def split: sum.splits if_splits)
qed

lemma select_save_outcome:
  assumes "select_save (sql_service pg audited now newid) v w = (res, w')"
  shows "case chosen_setting WebServerSettingKey (w_tables w) of
      Some x \<Rightarrow> \<not> is_ok res \<and> chosen_setting WebServerSettingKey (w_tables w') = Some x
    | None \<Rightarrow> is_ok res \<longrightarrow> res = Inr v
        \<and> chosen_setting WebServerSettingKey (w_tables w') = Some (web_server_text v)"
proof -
  let ?s = "\<lparr>sg_key = WebServerSettingKey, sg_value = web_server_text v, sg_is_immutable = True\<rparr>"
  obtain r w1 where s: "sql_setting_save ?s w = (r, w1)" by fastforce
  have t: "t_settings (w_tables w') = t_settings (w_tables w1) \<and> (is_ok res \<longrightarrow> r = Inr () \<and> res = Inr v)"
    using assms s record_total(1)[of pg audited now newid "web_server_text v" w1]
      record_settings(1)[of pg audited now newid "web_server_text v" w1]
      record_settings(2)[of pg audited now newid "web_server_text v" "[]" w1]
      record_total(2)[of pg audited now newid "web_server_text v" "[]" w1]
    by (auto simp: select_save_def bindp_def failp_def retp_def split: sum.splits if_splits)
  then have c: "chosen_setting WebServerSettingKey (w_tables w') = chosen_setting WebServerSettingKey (w_tables w1)"
    by (intro chosen_cong) simp
  have ne: "web_server_text v \<noteq> []" by (cases v) (simp_all add: web_server_text_def)
  show ?thesis
  proof (cases "chosen_setting WebServerSettingKey (w_tables w)")
    case None
    then show ?thesis using t c sql_once.save_ok[of ?s w w1] s ne by auto
  next
    case (Some x)
    then show ?thesis using t c sql_once.save_fixed[OF s, of x] by auto
  qed
qed

definition one_choice :: "selection list \<times> world \<Rightarrow> bool" where
  "one_choice = (\<lambda>(ts, w).
     (\<forall>i v. i < length ts \<and> ts ! i = Answered (Inr v) \<longrightarrow>
        chosen_setting WebServerSettingKey (w_tables w) = Some (web_server_text v))
     \<and> (\<forall>i j v v'. i < length ts \<and> j < length ts \<and> ts ! i = Answered (Inr v) \<and> ts ! j = Answered (Inr v') \<longrightarrow> i = j))"

lemma one_choiceD:
  "one_choice (ts, w) \<Longrightarrow> i < length ts \<Longrightarrow> ts ! i = Answered (Inr v) \<Longrightarrow>
     chosen_setting WebServerSettingKey (w_tables w) = Some (web_server_text v)"
  "one_choice (ts, w) \<Longrightarrow> i < length ts \<Longrightarrow> ts ! i = Answered (Inr v) \<Longrightarrow>
     k < length ts \<Longrightarrow> ts ! k = Answered (Inr x) \<Longrightarrow> k = i"
  by (simp_all add: one_choice_def)

lemma one_choice_step:
  assumes "select_step pg ul st st'" and "one_choice st"
  shows "one_choice st'"
  using assms
proof cases
  case (ask ts w v)
  have "(ts @ [Asked v]) ! i = Answered (Inr x) \<Longrightarrow> i < length (ts @ [Asked v]) \<Longrightarrow> i < length ts \<and> ts ! i = Answered (Inr x)"
    for i x by (cases "i < length ts") (auto simp: nth_append)
  then show ?thesis using assms(2) unfolding ask one_choice_def prod.case by blast
next
  case (network ts w rs)
  then show ?thesis using assms(2) by (simp add: one_choice_def)
next
  case (check i ts v audited now newid w res w')
  let ?a = "case res of Inl e \<Rightarrow> Answered (Inl e) | Inr x \<Rightarrow> Checked x"
  have "?a \<noteq> Answered (Inr x)" for x by (cases res) auto
  then have old: "ts[i := ?a] ! k = Answered (Inr x) \<Longrightarrow> k < length ts \<Longrightarrow> ts ! k = Answered (Inr x)" for k x
    using check(3) by (cases "k = i") auto
  have "chosen_setting WebServerSettingKey (w_tables w') = chosen_setting WebServerSettingKey (w_tables w)"
    by (rule chosen_cong, rule select_check_settings[OF check(5)])
  then show ?thesis using assms(2) old unfolding check(1,2) one_choice_def prod.case length_list_update by metis
next
  case (save i ts x audited now newid w res w')
  note o = select_save_outcome[OF save(5)]
  have nth: "ts[i := Answered res] ! k = (if k = i then Answered res else ts ! k)" if "k < length ts" for k
    using that by simp
  show ?thesis
  proof (cases "is_ok res")
    case False
    then have old: "ts[i := Answered res] ! k = Answered (Inr y) \<Longrightarrow> k < length ts \<Longrightarrow> ts ! k = Answered (Inr y)" for k y
      using nth by (cases res) (auto split: if_splits)
    have "chosen_setting WebServerSettingKey (w_tables w) = Some z \<Longrightarrow>
        chosen_setting WebServerSettingKey (w_tables w') = Some z" for z
      using o by (auto split: option.splits)
    then show ?thesis using assms(2) old unfolding save(1,2) one_choice_def prod.case length_list_update by metis
  next
    case True
    then have c: "chosen_setting WebServerSettingKey (w_tables w) = None" and r: "res = Inr x"
      and c': "chosen_setting WebServerSettingKey (w_tables w') = Some (web_server_text x)"
      using o by (auto split: option.splits)
    then have none: "ts ! k \<noteq> Answered (Inr y)" if "k < length ts" for k y
      using assms(2) that unfolding save(1) one_choice_def by auto
    show ?thesis unfolding save(1,2) one_choice_def prod.case length_list_update
      using none nth c' r by (auto split: if_split_asm)
  qed
qed

lemma filter_eq_single: "distinct xs \<Longrightarrow> i \<in> set xs \<Longrightarrow> [k \<leftarrow> xs. k = i] = [i]"
  by (induction xs) (auto simp: filter_empty_conv)

text \<open>C9. The web server is chosen once, even by concurrent callers: over any interleaving of any
  number of \<open>Select\<close> calls, each stopped at will between its read and its write, with any
  replies of the database, at most one call ever succeeds, and from then on the stored
  choice is the one it returned and never changes.\<close>

theorem web_server_chosen_once:
  assumes "(select_step pg ul)\<^sup>*\<^sup>* ([], w0) (ts, w)"
    and "i < length ts" and "ts ! i = Answered (Inr v)"
  shows "chosen_setting WebServerSettingKey (w_tables w) = Some (web_server_text v)
    \<and> [k \<leftarrow> [0..<length ts]. \<exists>x. ts ! k = Answered (Inr x)] = [i]"
proof -
  have oc: "one_choice (ts, w)"
    using assms(1)
  proof (induction rule: rtranclp_induct)
    case base
    show ?case by (simp add: one_choice_def)
  next
    case (step y z)
    then show ?case using one_choice_step by blast
  qed
  have c: "chosen_setting WebServerSettingKey (w_tables w) = Some (web_server_text v)"
    by (rule one_choiceD(1)[OF oc assms(2,3)])
  have u: "k = i" if "k < length ts" "ts ! k = Answered (Inr x)" for k x
    by (rule one_choiceD(2)[OF oc assms(2,3) that])
  have "[k \<leftarrow> [0..<length ts]. \<exists>x. ts ! k = Answered (Inr x)] = [k \<leftarrow> [0..<length ts]. k = i]"
  proof (rule filter_cong[OF refl])
    fix k assume "k \<in> set [0..<length ts]"
    then have "k < length ts" by simp
    then show "(\<exists>x. ts ! k = Answered (Inr x)) = (k = i)"
      using u[of k] assms(3) by blast
  qed
  also have "\<dots> = [i]" using assms(2) by (intro filter_eq_single) auto
  finally show ?thesis using c by blast
qed

definition settings_pg :: pg where
  "settings_pg = \<lparr>uuid_in = Some, jsonb_in = Some, inet_in = Some\<rparr>"

definition fresh_world :: world where
  "fresh_world = \<lparr>w_tables = empty_tables, w_replies = []\<rparr>"

definition chosen_world :: world where
  "chosen_world = \<lparr>w_tables = empty_tables\<lparr>t_settings :=
     [\<lparr>st_key = ''web_server'', st_value = ''nginx'', st_is_immutable = True\<rparr>]\<rparr>, w_replies = []\<rparr>"

lemma nginx_parse: "ParseWebServer id ''nginx'' = Inr WebServerNginx"
proof -
  have "trim_space ''nginx'' = ''nginx''" by (rule trim_space_plain; simp add: plain_def)
  then show ?thesis by (simp add: ParseWebServer_def Let_def to_lower_ascii ascii_def lower_byte_def)
qed

lemmas settings_eval = select_check_def select_save_def sql_service_def WithAudit_def
  NewWebServerService_def sql_setting_store_def sql_setting_get_def sql_setting_save_def bindp_def
  query_def stmt_def take_reply_def find_setting_def upsert_setting_def failp_def retp_def
  recordSelected_def web_server_text_def WebServerSettingKey_def

lemma demo_selection:
  "(select_step pg id)\<^sup>*\<^sup>* ([], fresh_world) ([Asked ''apache'', Answered (Inr WebServerNginx)], chosen_world)"
proof -
  have 1: "select_step pg id ([], fresh_world) ([Asked ''apache''], fresh_world)"
    using select_step.ask[of pg id "[]" fresh_world "''apache''"] by simp
  have 2: "select_step pg id ([Asked ''apache''], fresh_world) ([Asked ''apache'', Asked ''nginx''], fresh_world)"
    using select_step.ask[of pg id "[Asked ''apache'']" fresh_world "''nginx''"] by simp
  have c: "select_check id (sql_service pg False 0 (Inr [])) ''nginx'' fresh_world = (Inr WebServerNginx, fresh_world)"
    by (simp add: nginx_parse fresh_world_def empty_tables_def settings_eval)
  have 3: "select_step pg id ([Asked ''apache'', Asked ''nginx''], fresh_world)
      ([Asked ''apache'', Checked WebServerNginx], fresh_world)"
    using select_step.check[OF _ _ c, of 1 "[Asked ''apache'', Asked ''nginx'']"] by simp
  have s: "select_save (sql_service pg False 0 (Inr [])) WebServerNginx fresh_world = (Inr WebServerNginx, chosen_world)"
    by (simp add: fresh_world_def chosen_world_def empty_tables_def settings_eval)
  have 4: "select_step pg id ([Asked ''apache'', Checked WebServerNginx], fresh_world)
      ([Asked ''apache'', Answered (Inr WebServerNginx)], chosen_world)"
    using select_step.save[OF _ _ s, of 1 "[Asked ''apache'', Checked WebServerNginx]"] by simp
  show ?thesis using 1 2 3 4 by (meson converse_rtranclp_into_rtranclp rtranclp.rtrancl_refl)
qed

theorem web_server_chosen_once_witness:
  "chosen_setting WebServerSettingKey (w_tables chosen_world) = Some ''nginx''"
  using web_server_chosen_once[OF demo_selection[of settings_pg], of 1 WebServerNginx]
  by (simp add: web_server_text_def)

lemma server_name: "web_server_text v \<noteq> [] \<and> ParseWebServer ul (web_server_text v) = Inr v"
proof -
  have "trim_space (web_server_text v) = web_server_text v"
    by (rule trim_space_plain; cases v; simp add: plain_def web_server_text_def)
  then show ?thesis
    by (cases v) (simp_all add: web_server_text_def ParseWebServer_def Let_def to_lower_ascii ascii_def lower_byte_def)
qed

lemma chosen_read:
  assumes "chosen_setting WebServerSettingKey (w_tables w) = Some s" and "all_done w"
  shows "\<exists>k w'. sql_setting_get WebServerSettingKey w = (Inr \<lparr>sg_key = k, sg_value = s, sg_is_immutable = True\<rparr>, w')
    \<and> w_tables w' = w_tables w"
proof -
  obtain r where r: "find_setting WebServerSettingKey (w_tables w) = Some r" "st_value r = s" "st_is_immutable r"
    using assms(1) by (auto simp: chosen_setting_def split: option.splits if_splits)
  obtain rep w' where "take_reply w = (rep, w')" by fastforce
  then show ?thesis using assms(2) r take_reply_all_done take_reply_tables
    by (fastforce simp: sql_setting_get_def bindp_def query_def retp_def)
qed

text \<open>Once a server is chosen, every \<open>Select\<close> is denied.\<close>

lemma select_denied:
  assumes "chosen_setting WebServerSettingKey (w_tables w) = Some (web_server_text v)" and "all_done w"
  shows "\<exists>e w'. Select ul (sql_service pg audited now newid) value w = (Inl e, w')
    \<and> (ParseWebServer ul value = Inl ErrUnsupportedWebServer \<or> err_is e ErrWebServerAlreadySelected)
    \<and> t_settings (w_tables w') = t_settings (w_tables w)"
proof (cases "ParseWebServer ul value")
  case (Inl e)
  then have "e = ErrUnsupportedWebServer" by (auto simp: ParseWebServer_def Let_def split: if_splits)
  then show ?thesis using Inl by (simp add: Select_def select_check_def bindp_def failp_def)
next
  case (Inr x)
  obtain k w2 where g: "sql_setting_get WebServerSettingKey w
      = (Inr \<lparr>sg_key = k, sg_value = web_server_text v, sg_is_immutable = True\<rparr>, w2)" "w_tables w2 = w_tables w"
    using chosen_read[OF assms] by blast
  obtain w3 where d: "recordChangeDenied (sql_service pg audited now newid) (web_server_text x) (web_server_text v) w2 = (Inr (), w3)"
    using record_total(2) by blast
  moreover have "t_settings (w_tables w3) = t_settings (w_tables w2)"
    using record_settings(2)[of pg audited now newid "web_server_text x" "web_server_text v" w2] d by simp
  ultimately show ?thesis using Inr g server_name[of v ul]
    by (simp add: Select_def select_check_def bindp_def failp_def)
qed

text \<open>C29. A successful \<open>Select\<close> sticks: it accepted a spelling of the server it returns, on a
  working database \<open>Selected\<close> then returns that server, and every later \<open>Select\<close>, of any
  value, fails, with \<open>ErrWebServerAlreadySelected\<close> whenever the value is a supported one, and
  leaves the choice as it is.\<close>

theorem select_sticks:
  assumes "Select ul (sql_service pg audited now newid) value w = (Inr v, w')" and "all_done w'"
  shows "ParseWebServer ul value = Inr v
    \<and> fst (Selected ul (sql_service pg audited2 now2 newid2) w') = Inr v
    \<and> (\<exists>e. fst (Select ul (sql_service pg audited2 now2 newid2) value2 w') = Inl e
         \<and> (ParseWebServer ul value2 = Inl ErrUnsupportedWebServer \<or> err_is e ErrWebServerAlreadySelected))
    \<and> chosen_setting WebServerSettingKey
        (w_tables (snd (Select ul (sql_service pg audited2 now2 newid2) value2 w'))) = Some (web_server_text v)"
proof -
  obtain v0 w1 where c: "select_check ul (sql_service pg audited now newid) value w = (Inr v0, w1)"
    and s: "select_save (sql_service pg audited now newid) v0 w1 = (Inr v, w')"
    using assms(1) by (auto simp: Select_def bindp_Inr)
  have vv: "v0 = v" and ch: "chosen_setting WebServerSettingKey (w_tables w') = Some (web_server_text v)"
    using select_save_outcome[OF s] by (auto split: option.splits)
  have p: "ParseWebServer ul value = Inr v"
    using c vv by (auto simp: select_check_def failp_def bindp_def split: sum.splits prod.splits if_splits)
  have sel: "fst (Selected ul (sql_service pg audited2 now2 newid2) w') = Inr v"
    using chosen_read[OF ch assms(2)] server_name[of v ul] by (auto simp: Selected_def bindp_def retp_def)
  obtain e w3 where e: "Select ul (sql_service pg audited2 now2 newid2) value2 w' = (Inl e, w3)"
      "ParseWebServer ul value2 = Inl ErrUnsupportedWebServer \<or> err_is e ErrWebServerAlreadySelected"
      "t_settings (w_tables w3) = t_settings (w_tables w')"
    using select_denied[OF ch assms(2)] by blast
  have "chosen_setting WebServerSettingKey (w_tables w3) = Some (web_server_text v)"
    using chosen_cong[OF e(3)] ch by simp
  then show ?thesis using p sel e by simp
qed

theorem select_sticks_witness:
  "fst (Selected id (sql_service settings_pg False 0 (Inr [])) chosen_world) = Inr WebServerNginx"
proof -
  let ?s = "sql_service settings_pg False 0 (Inr [])"
  have "Select id ?s ''nginx'' fresh_world = (Inr WebServerNginx, chosen_world)"
    by (simp add: Select_def nginx_parse fresh_world_def chosen_world_def empty_tables_def settings_eval)
  moreover have "all_done chosen_world" by (simp add: all_done_def chosen_world_def)
  ultimately show ?thesis using select_sticks by blast
qed

end
