(* ===== verification/LoginLimiter.thy ===== *)
theory LoginLimiter
  imports Store "HOL-Library.AList"
begin

text \<open>
  The login limiter of \<open>internal/server/auth.go\<close>: fixed windows per key, in a table of bounded
  size. The map is an association list with distinct keys; \<open>visit\<close> is the order in which the
  \<open>range\<close> loop of a call happens to visit the keys, so it is an arbitrary enumeration of them.
\<close>

section \<open>The limiter\<close>

definition loginAttemptLimit :: int where "loginAttemptLimit = 5"
definition loginSourceAttemptLimit :: int where "loginSourceAttemptLimit = 50"
definition loginAuditAttemptLimit :: int where "loginAuditAttemptLimit = 10"
definition loginAttemptWindow :: duration where "loginAttemptWindow = minutes 15"
definition maxLoginLimiterEntries :: nat where "maxLoginLimiterEntries = 10000"

record login_attempt =
  la_count :: int
  la_window_start :: time

type_synonym attempts = "(string \<times> login_attempt) list"

record login_limiter =
  ll_attempts :: attempts
  ll_limit :: int

definition newLoginLimiter :: "int \<Rightarrow> login_limiter" where
  "newLoginLimiter limit = \<lparr>ll_attempts = [], ll_limit = limit\<rparr>"

definition limiter_key :: "string \<Rightarrow> string" where
  "limiter_key key = (if trim_space key = [] then ''unknown'' else key)"

text \<open>The loop that drops expired entries and looks for the oldest live one.\<close>

fun sweep :: "time \<Rightarrow> string list \<Rightarrow> attempts \<times> string \<times> time \<Rightarrow> attempts \<times> string \<times> time" where
  "sweep now [] acc = acc"
| "sweep now (k # ks) (m, oldestKey, oldest) = (case map_of m k of
     None \<Rightarrow> sweep now ks (m, oldestKey, oldest)
   | Some existing \<Rightarrow>
       if now - la_window_start existing \<ge> loginAttemptWindow
       then sweep now ks (AList.delete k m, oldestKey, oldest)
       else if oldestKey = [] \<or> la_window_start existing < oldest
       then sweep now ks (m, k, la_window_start existing)
       else sweep now ks (m, oldestKey, oldest))"

definition make_room :: "string list \<Rightarrow> time \<Rightarrow> attempts \<Rightarrow> attempts" where
  "make_room visit now m = (case sweep now visit (m, [], zero_time) of
     (m', oldestKey, _) \<Rightarrow>
       if length m' \<ge> maxLoginLimiterEntries \<and> oldestKey \<noteq> [] then AList.delete oldestKey m' else m')"

text \<open>The attempt a call continues: the stored one, unless there is none or its window is over.\<close>

definition current_attempt :: "time \<Rightarrow> login_attempt option \<Rightarrow> login_attempt" where
  "current_attempt now found =
     (let attempt = (case found of Some a \<Rightarrow> a | None \<Rightarrow> \<lparr>la_count = 0, la_window_start = zero_time\<rparr>) in
      if la_window_start attempt = zero_time \<or> now - la_window_start attempt \<ge> loginAttemptWindow
      then \<lparr>la_count = 0, la_window_start = now\<rparr> else attempt)"

definition Allow :: "string list \<Rightarrow> time \<Rightarrow> string \<Rightarrow> login_limiter \<Rightarrow> bool \<times> login_limiter" where
  "Allow visit now key0 l =
     (let key = limiter_key key0; m = ll_attempts l; found = map_of m key;
          m1 = (if found = None \<and> length m \<ge> maxLoginLimiterEntries then make_room visit now m else m);
          attempt = current_attempt now found in
      if la_count attempt \<ge> ll_limit l then (False, l\<lparr>ll_attempts := m1\<rparr>)
      else (True, l\<lparr>ll_attempts := AList.update key (attempt\<lparr>la_count := la_count attempt + 1\<rparr>) m1\<rparr>))"

definition Reset :: "string \<Rightarrow> login_limiter \<Rightarrow> login_limiter" where
  "Reset key0 l = l\<lparr>ll_attempts := AList.delete (limiter_key key0) (ll_attempts l)\<rparr>"

section \<open>Facts about the table\<close>

definition keys :: "attempts \<Rightarrow> string list" where "keys m = map fst m"

definition enumerates :: "string list \<Rightarrow> attempts \<Rightarrow> bool" where
  "enumerates visit m = (distinct visit \<and> set visit = fst ` set m)"

definition limiter_inv :: "login_limiter \<Rightarrow> bool" where
  "limiter_inv l = (distinct (map fst (ll_attempts l)) \<and> [] \<notin> fst ` set (ll_attempts l)
     \<and> length (ll_attempts l) \<le> maxLoginLimiterEntries
     \<and> (\<forall>a \<in> snd ` set (ll_attempts l). 0 < la_count a \<and> la_count a \<le> ll_limit l))"

lemma limiter_key_ne: "limiter_key k \<noteq> []"
  by (auto simp: limiter_key_def)

lemma limiter_key_idem: "limiter_key (limiter_key k) = limiter_key k"
proof -
  have "trim_space ''unknown'' = ''unknown''" by (rule trim_space_plain; simp add: plain_def)
  then show ?thesis by (simp add: limiter_key_def)
qed

lemma delete_sub: "set (AList.delete k m) \<subseteq> set m"
  by (simp add: AList.delete_eq)

lemma length_delete_le: "length (AList.delete k m) \<le> length m"
  by (simp add: AList.delete_eq)

lemma length_delete_less: "k \<in> fst ` set m \<Longrightarrow> length (AList.delete k m) < length m"
  unfolding AList.delete_eq by (auto intro: length_filter_less)

lemma length_update_new: "k \<notin> fst ` set m \<Longrightarrow> length (AList.update k v m) = Suc (length m)"
  by (induction m) auto

lemma length_update_old: "k \<in> fst ` set m \<Longrightarrow> length (AList.update k v m) = length m"
  by (induction m) auto

lemma snd_update: "snd ` set (AList.update k v m) \<subseteq> insert v (snd ` set m)"
  by (induction m) auto

text \<open>A sweep only deletes; it finds a live entry unless all visited ones were deleted.\<close>

lemma sweep_sub:
  "sweep now ks (m, ok, o1) = (m', ok', o') \<Longrightarrow>
     set m' \<subseteq> set m \<and> (distinct (map fst m) \<longrightarrow> distinct (map fst m')) \<and> length m' \<le> length m"
proof (induction now ks "(m, ok, o1)" arbitrary: m ok o1 rule: sweep.induct)
  case (2 now k ks m ok o1)
  show ?case
  proof (cases "map_of m k")
    case None
    then show ?thesis using 2 by auto
  next
    case (Some a)
    have d: "set (AList.delete k m) \<subseteq> set m" "length (AList.delete k m) \<le> length m"
      "distinct (map fst m) \<longrightarrow> distinct (map fst (AList.delete k m))"
      by (rule delete_sub, rule length_delete_le, intro impI distinct_delete)
    show ?thesis
    proof (cases "now - la_window_start a \<ge> loginAttemptWindow")
      case True
      then show ?thesis using 2(2)[OF Some True] 2(5) Some d by fastforce
    next
      case False
      then show ?thesis using 2(3,4)[OF Some False] 2(5) Some by (auto split: if_splits)
    qed
  qed
qed auto

lemma sweep_finds:
  "sweep now ks (m, ok, o1) = (m', ok', o') \<Longrightarrow> [] \<notin> set ks \<Longrightarrow>
     length m' < length m
     \<or> (m' = m \<and> (ok' = ok \<or> ok' \<in> set ks)
        \<and> (ok \<noteq> [] \<or> (\<exists>k \<in> set ks. map_of m k \<noteq> None) \<longrightarrow> ok' \<noteq> []))"
proof (induction now ks "(m, ok, o1)" arbitrary: m ok o1 rule: sweep.induct)
  case (2 now k ks m ok o1)
  show ?case
  proof (cases "map_of m k")
    case None
    then show ?thesis using 2 by auto
  next
    case (Some a)
    show ?thesis
    proof (cases "now - la_window_start a \<ge> loginAttemptWindow")
      case True
      then have "sweep now ks (AList.delete k m, ok, o1) = (m', ok', o')" using 2(5) Some by simp
      from sweep_sub[OF this] have "length m' \<le> length (AList.delete k m)" by blast
      also have "\<dots> < length m"
        by (rule length_delete_less) (use Some in \<open>force dest: map_of_SomeD\<close>)
      finally show ?thesis by blast
    next
      case False
      show ?thesis
      proof (cases "ok = [] \<or> la_window_start a < o1")
        case True
        then have "sweep now ks (m, k, la_window_start a) = (m', ok', o')" using 2(5) Some False by simp
        then show ?thesis using 2(3)[OF Some False True] 2(6) by auto
      next
        case f2: False
        then have "sweep now ks (m, ok, o1) = (m', ok', o')" using 2(5) Some False by simp
        then show ?thesis using 2(4)[OF Some False f2] 2(6) f2 by auto
      qed
    qed
  qed
qed auto

lemma make_room_sub: "set (make_room visit now m) \<subseteq> set m"
  and make_room_distinct: "distinct (map fst m) \<Longrightarrow> distinct (map fst (make_room visit now m))"
proof -
  obtain m' ok o1 where s: "sweep now visit (m, [], zero_time) = (m', ok, o1)" by (metis prod.exhaust)
  show "set (make_room visit now m) \<subseteq> set m"
    using sweep_sub[OF s] delete_sub[of ok m'] by (auto simp: make_room_def s)
  show "distinct (map fst m) \<Longrightarrow> distinct (map fst (make_room visit now m))"
    using sweep_sub[OF s] distinct_delete[of m' ok] by (auto simp: make_room_def s)
qed

lemma make_room_room:
  assumes "enumerates visit m" and "[] \<notin> fst ` set m" and "length m = maxLoginLimiterEntries"
  shows "length (make_room visit now m) < maxLoginLimiterEntries"
proof -
  obtain m' ok o1 where s: "sweep now visit (m, [], zero_time) = (m', ok, o1)" by (metis prod.exhaust)
  have v: "[] \<notin> set visit" "set visit = fst ` set m" using assms by (auto simp: enumerates_def)
  have "m \<noteq> []" using assms(3) by (auto simp: maxLoginLimiterEntries_def)
  then obtain k where "k \<in> set visit" "map_of m k \<noteq> None"
    using v(2) by (cases m) (auto split: if_splits, force)
  then consider "length m' < length m" | "m' = m" "ok \<in> set visit" "ok \<noteq> []"
    using sweep_finds[OF s v(1)] by auto
  then show ?thesis
  proof cases
    case 1
    then show ?thesis using assms(3) by (simp add: make_room_def s)
  next
    case 2
    then show ?thesis using length_delete_less[of ok m] v(2) assms(3) by (simp add: make_room_def s)
  qed
qed

lemma Allow_inv:
  assumes i: "limiter_inv l" and e: "enumerates visit (ll_attempts l)" and a: "Allow visit now key l = (b, l')"
  shows "limiter_inv l' \<and> ll_limit l' = ll_limit l"
proof -
  let ?k = "limiter_key key" and ?m = "ll_attempts l"
  define m1 where "m1 = (if map_of ?m ?k = None \<and> length ?m \<ge> maxLoginLimiterEntries then make_room visit now ?m else ?m)"
  have sub: "set m1 \<subseteq> set ?m" and d: "distinct (map fst m1)"
    using make_room_sub make_room_distinct i by (auto simp: m1_def limiter_inv_def)
  have len: "length m1 \<le> maxLoginLimiterEntries" and
    room: "map_of ?m ?k = None \<Longrightarrow> length m1 < maxLoginLimiterEntries"
    using make_room_room[OF e, of now] i by (auto simp: m1_def limiter_inv_def le_less)
  have inv1: "limiter_inv (l\<lparr>ll_attempts := m1\<rparr>)"
    using i sub d len by (auto simp: limiter_inv_def)
  show ?thesis
  proof (cases b)
    case False
    then have "l' = l\<lparr>ll_attempts := m1\<rparr>"
      using a by (auto simp: Allow_def Let_def m1_def split: if_splits)
    then show ?thesis using inv1 by simp
  next
    case True
    let ?at = "current_attempt now (map_of ?m ?k)"
    have "0 \<le> la_count ?at"
      using i map_of_SomeD[of ?m ?k]
      by (fastforce simp: current_attempt_def Let_def limiter_inv_def split: option.splits)
    moreover have "la_count ?at < ll_limit l"
      and l': "l' = l\<lparr>ll_attempts := AList.update ?k (?at\<lparr>la_count := la_count ?at + 1\<rparr>) m1\<rparr>"
      using a True by (auto simp: Allow_def Let_def m1_def split: if_splits)
    ultimately have at': "0 \<le> la_count ?at \<and> la_count ?at < ll_limit l" by simp
    let ?u = "AList.update ?k (?at\<lparr>la_count := la_count ?at + 1\<rparr>) m1"
    have 1: "length ?u \<le> maxLoginLimiterEntries"
    proof (cases "?k \<in> fst ` set m1")
      case True
      then show ?thesis using len by (simp add: length_update_old)
    next
      case False
      have "map_of ?m ?k = None \<or> m1 = ?m" by (auto simp: m1_def)
      then have "map_of ?m ?k = None" using False by (auto simp: map_of_eq_None_iff)
      then show ?thesis using room False by (simp add: length_update_new)
    qed
    have 2: "distinct (map fst ?u)" using d by (simp add: distinct_update)
    have 3: "fst ` set ?u = insert ?k (fst ` set m1)"
      by (simp add: dom_update)
    have 4: "0 < la_count x \<and> la_count x \<le> ll_limit l" if "x \<in> snd ` set ?u" for x
    proof -
      have "x = ?at\<lparr>la_count := la_count ?at + 1\<rparr> \<or> x \<in> snd ` set m1"
        using subsetD[OF snd_update that] by (rule insertE) blast+
      then show ?thesis using at' inv1 by (auto simp: limiter_inv_def)
    qed
    have 5: "[] \<notin> fst ` set ?u" unfolding 3 using inv1 limiter_key_ne[of key] by (auto simp: limiter_inv_def)
    have "limiter_inv (l\<lparr>ll_attempts := ?u\<rparr>)"
      unfolding limiter_inv_def using 1 2 4 5 by simp
    then show ?thesis unfolding l' by simp
  qed
qed

lemma Reset_inv: "limiter_inv l \<Longrightarrow> limiter_inv (Reset key l) \<and> ll_limit (Reset key l) = ll_limit l"
  using delete_sub[of "limiter_key key" "ll_attempts l"] length_delete_le[of "limiter_key key" "ll_attempts l"]
  by (auto simp: limiter_inv_def Reset_def distinct_delete)

section \<open>Properties\<close>

text \<open>The states a limiter can be in: any calls, any clock, any order of the map's iteration.\<close>

inductive limiter_reach :: "int \<Rightarrow> login_limiter \<Rightarrow> bool" for limit where
  new: "limiter_reach limit (newLoginLimiter limit)"
| allow: "limiter_reach limit l \<Longrightarrow> enumerates visit (ll_attempts l) \<Longrightarrow>
    limiter_reach limit (snd (Allow visit now key l))"
| reset: "limiter_reach limit l \<Longrightarrow> limiter_reach limit (Reset key l)"

lemma limiter_reach_inv: "limiter_reach limit l \<Longrightarrow> limiter_inv l \<and> ll_limit l = limit"
proof (induction rule: limiter_reach.induct)
  case new
  then show ?case by (simp add: limiter_inv_def newLoginLimiter_def)
next
  case (allow l visit now key)
  then show ?case using Allow_inv by (metis prod.collapse)
next
  case (reset l key)
  then show ?case using Reset_inv by blast
qed

text \<open>C28. The limiter's memory is bounded whatever an attacker sends: after any calls, with any
  keys and any clock, the table holds at most 10000 entries, all with distinct non-empty keys and
  a count between 1 and the limit.\<close>

theorem limiter_bounded:
  assumes "limiter_reach limit l"
  shows "length (ll_attempts l) \<le> 10000 \<and> distinct (map fst (ll_attempts l))
    \<and> [] \<notin> fst ` set (ll_attempts l) \<and> la_count ` snd ` set (ll_attempts l) \<subseteq> {1..limit}"
  using limiter_reach_inv[OF assms] by (auto simp: limiter_inv_def maxLoginLimiterEntries_def)

lemma demo_reach: "limiter_reach 5 (snd (Allow [] 10 ''k'' (newLoginLimiter 5)))"
  by (intro limiter_reach.intros) (simp add: enumerates_def newLoginLimiter_def)

theorem limiter_bounded_witness:
  "length (ll_attempts (snd (Allow [] 10 ''k'' (newLoginLimiter 5)))) \<le> 10000"
  using limiter_bounded[OF demo_reach] by blast

text \<open>The calls the server makes: an attempt, with the order in which a full table would be visited,
  the clock and the key; and the reset after a successful login. A run answers the attempts.\<close>

datatype limiter_call = Attempt "string list" time string | ResetKey string

fun run_calls :: "limiter_call list \<Rightarrow> login_limiter \<Rightarrow> (string \<times> bool) list \<times> login_limiter" where
  "run_calls [] l = ([], l)"
| "run_calls (Attempt visit now key # cs) l =
     (let (b, l1) = Allow visit now key l; (bs, l2) = run_calls cs l1 in ((limiter_key key, b) # bs, l2))"
| "run_calls (ResetKey key # cs) l = run_calls cs (Reset key l)"

text \<open>The answers given to one key, the attempts of a key, and the calls that matter for a window.\<close>

definition answers_for :: "string \<Rightarrow> (string \<times> bool) list \<Rightarrow> bool list" where
  "answers_for k bs = map snd (filter (\<lambda>(k', b). k' = k) bs)"

fun attempt_of :: "string \<Rightarrow> limiter_call \<Rightarrow> bool" where
  "attempt_of k (Attempt visit t key) = (limiter_key key = k)"
| "attempt_of k (ResetKey key) = False"

fun within :: "time \<Rightarrow> string \<Rightarrow> limiter_call \<Rightarrow> bool" where
  "within t0 k (Attempt visit t key) = (t0 \<le> t \<and> t < t0 + loginAttemptWindow)"
| "within t0 k (ResetKey key) = (limiter_key key \<noteq> k)"

lemma allow_roomy:
  assumes "length (ll_attempts l) < maxLoginLimiterEntries" and "Allow visit now key l = (b, l')"
  shows "b = (la_count (current_attempt now (map_of (ll_attempts l) (limiter_key key))) < ll_limit l)
    \<and> ll_limit l' = ll_limit l \<and> length (ll_attempts l') \<le> Suc (length (ll_attempts l))
    \<and> map_of (ll_attempts l') = (if b then (map_of (ll_attempts l))(limiter_key key \<mapsto>
        (current_attempt now (map_of (ll_attempts l) (limiter_key key)))\<lparr>la_count :=
           la_count (current_attempt now (map_of (ll_attempts l) (limiter_key key))) + 1\<rparr>)
       else map_of (ll_attempts l))"
proof -
  have "length (AList.update k v m) \<le> Suc (length m)" for k v and m :: attempts
    by (cases "k \<in> fst ` set m") (simp_all add: length_update_new length_update_old)
  then show ?thesis
    using assms by (auto simp: Allow_def Let_def update_conv' not_less split: if_splits)
qed

text \<open>The remaining quota of a key whose window started at or after \<open>t0\<close>.\<close>

definition used :: "time \<Rightarrow> string \<Rightarrow> login_limiter \<Rightarrow> int \<Rightarrow> bool" where
  "used t0 k l c = (case map_of (ll_attempts l) k of None \<Rightarrow> c = 0
     | Some a \<Rightarrow> la_count a = c \<and> t0 \<le> la_window_start a)"

lemma map_of_delete_other: "k \<noteq> k' \<Longrightarrow> map_of (AList.delete k' m) k = map_of m k"
  by (simp add: delete_conv')

lemma reset_used:
  assumes "limiter_key key \<noteq> k" and "used t0 k l c"
  shows "used t0 k (Reset key l) c \<and> ll_limit (Reset key l) = ll_limit l
    \<and> length (ll_attempts (Reset key l)) \<le> length (ll_attempts l)"
  using assms by (auto simp: used_def Reset_def map_of_delete_other length_delete_le)

lemma quota:
  assumes "0 < t0" and "list_all (within t0 k) cs"
    and "length (ll_attempts l) + length cs \<le> maxLoginLimiterEntries"
    and "used t0 k l c" and "0 \<le> c" and "c \<le> ll_limit l"
  shows "answers_for k (fst (run_calls cs l))
    = (let n = length (filter (attempt_of k) cs); q = nat (ll_limit l - c) in
       replicate (min q n) True @ replicate (n - q) False)"
  using assms(2-)
proof (induction cs arbitrary: l c)
  case Nil
  then show ?case by (simp add: answers_for_def)
next
  case (Cons call cs)
  show ?case
  proof (cases call)
    case (ResetKey key)
    then have ne: "limiter_key key \<noteq> k" using Cons.prems(1) by simp
    note r = reset_used[OF ne Cons.prems(3)]
    have "answers_for k (fst (run_calls cs (Reset key l)))
      = (let n = length (filter (attempt_of k) cs); q = nat (ll_limit (Reset key l) - c) in
         replicate (min q n) True @ replicate (n - q) False)"
      by (rule Cons.IH) (use Cons.prems r in auto)
    then show ?thesis using r ResetKey by simp
  next
    case call: (Attempt visit t key)
    obtain b l1 where a: "Allow visit t key l = (b, l1)" by fastforce
    have room: "length (ll_attempts l) < maxLoginLimiterEntries" using Cons.prems(2) by simp
    note r = allow_roomy[OF room a]
    have t: "t0 \<le> t" "t < t0 + loginAttemptWindow" using Cons.prems(1) call by auto
    have rest: "list_all (within t0 k) cs" "length (ll_attempts l1) + length cs \<le> maxLoginLimiterEntries"
      using Cons.prems(1,2) r by auto
    have st: "answers_for k (fst (run_calls (call # cs) l))
        = (if limiter_key key = k then [b] else []) @ answers_for k (fst (run_calls cs l1))"
      by (simp add: call a answers_for_def split: prod.split)
    show ?thesis
    proof (cases "limiter_key key = k")
      case False
      then have "used t0 k l1 c" using Cons.prems(3) r by (auto simp: used_def)
      from Cons.IH[OF rest this Cons.prems(4)] show ?thesis
        using False r Cons.prems(5) unfolding st by (simp add: call del: run_calls.simps)
    next
      case True
      let ?at = "current_attempt t (map_of (ll_attempts l) k)"
      have at: "la_count ?at = c" "t0 \<le> la_window_start ?at"
        using Cons.prems(3) t assms(1)
        by (auto simp: used_def current_attempt_def Let_def zero_time_def split: option.splits)
      show ?thesis
      proof (cases "c < ll_limit l")
        case lt: True
        then have b: b using r True at by simp
        then have "used t0 k l1 (c + 1)" using r True at by (simp add: used_def)
        then have ih: "answers_for k (fst (run_calls cs l1))
          = (let n = length (filter (attempt_of k) cs); q = nat (ll_limit l1 - (c + 1)) in
             replicate (min q n) True @ replicate (n - q) False)"
          by (intro Cons.IH rest) (use Cons.prems(4) lt r in auto)
        have q: "nat (ll_limit l - c) = Suc (nat (ll_limit l - (c + 1)))" using lt by arith
        show ?thesis using ih r b True q unfolding st by (simp add: call Let_def del: run_calls.simps)
      next
        case ge: False
        then have b: "\<not> b" using r True at by simp
        then have "used t0 k l1 c" using Cons.prems(3) r by (auto simp: used_def)
        from Cons.IH[OF rest this Cons.prems(4)] show ?thesis
          using b r True ge Cons.prems(5) unfolding st by (simp add: call Let_def del: run_calls.simps)
      qed
    qed
  qed
qed

text \<open>C27. Brute force is throttled exactly: from a state that has no entry for a key (a new limiter,
  or one after a reset of the key), over any sequence of attempts of this and other keys and of
  resets of other keys within one window of 15 minutes, precisely the first \<open>limit\<close> attempts of the
  key are allowed and every further one is refused; the calls under other keys make no difference.
  Provided the table has room for the sequence (its entries and the calls are at most 10000, so that
  none is evicted) and the key itself is not reset on the way: a successful login resets it.\<close>

theorem limiter_throttles:
  assumes "0 < t0"
    and "list_all (\<lambda>c. case c of Attempt visit t key \<Rightarrow> t0 \<le> t \<and> t < t0 + loginAttemptWindow
           | ResetKey key \<Rightarrow> limiter_key key \<noteq> k) cs"
    and "length (ll_attempts l) + length cs \<le> 10000"
    and "map_of (ll_attempts l) k = None" and "0 \<le> ll_limit l"
    and "attempts = filter (\<lambda>c. case c of Attempt visit t key \<Rightarrow> limiter_key key = k | ResetKey key \<Rightarrow> False) cs"
  shows "answers_for k (fst (run_calls cs l))
    = replicate (min (nat (ll_limit l)) (length attempts)) True
      @ replicate (length attempts - nat (ll_limit l)) False"
proof -
  have w: "within t0 k = (\<lambda>c. case c of Attempt visit t key \<Rightarrow> t0 \<le> t \<and> t < t0 + loginAttemptWindow
           | ResetKey key \<Rightarrow> limiter_key key \<noteq> k)" by (rule ext) (simp split: limiter_call.split)
  have a: "attempt_of k = (\<lambda>c. case c of Attempt visit t key \<Rightarrow> limiter_key key = k | ResetKey key \<Rightarrow> False)"
    by (rule ext) (simp split: limiter_call.split)
  show ?thesis
    using quota[OF assms(1) assms(2)[folded w], of l 0] assms(3-5)
    by (simp add: used_def Let_def assms(6) a maxLoginLimiterEntries_def)
qed

theorem limiter_throttles_witness:
  "answers_for ''k'' (fst (run_calls [Attempt [] 10 ''k'', Attempt [] 11 ''x'', ResetKey ''x'', Attempt [] 12 ''k'']
     (newLoginLimiter 1))) = [True, False]"
proof -
  have "trim_space ''k'' = ''k''" "trim_space ''x'' = ''x''" by (rule trim_space_plain; simp add: plain_def)+
  then have "limiter_key ''k'' = ''k''" "limiter_key ''x'' = ''x''" by (simp_all add: limiter_key_def)
  then show ?thesis
    by (subst limiter_throttles[OF _ _ _ _ _ refl, of 10])
      (simp_all add: newLoginLimiter_def loginAttemptWindow_def)
qed

end
