(* ===== verification/Password.thy ===== *)
theory Password
  imports Errors "HOL-Library.Word"
begin

text \<open>
  \<open>internal/auth/password.go\<close>: the text form of an argon2id hash, its parser, and the two
  operations over it. argon2 itself is a parameter, \<open>kdf password salt iterations memory
  parallelism length\<close>. The unpadded base64 of \<open>encoding/base64\<close> and \<open>strconv.Atoi\<close> are
  modelled as the standard library defines them.
\<close>

section \<open>Base64 without padding\<close>

definition std_alphabet :: string where
  "std_alphabet = ''ABCDEFGHIJKLMNOPQRSTUVWXYZabcdefghijklmnopqrstuvwxyz0123456789+/''"

definition url_alphabet :: string where
  "url_alphabet = ''ABCDEFGHIJKLMNOPQRSTUVWXYZabcdefghijklmnopqrstuvwxyz0123456789-_''"

fun sextets :: "nat list \<Rightarrow> nat list" where
  "sextets [] = []"
| "sextets [a] = [a div 4, (a mod 4) * 16]"
| "sextets [a, b] = [a div 4, (a mod 4) * 16 + b div 16, (b mod 16) * 4]"
| "sextets (a # b # c # rest) =
     [a div 4, (a mod 4) * 16 + b div 16, (b mod 16) * 4 + c div 64, c mod 64] @ sextets rest"

fun unsextets :: "nat list \<Rightarrow> nat list option" where
  "unsextets [] = Some []"
| "unsextets [a] = None"
| "unsextets [a, b] = Some [a * 4 + b div 16]"
| "unsextets [a, b, c] = Some [a * 4 + b div 16, (b mod 16) * 16 + c div 4]"
| "unsextets (a # b # c # d # rest) = (case unsextets rest of None \<Rightarrow> None
     | Some bs \<Rightarrow> Some ([a * 4 + b div 16, (b mod 16) * 16 + c div 4, (c mod 4) * 64 + d] @ bs))"

definition b64_encode :: "string \<Rightarrow> string \<Rightarrow> string" where
  "b64_encode alphabet s = map (\<lambda>n. alphabet ! n) (sextets (map byte s))"

text \<open>The decoder skips line ends and does not check the unused bits of the last character.\<close>

fun position :: "char \<Rightarrow> string \<Rightarrow> nat option" where
  "position c [] = None"
| "position c (x # xs) = (if c = x then Some 0 else map_option Suc (position c xs))"

definition b64_decode :: "string \<Rightarrow> string \<Rightarrow> string option" where
  "b64_decode alphabet s =
     (case those (map (\<lambda>c. position c alphabet) (filter (\<lambda>c. c \<noteq> CHR 0x0A \<and> c \<noteq> CHR 0x0D) s)) of
        None \<Rightarrow> None | Some ns \<Rightarrow> map_option (map char_of) (unsextets ns))"

section \<open>Parameters\<close>

record password_hash_params =
  hp_memory_kb :: "32 word"
  hp_iterations :: "32 word"
  hp_parallelism :: "8 word"
  hp_salt_length :: "32 word"
  hp_key_length :: "32 word"

definition DefaultPasswordHashParams :: password_hash_params where
  "DefaultPasswordHashParams = \<lparr>hp_memory_kb = 64 * 1024, hp_iterations = 3, hp_parallelism = 2,
     hp_salt_length = 16, hp_key_length = 32\<rparr>"

definition validateHashParams :: "password_hash_params \<Rightarrow> err + unit" where
  "validateHashParams p =
     (if hp_memory_kb p = 0 \<or> hp_iterations p = 0 \<or> hp_parallelism p = 0 \<or> hp_salt_length p = 0
         \<or> hp_key_length p = 0
      then Inl (Plain ''password hash params must be non-zero'') else Inr ())"

text \<open>\<open>strconv.Atoi\<close> on 64 bits.\<close>

fun digits_value :: "nat \<Rightarrow> string \<Rightarrow> nat option" where
  "digits_value n [] = Some n"
| "digits_value n (c # cs) = (if 48 \<le> byte c \<and> byte c \<le> 57
     then digits_value (n * 10 + (byte c - 48)) cs else None)"

definition atoi :: "string \<Rightarrow> int option" where
  "atoi s =
     (let (neg, ds) = (case s of [] \<Rightarrow> (False, [])
            | c # cs \<Rightarrow> if c = CHR ''-'' then (True, cs) else if c = CHR ''+'' then (False, cs) else (False, s)) in
      if ds = [] then None
      else (case digits_value 0 ds of None \<Rightarrow> None
            | Some n \<Rightarrow>
                (let v = (if neg then - int n else int n) in
                 if - (2 ^ 63) \<le> v \<and> v < 2 ^ 63 then Some v else None)))"

text \<open>\<open>parseParamList\<close>: the loop over the parts fills the map \<open>out\<close>.\<close>

fun parse_parts :: "string list \<Rightarrow> (string \<rightharpoonup> int) \<Rightarrow> err + (string \<rightharpoonup> int)" where
  "parse_parts [] out = Inr out"
| "parse_parts (part # parts) out = (case cut CHR ''='' part of
     None \<Rightarrow> Inl ErrInvalidPasswordHash
   | Some (k, v) \<Rightarrow> (case atoi v of
        None \<Rightarrow> Inl ErrInvalidPasswordHash
      | Some n \<Rightarrow> if n \<le> 0 then Inl ErrInvalidPasswordHash else parse_parts parts (out(k \<mapsto> n))))"

definition parseParamList :: "string \<Rightarrow> err + (string \<rightharpoonup> int)" where
  "parseParamList raw = rbind (parse_parts (split_on CHR '','' raw) Map.empty) (\<lambda>out.
     if \<exists>k \<in> set [''m'', ''t'', ''p'']. out k = None then Inl ErrInvalidPasswordHash else Inr out)"

section \<open>Hashing and verification\<close>

type_synonym kdf = "string \<Rightarrow> string \<Rightarrow> 32 word \<Rightarrow> 32 word \<Rightarrow> 8 word \<Rightarrow> 32 word \<Rightarrow> string"

text \<open>\<open>salt\<close> is what \<open>rand.Read\<close> put into the buffer, or its error.\<close>

definition HashPassword :: "kdf \<Rightarrow> err + string \<Rightarrow> string \<Rightarrow> password_hash_params \<Rightarrow> err + string" where
  "HashPassword kdf rand password params =
     rbind (validateHashParams params) (\<lambda>_.
     rbind rand (\<lambda>salt.
       let key = kdf password salt (hp_iterations params) (hp_memory_kb params)
             (hp_parallelism params) (hp_key_length params) in
       Inr (''argon2id$v=19$m='' @ digits (unat (hp_memory_kb params)) @ '',t='' @ digits (unat (hp_iterations params))
         @ '',p='' @ digits (unat (hp_parallelism params)) @ ''$'' @ b64_encode std_alphabet salt
         @ ''$'' @ b64_encode std_alphabet key)))"

definition decodePasswordHash :: "string \<Rightarrow> err + password_hash_params \<times> string \<times> string" where
  "decodePasswordHash encodedHash = (case split_on CHR ''$'' encodedHash of
     [alg, version, plist, esalt, ekey] \<Rightarrow>
       (if alg \<noteq> ''argon2id'' \<or> version \<noteq> ''v=19'' then Inl ErrInvalidPasswordHash
        else rbind (parseParamList plist) (\<lambda>params.
          case b64_decode std_alphabet esalt of None \<Rightarrow> Inl ErrInvalidPasswordHash
          | Some salt \<Rightarrow> (case b64_decode std_alphabet ekey of None \<Rightarrow> Inl ErrInvalidPasswordHash
          | Some key \<Rightarrow>
              (let hashParams = \<lparr>hp_memory_kb = word_of_int (the (params ''m'')),
                     hp_iterations = word_of_int (the (params ''t'')),
                     hp_parallelism = word_of_int (the (params ''p'')),
                     hp_salt_length = of_nat (length salt), hp_key_length = of_nat (length key)\<rparr> in
               case validateHashParams hashParams of
                 Inl _ \<Rightarrow> Inl ErrInvalidPasswordHash
               | Inr _ \<Rightarrow> Inr (hashParams, salt, key)))))
   | _ \<Rightarrow> Inl ErrInvalidPasswordHash)"

definition VerifyPassword :: "kdf \<Rightarrow> string \<Rightarrow> string \<Rightarrow> err + bool" where
  "VerifyPassword kdf password encodedHash =
     rbind (decodePasswordHash encodedHash) (\<lambda>(params, salt, expectedKey).
       Inr (kdf password salt (hp_iterations params) (hp_memory_kb params)
              (hp_parallelism params) (hp_key_length params) = expectedKey))"

section \<open>Base64 round trip\<close>

lemma sextets_less: "\<forall>b \<in> set bs. b < 256 \<Longrightarrow> n \<in> set (sextets bs) \<Longrightarrow> n < 64"
proof (induction bs rule: sextets.induct)
  case (4 a b c rest)
  then have "a < 256" "b < 256" "c < 256" by auto
  then have "a div 4 < 64" "(a mod 4) * 16 + b div 16 < 64" "(b mod 16) * 4 + c div 64 < 64" "c mod 64 < 64"
    by auto
  then show ?case using 4 by auto
qed auto

lemma regroup:
  fixes a b c :: nat
  assumes "b < 256" "c < 256"
  shows "a div 4 * 4 + ((a mod 4) * 16 + b div 16) div 16 = a"
    and "((a mod 4) * 16 + b div 16) mod 16 * 16 + ((b mod 16) * 4 + c div 64) div 4 = b"
    and "((b mod 16) * 4 + c div 64) mod 4 * 64 + c mod 64 = c"
proof -
  have "b div 16 < 16" "c div 64 < 4" using assms by auto
  then show "a div 4 * 4 + ((a mod 4) * 16 + b div 16) div 16 = a"
    and "((a mod 4) * 16 + b div 16) mod 16 * 16 + ((b mod 16) * 4 + c div 64) div 4 = b"
    and "((b mod 16) * 4 + c div 64) mod 4 * 64 + c mod 64 = c"
    by auto
qed

lemma unsextets_sextets: "\<forall>b \<in> set bs. b < 256 \<Longrightarrow> unsextets (sextets bs) = Some bs"
proof (induction bs rule: sextets.induct)
  case (2 a)
  then show ?case by auto
next
  case (3 a b)
  then show ?case using regroup(1,2)[of b 0 a] by auto
next
  case (4 a b c rest)
  then have "b < 256" "c < 256" "unsextets (sextets rest) = Some rest" by auto
  then show ?case using regroup(1,2)[of b c a] regroup(3)[of b c] by simp
qed simp

lemma position_nth: "distinct al \<Longrightarrow> n < length al \<Longrightarrow> position (al ! n) al = Some n"
proof (induction al arbitrary: n)
  case (Cons x xs)
  then show ?case by (cases n) auto
qed simp

lemma those_map_Some: "(\<And>x. x \<in> set xs \<Longrightarrow> f x = Some (g x)) \<Longrightarrow> those (map f xs) = Some (map g xs)"
  by (induction xs) auto

lemma alphabet_facts:
  assumes "al = std_alphabet \<or> al = url_alphabet"
  shows "distinct al \<and> length al = 64 \<and> CHR 0x0A \<notin> set al \<and> CHR 0x0D \<notin> set al \<and> CHR ''$'' \<notin> set al"
  using assms by (elim disjE) (simp_all add: std_alphabet_def url_alphabet_def)

lemma b64_chars:
  assumes "al = std_alphabet \<or> al = url_alphabet"
  shows "set (b64_encode al s) \<subseteq> set al"
proof -
  have "n < 64" if "n \<in> set (sextets (map byte s))" for n
    by (rule sextets_less[OF _ that]) (auto intro: nat_of_char_less_256)
  then show ?thesis using alphabet_facts[OF assms] by (auto simp: b64_encode_def)
qed

lemma b64_round:
  assumes "al = std_alphabet \<or> al = url_alphabet"
  shows "b64_decode al (b64_encode al s) = Some s"
proof -
  let ?ns = "sextets (map byte s)"
  have lt: "\<forall>b \<in> set (map byte s). b < 256" by (auto intro: nat_of_char_less_256)
  have n: "n < 64" if "n \<in> set ?ns" for n by (rule sextets_less[OF lt that])
  note al = alphabet_facts[OF assms]
  have "filter (\<lambda>c. c \<noteq> CHR 0x0A \<and> c \<noteq> CHR 0x0D) (b64_encode al s) = b64_encode al s"
    using b64_chars[OF assms, of s] al by (intro filter_True) auto
  moreover have "those (map (\<lambda>c. position c al) (b64_encode al s)) = Some ?ns"
  proof -
    have "map (\<lambda>c. position c al) (b64_encode al s) = map (\<lambda>n. position (al ! n) al) ?ns"
      by (simp add: b64_encode_def)
    also have "those \<dots> = Some (map id ?ns)"
      by (rule those_map_Some) (use n al in \<open>simp add: position_nth\<close>)
    finally show ?thesis by simp
  qed
  moreover have "map char_of (map byte s) = s" by (simp add: map_idI)
  ultimately show ?thesis using unsextets_sextets[OF lt] by (simp add: b64_decode_def del: map_map)
qed

section \<open>Numbers and separators\<close>

lemma split_on_none: "c \<notin> set a \<Longrightarrow> split_on c a = [a]"
  by (induction a) auto

lemma split_on_sep: "c \<notin> set a \<Longrightarrow> split_on c (a @ c # b) = a # split_on c b"
  by (induction a) auto

lemma digit_byte: "k < 10 \<Longrightarrow> byte (char_of (48 + k)) = 48 + k"
  by simp

lemma digits_chars: "c \<in> set (digits n) \<Longrightarrow> 48 \<le> byte c \<and> byte c \<le> 57"
proof (induction n rule: digits.induct)
  case (1 n)
  then show ?case by (subst (asm) (2) digits.simps) (auto split: if_splits)
qed

lemma digits_ne: "digits n \<noteq> []"
  by (subst digits.simps) simp

lemma digits_value_append:
  "digits_value n (a @ b) = (case digits_value n a of None \<Rightarrow> None | Some m \<Rightarrow> digits_value m b)"
  by (induction a arbitrary: n) auto

lemma digits_value_digits: "digits_value 0 (digits n) = Some n"
proof (induction n rule: digits.induct)
  case (1 n)
  show ?case
  proof (cases "n < 10")
    case True
    then show ?thesis by (simp add: digits.simps[of n])
  next
    case False
    then show ?thesis using "1.IH" by (subst digits.simps) (simp add: digits_value_append)
  qed
qed

lemma atoi_digits:
  assumes "n < 2 ^ 63"
  shows "atoi (digits n) = Some (int n)"
proof -
  obtain c cs where d: "digits n = c # cs" using digits_ne by (cases "digits n") auto
  then have "48 \<le> byte c" using digits_chars[of c n] by simp
  then have "c \<noteq> CHR ''-''" "c \<noteq> CHR ''+''" by auto
  then show ?thesis using digits_value_digits[of n] assms d
    by (simp add: atoi_def Let_def)
qed

lemma cut_prefix: "x \<noteq> c \<Longrightarrow> cut c (x # c # v) = Some ([x], v)"
  by simp

lemma digits_no: "c \<in> set ''$,='' \<Longrightarrow> c \<notin> set (digits n)"
  using digits_chars[of c n] by auto

lemma param_list_parsed:
  assumes "m < 2 ^ 63" "t < 2 ^ 63" "p < 2 ^ 63" "0 < m" "0 < t" "0 < p"
  shows "parseParamList (''m='' @ digits m @ '',t='' @ digits t @ '',p='' @ digits p)
    = Inr [''m'' \<mapsto> int m, ''t'' \<mapsto> int t, ''p'' \<mapsto> int p]"
proof -
  have no: "CHR '','' \<notin> set (digits n)" for n using digits_no by simp
  have "split_on CHR '','' (''m='' @ digits m @ '',t='' @ digits t @ '',p='' @ digits p)
      = [''m='' @ digits m, ''t='' @ digits t, ''p='' @ digits p]"
    using split_on_sep[of "CHR '',''" "''m='' @ digits m" "''t='' @ digits t @ '',p='' @ digits p"]
      split_on_sep[of "CHR '',''" "''t='' @ digits t" "''p='' @ digits p"]
      split_on_none[of "CHR '',''" "''p='' @ digits p"] no
    by simp
  then show ?thesis using assms by (simp add: parseParamList_def atoi_digits)
qed

section \<open>A hash verifies exactly the passwords with its key\<close>

lemma unat_lt_63: "unat (x :: 32 word) < 2 ^ 63" "unat (y :: 8 word) < 2 ^ 63"
proof -
  have "unat x < 2 ^ LENGTH(32)" "unat y < 2 ^ LENGTH(8)" by (rule unsigned_less)+
  then show "unat x < 2 ^ 63" "unat y < 2 ^ 63" by simp_all
qed

lemma hash_decodes:
  assumes "HashPassword kdf (Inr salt) password params = Inr h"
    and "length salt = unat (hp_salt_length params)"
    and len: "\<And>pw s t m p n. length (kdf pw s t m p n) = unat n"
  shows "decodePasswordHash h = Inr (params, salt, kdf password salt (hp_iterations params)
      (hp_memory_kb params) (hp_parallelism params) (hp_key_length params))"
proof -
  let ?m = "unat (hp_memory_kb params)" and ?t = "unat (hp_iterations params)"
    and ?p = "unat (hp_parallelism params)"
  let ?key = "kdf password salt (hp_iterations params) (hp_memory_kb params)
      (hp_parallelism params) (hp_key_length params)"
  let ?pl = "''m='' @ digits ?m @ '',t='' @ digits ?t @ '',p='' @ digits ?p"
  let ?s = "b64_encode std_alphabet salt" and ?k = "b64_encode std_alphabet ?key"
  have v: "hp_memory_kb params \<noteq> 0" "hp_iterations params \<noteq> 0" "hp_parallelism params \<noteq> 0"
      "hp_salt_length params \<noteq> 0" "hp_key_length params \<noteq> 0"
    and h: "h = ''argon2id$v=19$'' @ ?pl @ ''$'' @ ?s @ ''$'' @ ?k"
    using assms(1) by (auto simp: HashPassword_def validateHashParams_def Let_def rbind_eq_Inr split: if_splits)
  have no: "CHR ''$'' \<notin> set ?pl" "CHR ''$'' \<notin> set ?s" "CHR ''$'' \<notin> set ?k"
    using digits_no[of "CHR ''$''"] b64_chars[of std_alphabet] alphabet_facts[of std_alphabet] by auto
  have "split_on CHR ''$'' h = [''argon2id'', ''v=19'', ?pl, ?s, ?k]"
    using split_on_sep[of "CHR ''$''" "''argon2id''" "''v=19$'' @ ?pl @ ''$'' @ ?s @ ''$'' @ ?k"]
      split_on_sep[of "CHR ''$''" "''v=19''" "?pl @ ''$'' @ ?s @ ''$'' @ ?k"]
      split_on_sep[OF no(1), of "?s @ ''$'' @ ?k"] split_on_sep[OF no(2), of ?k] split_on_none[OF no(3)]
    by (simp add: h)
  moreover have "parseParamList ?pl = Inr [''m'' \<mapsto> int ?m, ''t'' \<mapsto> int ?t, ''p'' \<mapsto> int ?p]"
    using v unat_lt_63 by (intro param_list_parsed) (auto simp: unat_gt_0)
  ultimately show ?thesis
    using v b64_round[of std_alphabet] assms(2) len
    by (simp add: decodePasswordHash_def validateHashParams_def Let_def)
qed

text \<open>C31. Passwords round trip: whatever the password, salt and (non-zero) parameters, the text
  \<open>HashPassword\<close> produces is accepted by \<open>VerifyPassword\<close>, which then answers whether the
  given password derives the same key: always yes for the password that was hashed. (argon2
  delivers as many bytes as it is asked for.)\<close>

theorem password_round_trip:
  assumes "HashPassword kdf (Inr salt) password params = Inr h"
    and "length salt = unat (hp_salt_length params)"
    and "\<And>pw s t m p n. length (kdf pw s t m p n) = unat n"
  shows "VerifyPassword kdf password h = Inr True
    \<and> VerifyPassword kdf other h = Inr
        (kdf other salt (hp_iterations params) (hp_memory_kb params) (hp_parallelism params) (hp_key_length params)
         = kdf password salt (hp_iterations params) (hp_memory_kb params) (hp_parallelism params) (hp_key_length params))"
  using hash_decodes[OF assms] by (simp add: VerifyPassword_def)

definition toy_kdf :: kdf where
  "toy_kdf pw s t m p n = take (unat n) (pw @ replicate (unat n) CHR ''x'')"

theorem password_round_trip_witness:
  "\<exists>h. HashPassword toy_kdf (Inr ''0123456789abcdef'') ''correct horse'' DefaultPasswordHashParams = Inr h
     \<and> VerifyPassword toy_kdf ''correct horse'' h = Inr True
     \<and> VerifyPassword toy_kdf ''wrong horse'' h = Inr False"
proof -
  obtain h where h: "HashPassword toy_kdf (Inr ''0123456789abcdef'') ''correct horse'' DefaultPasswordHashParams = Inr h"
    by (simp add: HashPassword_def validateHashParams_def DefaultPasswordHashParams_def Let_def)
  moreover have "length ''0123456789abcdef'' = unat (hp_salt_length DefaultPasswordHashParams)"
    by (simp add: DefaultPasswordHashParams_def)
  moreover have "length (toy_kdf pw s t m p n) = unat n" for pw s t m p n by (simp add: toy_kdf_def)
  ultimately show ?thesis
    using password_round_trip[OF h, of "''wrong horse''"]
    by (auto simp: toy_kdf_def DefaultPasswordHashParams_def)
qed

end
