(* ===== verification/Sha256.thy ===== *)
theory Sha256
  imports Ids
begin

text \<open>
  \<open>crypto/sha256\<close>, the hash the panel stores in place of a session token: FIPS 180-4 over
  32 bit words. A message is a string of bytes; the digest is a list of bytes.
\<close>

text \<open>
  The constants are not listed but computed, as the standard derives them: the first 32 bits of
  the fractional parts of the cube roots (the rounds) and of the square roots (the initial state)
  of the first primes. \<open>root_bits\<close> finds a root bit by bit; 37 bits are enough, since the roots
  are below 32 and the fraction has 32 bits.
\<close>

definition small_primes :: "nat list" where
  "small_primes = [
     2, 3, 5, 7, 11, 13, 17, 19, 23, 29, 31, 37, 41, 43, 47, 53,
     59, 61, 67, 71, 73, 79, 83, 89, 97, 101, 103, 107, 109, 113, 127, 131,
     137, 139, 149, 151, 157, 163, 167, 173, 179, 181, 191, 193, 197, 199, 211, 223,
     227, 229, 233, 239, 241, 251, 257, 263, 269, 271, 277, 281, 283, 293, 307, 311]"

fun root_bits :: "nat \<Rightarrow> nat \<Rightarrow> nat \<Rightarrow> nat \<Rightarrow> nat" where
  "root_bits k n 0 r = r"
| "root_bits k n (Suc i) r = root_bits k n i (if (r + 2 ^ i) ^ k \<le> n then r + 2 ^ i else r)"

definition root_fraction :: "nat \<Rightarrow> nat \<Rightarrow> 32 word" where
  "root_fraction k p = of_nat (root_bits k (p * 2 ^ (32 * k)) 37 0)"

definition round_constants :: "32 word list" where
  "round_constants = map (root_fraction 3) small_primes"

definition initial_hash :: "32 word list" where
  "initial_hash = map (root_fraction 2) (take 8 small_primes)"

definition rotr :: "nat \<Rightarrow> 32 word \<Rightarrow> 32 word" where
  "rotr n x = drop_bit n x OR push_bit (32 - n) x"

definition small_sigma0 :: "32 word \<Rightarrow> 32 word" where
  "small_sigma0 x = rotr 7 x XOR rotr 18 x XOR drop_bit 3 x"

definition small_sigma1 :: "32 word \<Rightarrow> 32 word" where
  "small_sigma1 x = rotr 17 x XOR rotr 19 x XOR drop_bit 10 x"

definition big_sigma0 :: "32 word \<Rightarrow> 32 word" where
  "big_sigma0 x = rotr 2 x XOR rotr 13 x XOR rotr 22 x"

definition big_sigma1 :: "32 word \<Rightarrow> 32 word" where
  "big_sigma1 x = rotr 6 x XOR rotr 11 x XOR rotr 25 x"

text \<open>The message schedule, built backwards: the newest word is the head.\<close>

fun extend_schedule :: "nat \<Rightarrow> 32 word list \<Rightarrow> 32 word list" where
  "extend_schedule 0 ws = ws"
| "extend_schedule (Suc n) ws =
     extend_schedule n ((small_sigma1 (ws ! 1) + ws ! 6 + small_sigma0 (ws ! 14) + ws ! 15) # ws)"

definition schedule :: "32 word list \<Rightarrow> 32 word list" where
  "schedule block = rev (extend_schedule 48 (rev block))"

fun sha_round :: "32 word list \<Rightarrow> 32 word \<times> 32 word \<Rightarrow> 32 word list" where
  "sha_round [a, b, c, d, e, f, g, h] (k, w) =
     (let t1 = h + big_sigma1 e + ((e AND f) XOR (NOT e AND g)) + k + w;
          t2 = big_sigma0 a + ((a AND b) XOR (a AND c) XOR (b AND c))
      in [t1 + t2, a, b, c, d + t1, e, f, g])"
| "sha_round st kw = st"

definition compress :: "32 word list \<Rightarrow> 32 word list \<Rightarrow> 32 word list" where
  "compress st block =
     map2 (+) st (foldl sha_round st (zip round_constants (schedule block)))"

definition word_of_bytes :: "8 word list \<Rightarrow> 32 word" where
  "word_of_bytes bs = foldl (\<lambda>x b. push_bit 8 x OR ucast b) 0 bs"

fun chunks :: "nat \<Rightarrow> nat \<Rightarrow> 'a list \<Rightarrow> 'a list list" where
  "chunks 0 n xs = []"
| "chunks (Suc k) n xs = take n xs # chunks k n (drop n xs)"

definition be_bytes :: "nat \<Rightarrow> 'a::len word \<Rightarrow> 8 word list" where
  "be_bytes n x = map (\<lambda>i. ucast (drop_bit (8 * (n - 1 - i)) x)) [0..<n]"

text \<open>Padding: a one bit, zeros, and the length in bits as 64 bits.\<close>

definition pad_message :: "8 word list \<Rightarrow> 8 word list" where
  "pad_message m = m @ [0x80] @ replicate ((119 - length m mod 64) mod 64) 0
     @ be_bytes 8 (of_nat (8 * length m) :: 64 word)"

definition sha256 :: "8 word list \<Rightarrow> 8 word list" where
  "sha256 m =
     (let p = pad_message m;
          blocks = map (\<lambda>b. map word_of_bytes (chunks 16 4 b)) (chunks (length p div 64) 64 p)
      in concat (map (be_bytes 4) (foldl compress initial_hash blocks)))"

definition bytes_of :: "string \<Rightarrow> 8 word list" where
  "bytes_of s = map (\<lambda>c. of_nat (byte c)) s"

lemma length_be_bytes [simp]: "length (be_bytes n x) = n"
  by (simp add: be_bytes_def)

lemma length_sha_round [simp]: "length (sha_round st kw) = length st"
  by (induction st kw rule: sha_round.induct) (simp_all add: Let_def)

lemma length_rounds [simp]: "length (foldl sha_round st kws) = length st"
  by (induction kws arbitrary: st) simp_all

lemma length_compress [simp]: "length (compress st block) = length st"
  by (simp add: compress_def)

lemma length_blocks [simp]: "length (foldl compress st blocks) = length st"
  by (induction blocks arbitrary: st) simp_all

lemma length_sha256 [simp]: "length (sha256 m) = 32"
  by (simp add: sha256_def Let_def length_concat comp_def sum_list_triv initial_hash_def small_primes_def)

text \<open>Every block is full: the padded length is a multiple of 64.\<close>

lemma padded_length: "length (pad_message m) mod 64 = 0"
proof -
  have "(a + 9 + (119 - a mod 64) mod 64) mod 64 = 0" for a :: nat
  proof -
    have r: "a mod 64 < 64" by simp
    have "(a + 9 + (119 - a mod 64) mod 64) mod 64 = (a + (9 + (119 - a mod 64))) mod 64"
      by (simp only: mod_add_right_eq add.assoc[symmetric])
    also have "\<dots> = ((a mod 64) + (9 + (119 - a mod 64))) mod 64"
      by (simp only: mod_add_left_eq)
    also have "(a mod 64) + (9 + (119 - a mod 64)) = 128" using r by linarith
    finally show ?thesis by simp
  qed
  then show ?thesis by (simp add: pad_message_def ac_simps)
qed

end
