(* ===== verification/Session.thy ===== *)
theory Session
  imports AuditTrail Password Sha256
begin

text \<open>
  \<open>internal/auth/session.go\<close> and \<open>session_sqlstore.go\<close>: login, logout and validation of
  sessions over any store, and the SQL store. A session is stored under the hash of its
  token. The four password slots are seen as their outcome: \<open>slot\<close> is \<open>None\<close> when one was
  free in time and the context's error otherwise; the unused argon2 run for unknown users
  has no effect and is not repeated.
\<close>

section \<open>Data\<close>

definition DefaultSessionDuration :: duration where "DefaultSessionDuration = 24 * minutes 60"

record login_input =
  li_email :: string
  li_password :: string
  li_ip_address :: string
  li_user_agent :: string

record session_user =
  su_id :: string
  su_email :: string
  su_password_hash :: string
  su_is_active :: bool

record session_record =
  se_id :: string
  se_user_id :: string
  se_token_hash :: string
  se_ip_address :: string
  se_user_agent :: string
  se_expires_at :: time

record login_session =
  lo_token :: string
  lo_expires_at :: time

record logout_input =
  lt_token :: string
  lt_ip_address :: string
  lt_user_agent :: string

record session_principal =
  sp_user_id :: string
  sp_email :: string
  sp_display_name :: string
  sp_expires_at :: time

record session_store =
  find_user_by_email :: "string \<Rightarrow> session_user prog"
  create_session :: "session_record \<Rightarrow> audit_event \<Rightarrow> unit prog"
  record_audit :: "audit_event \<Rightarrow> unit prog"
  find_active_session :: "string \<Rightarrow> time \<Rightarrow> session_principal prog"
  delete_session_by_token_hash :: "string \<Rightarrow> audit_event \<Rightarrow> unit prog"

text \<open>The service at one call: what its clock and its generators deliver to it.\<close>

record session_service =
  sv_store :: session_store
  sv_now :: time
  sv_new_id :: "err + string"
  sv_new_token :: "err + string"

section \<open>The service\<close>

definition newSessionToken :: "err + string \<Rightarrow> err + string" where
  "newSessionToken random = rbind random (\<lambda>bytes. Inr (b64_encode url_alphabet bytes))"

definition hashSessionToken :: "string \<Rightarrow> string" where
  "hashSessionToken token = hex_bytes (sha256 (bytes_of token))"

definition recordFailedLogin :: "session_service \<Rightarrow> login_input \<Rightarrow> 'a prog" where
  "recordFailedLogin s input =
     trying (record_audit (sv_store s) (event_literal [] ActionLoginFailed ''authentication'' ''login''
        (trim_space (li_ip_address input)) (trim_space (li_user_agent input)) []))
       (\<lambda>res. case res of
          Inl e \<Rightarrow> failp (Wrapped ''record failed login audit: '' e [])
        | Inr u \<Rightarrow> failp ErrInvalidCredentials)"

text \<open>\<open>runPasswordCheck\<close>: the check, once a slot is free.\<close>

definition runPasswordCheck :: "err option \<Rightarrow> err + bool \<Rightarrow> err + bool" where
  "runPasswordCheck slot check = (case slot of Some e \<Rightarrow> Inl e | None \<Rightarrow> check)"

definition open_session :: "session_service \<Rightarrow> login_input \<Rightarrow> session_user \<Rightarrow> login_session prog" where
  "open_session s input user = (case sv_new_id s of
     Inl e \<Rightarrow> failp e
   | Inr i \<Rightarrow> (case sv_new_token s of
       Inl e \<Rightarrow> failp e
     | Inr token \<Rightarrow>
         (let expiresAt = sv_now s + DefaultSessionDuration;
              session = \<lparr>se_id = i, se_user_id = su_id user, se_token_hash = hashSessionToken token,
                se_ip_address = trim_space (li_ip_address input),
                se_user_agent = trim_space (li_user_agent input), se_expires_at = expiresAt\<rparr> in
          bindp (create_session (sv_store s) session
              (event_literal (su_id user) ActionLoginSucceeded ''session'' (se_id session)
                 (se_ip_address session) (se_user_agent session) []))
            (\<lambda>_. retp \<lparr>lo_token = token, lo_expires_at = expiresAt\<rparr>))))"

definition Login ::
  "(rune \<Rightarrow> rune) \<Rightarrow> kdf \<Rightarrow> session_service \<Rightarrow> err option \<Rightarrow> login_input \<Rightarrow> login_session prog" where
  "Login ul kdf s slot input =
     trying (find_user_by_email (sv_store s) (to_lower ul (trim_space (li_email input))))
       (\<lambda>found. case found of
          Inl e \<Rightarrow>
            (if err_is e ErrSessionUserNotFound
             then (case runPasswordCheck slot (Inr False) of
                 Inl e' \<Rightarrow> failp e' | Inr _ \<Rightarrow> recordFailedLogin s input)
             else failp e)
        | Inr user \<Rightarrow>
            (case runPasswordCheck slot (VerifyPassword kdf (li_password input) (su_password_hash user)) of
               Inl e \<Rightarrow> failp (Wrapped ''verify password: '' e [])
             | Inr valid \<Rightarrow>
                 if \<not> valid \<or> \<not> su_is_active user then recordFailedLogin s input
                 else open_session s input user))"

definition Logout :: "session_service \<Rightarrow> logout_input \<Rightarrow> unit prog" where
  "Logout s input =
     (if lt_token input = [] then retp ()
      else delete_session_by_token_hash (sv_store s) (hashSessionToken (lt_token input))
        (event_literal [] ActionLogoutSucceeded ''session'' []
           (trim_space (lt_ip_address input)) (trim_space (lt_user_agent input)) []))"

definition Validate :: "session_service \<Rightarrow> string \<Rightarrow> session_principal prog" where
  "Validate s token =
     (if trim_space token = [] then failp ErrInvalidSession
      else trying (find_active_session (sv_store s) (hashSessionToken token) (sv_now s))
        (\<lambda>res. case res of
           Inl e \<Rightarrow> if err_is e ErrInvalidSession then failp ErrInvalidSession
                    else failp (Wrapped ''find active session: '' e [])
         | Inr p \<Rightarrow> retp p))"

section \<open>The SQL store\<close>

text \<open>\<open>anow\<close> and \<open>anewid\<close> are the clock and the generator of the audit writer the store makes.\<close>

definition sql_find_user_by_email :: "string \<Rightarrow> session_user prog" where
  "sql_find_user_by_email email =
     bindp (query (\<lambda>t. Inr (List.find (\<lambda>u. ur_email u = email) (t_users t)))) (\<lambda>res. case res of
        None \<Rightarrow> failp ErrSessionUserNotFound
      | Some u \<Rightarrow> retp \<lparr>su_id = ur_id u, su_email = ur_email u, su_password_hash = ur_password_hash u,
          su_is_active = ur_is_active u\<rparr>)"

definition session_row_of :: "pg \<Rightarrow> session_record \<Rightarrow> session_row option" where
  "session_row_of pg s =
     (case (uuid_in pg (se_id s), uuid_in pg (se_user_id s), null_cast (inet_in pg) (se_ip_address s)) of
        (Some i, Some u, Some ip) \<Rightarrow> Some \<lparr>sr_id = i, sr_user_id = u, sr_token_hash = se_token_hash s,
          sr_ip_address = ip, sr_user_agent = se_user_agent s, sr_expires_at = se_expires_at s\<rparr>
      | _ \<Rightarrow> None)"

definition insert_session :: "pg \<Rightarrow> session_record \<Rightarrow> tables \<Rightarrow> err + unit \<times> tables" where
  "insert_session pg s t = (case session_row_of pg s of
     None \<Rightarrow> Inl cast_failure
   | Some r \<Rightarrow>
       if sr_id r \<in> sr_id ` set (t_sessions t) \<or> sr_token_hash r \<in> sr_token_hash ` set (t_sessions t)
       then Inl unique_violation
       else if sr_user_id r \<notin> ur_id ` set (t_users t) then Inl fk_violation
       else Inr ((), t\<lparr>t_sessions := t_sessions t @ [r]\<rparr>))"

definition sql_create_session ::
  "pg \<Rightarrow> time \<Rightarrow> err + string \<Rightarrow> session_record \<Rightarrow> audit_event \<Rightarrow> unit prog" where
  "sql_create_session pg anow anewid s ev =
     tx (bindp (stmt (insert_session pg s)) (\<lambda>_.
         bindp (audit_record (audit_write pg) anow anewid ev) (\<lambda>_.
         retp (Commit ()))))"

definition sql_record_audit :: "pg \<Rightarrow> time \<Rightarrow> err + string \<Rightarrow> audit_event \<Rightarrow> unit prog" where
  "sql_record_audit pg anow anewid ev =
     bindp (audit_record (audit_write pg) anow anewid ev) (\<lambda>_. retp ())"

definition active_session :: "tables \<Rightarrow> string \<Rightarrow> time \<Rightarrow> session_principal list" where
  "active_session t h now = [\<lparr>sp_user_id = ur_id u, sp_email = ur_email u,
       sp_display_name = ur_display_name u, sp_expires_at = sr_expires_at s\<rparr>.
     s \<leftarrow> t_sessions t, u \<leftarrow> t_users t,
     ur_id u = sr_user_id s \<and> sr_token_hash s = h \<and> sr_expires_at s > now \<and> ur_is_active u]"

definition sql_find_active_session :: "string \<Rightarrow> time \<Rightarrow> session_principal prog" where
  "sql_find_active_session h now =
     bindp (query (\<lambda>t. Inr (active_session t h now))) (\<lambda>rows. case rows of
        [] \<Rightarrow> failp ErrInvalidSession
      | p # _ \<Rightarrow> retp p)"

text \<open>\<open>DELETE FROM sessions WHERE token_hash = $1 RETURNING id, user_id\<close>.\<close>

definition delete_sessions :: "string \<Rightarrow> tables \<Rightarrow> err + session_row list \<times> tables" where
  "delete_sessions h t = Inr (filter (\<lambda>s. sr_token_hash s = h) (t_sessions t),
     t\<lparr>t_sessions := filter (\<lambda>s. sr_token_hash s \<noteq> h) (t_sessions t)\<rparr>)"

definition sql_delete_session ::
  "pg \<Rightarrow> time \<Rightarrow> err + string \<Rightarrow> string \<Rightarrow> audit_event \<Rightarrow> unit prog" where
  "sql_delete_session pg anow anewid h ev =
     tx (bindp (stmt (delete_sessions h)) (\<lambda>rows. case rows of
         [] \<Rightarrow> retp (Rollback ())
       | r # _ \<Rightarrow>
           bindp (audit_record (audit_write pg) anow anewid
               (ev\<lparr>ae_actor_user_id := sr_user_id r, ae_target_id := sr_id r\<rparr>)) (\<lambda>_.
           retp (Commit ()))))"

definition sql_session_store :: "pg \<Rightarrow> time \<Rightarrow> err + string \<Rightarrow> session_store" where
  "sql_session_store pg anow anewid = \<lparr>find_user_by_email = sql_find_user_by_email,
     create_session = sql_create_session pg anow anewid,
     record_audit = sql_record_audit pg anow anewid,
     find_active_session = sql_find_active_session,
     delete_session_by_token_hash = sql_delete_session pg anow anewid\<rparr>"

lemma sql_session_store_sel [simp]:
  "find_user_by_email (sql_session_store pg anow anewid) = sql_find_user_by_email"
  "create_session (sql_session_store pg anow anewid) = sql_create_session pg anow anewid"
  "record_audit (sql_session_store pg anow anewid) = sql_record_audit pg anow anewid"
  "find_active_session (sql_session_store pg anow anewid) = sql_find_active_session"
  "delete_session_by_token_hash (sql_session_store pg anow anewid) = sql_delete_session pg anow anewid"
  by (simp_all add: sql_session_store_def)


definition sql_session_service ::
  "pg \<Rightarrow> time \<Rightarrow> err + string \<Rightarrow> err + string \<Rightarrow> time \<Rightarrow> err + string \<Rightarrow> session_service" where
  "sql_session_service pg now newid newtoken anow anewid =
     \<lparr>sv_store = sql_session_store pg anow anewid, sv_now = now, sv_new_id = newid, sv_new_token = newtoken\<rparr>"

lemma sql_session_service_sel [simp]:
  "sv_store (sql_session_service pg now newid newtoken anow anewid) = sql_session_store pg anow anewid"
  "sv_now (sql_session_service pg now newid newtoken anow anewid) = now"
  "sv_new_id (sql_session_service pg now newid newtoken anow anewid) = newid"
  "sv_new_token (sql_session_service pg now newid newtoken anow anewid) = newtoken"
  by (simp_all add: sql_session_service_def)

section \<open>What the statements do\<close>

abbreviation sessions_of :: "world \<Rightarrow> session_row list" where "sessions_of w \<equiv> t_sessions (w_tables w)"
abbreviation audits_of :: "world \<Rightarrow> audit_row list" where "audits_of w \<equiv> t_audit_events (w_tables w)"

lemma record_exact:
  assumes "audit_record (audit_write pg) now newid ev w = (Inr ev', w')"
  obtains i a where "newid = Inr i" "audit_row_ok a"
    "audit_row_of pg ((trim_event ev)\<lparr>ae_id := i, ae_created_at := now\<rparr>) = Some a"
    "w_tables w' = (w_tables w)\<lparr>t_audit_events := audits_of w @ [a]\<rparr>"
proof -
  obtain i where i: "newid = Inr i" and ev': "ev' = (trim_event ev)\<lparr>ae_id := i, ae_created_at := now\<rparr>"
    using assms by (auto simp: audit_record_def Let_def failp_def bindp_Inr retp_def split: if_splits sum.splits)
  obtain a where a: "describes_event pg ev' a" "audit_row_ok a" "audits_of w' = audits_of w @ [a]"
    using sql_log.record_ok[OF assms] by blast
  have "w_tables w' = (w_tables w)\<lparr>t_audit_events := audits_of w @ [a]\<rparr>"
    using sql_log.record_any[OF assms] a(3) by (elim disjE exE conjE) simp_all
  moreover have "audit_row_of pg ((trim_event ev)\<lparr>ae_id := i, ae_created_at := now\<rparr>) = Some a"
    using a(1) ev' by (simp add: describes_event_def)
  ultimately show thesis using that[OF i a(2)] by simp
qed

lemma insert_session_Inr:
  assumes "stmt (insert_session pg s) w = (Inr v, w')"
  obtains r where "session_row_of pg s = Some r" "sr_token_hash r \<notin> sr_token_hash ` set (sessions_of w)"
    "w_tables w' = (w_tables w)\<lparr>t_sessions := sessions_of w @ [r]\<rparr>"
proof -
  obtain t where "insert_session pg s (w_tables w) = Inr (v, t)" and t: "w_tables w' = t"
    using stmt_Inr[OF assms] by blast
  then obtain r where "session_row_of pg s = Some r" "sr_token_hash r \<notin> sr_token_hash ` set (sessions_of w)"
      "t = (w_tables w)\<lparr>t_sessions := sessions_of w @ [r]\<rparr>"
    by (auto simp: insert_session_def split: option.splits if_splits)
  with t show thesis using that by blast
qed

lemma create_session_exact:
  assumes "sql_create_session pg anow anewid s ev w = (Inr u, w')"
  obtains r i a where "session_row_of pg s = Some r" "sr_token_hash r \<notin> sr_token_hash ` set (sessions_of w)"
    "audit_row_of pg ((trim_event ev)\<lparr>ae_id := i, ae_created_at := anow\<rparr>) = Some a"
    "w_tables w' = (w_tables w)\<lparr>t_sessions := sessions_of w @ [r], t_audit_events := audits_of w @ [a]\<rparr>"
proof -
  let ?b = "bindp (stmt (insert_session pg s)) (\<lambda>_.
         bindp (audit_record (audit_write pg) anow anewid ev) (\<lambda>_. retp (Commit ())))"
  have "commits ?b" by (intro inv_intros)
  then obtain w1 w2 where w: "w_tables w1 = w_tables w" "?b w1 = (Inr (Commit u), w2)" "w_tables w' = w_tables w2"
    using assms unfolding sql_create_session_def by (elim tx_commit)
  then obtain v wa e where 1: "stmt (insert_session pg s) w1 = (Inr v, wa)"
    and 2: "audit_record (audit_write pg) anow anewid ev wa = (Inr e, w2)"
    unfolding bindp_Inr by (auto simp: retp_def)
  obtain r where r: "session_row_of pg s = Some r" "sr_token_hash r \<notin> sr_token_hash ` set (sessions_of w1)"
      "w_tables wa = (w_tables w1)\<lparr>t_sessions := sessions_of w1 @ [r]\<rparr>"
    using insert_session_Inr[OF 1] by blast
  obtain i a where "audit_row_of pg ((trim_event ev)\<lparr>ae_id := i, ae_created_at := anow\<rparr>) = Some a"
      "w_tables w2 = (w_tables wa)\<lparr>t_audit_events := audits_of wa @ [a]\<rparr>"
    by (rule record_exact[OF 2]) (rule that; assumption)
  then show thesis using r w(1,3) by (intro that[of r i a]) simp_all
qed

lemma delete_session_exact:
  assumes "sql_delete_session pg anow anewid h ev w = (Inr u, w')"
  shows "(h \<notin> sr_token_hash ` set (sessions_of w) \<and> w_tables w' = w_tables w) \<or>
    (\<exists>a. w_tables w' = (w_tables w)\<lparr>t_sessions := filter (\<lambda>s. sr_token_hash s \<noteq> h) (sessions_of w),
       t_audit_events := audits_of w @ [a]\<rparr>)"
proof -
  let ?k = "\<lambda>rows. case rows of [] \<Rightarrow> retp (Rollback ())
       | r # _ \<Rightarrow> bindp (audit_record (audit_write pg) anow anewid
               (ev\<lparr>ae_actor_user_id := sr_user_id r, ae_target_id := sr_id r\<rparr>)) (\<lambda>_. retp (Commit ()))"
  obtain w1 w2 where w: "w_tables w1 = w_tables w"
    and b: "bindp (stmt (delete_sessions h)) ?k w1 = (Inr (Commit u), w2) \<and> w_tables w' = w_tables w2
      \<or> bindp (stmt (delete_sessions h)) ?k w1 = (Inr (Rollback u), w2) \<and> w_tables w' = w_tables w"
    using tx_Inr[OF assms[unfolded sql_delete_session_def]] by auto
  from b obtain rows wa e where 1: "stmt (delete_sessions h) w1 = (Inr rows, wa)" and 2: "?k rows wa = (Inr e, w2)"
    and e: "e = Commit u \<and> w_tables w' = w_tables w2 \<or> e = Rollback u \<and> w_tables w' = w_tables w"
    by (auto simp only: bindp_Inr)
  have s: "rows = filter (\<lambda>s. sr_token_hash s = h) (sessions_of w)"
      "w_tables wa = (w_tables w)\<lparr>t_sessions := filter (\<lambda>s. sr_token_hash s \<noteq> h) (sessions_of w)\<rparr>"
    using stmt_Inr[OF 1] w by (simp_all add: delete_sessions_def)
  show ?thesis
  proof (cases rows)
    case Nil
    then have "e = Rollback ()" using 2 by (simp add: retp_def)
    moreover have "[s \<leftarrow> sessions_of w. sr_token_hash s = h] = []" using s(1) Nil by simp
    ultimately show ?thesis using e by (fastforce simp: filter_empty_conv)
  next
    case (Cons r rs)
    then obtain e' where 3: "audit_record (audit_write pg) anow anewid
        (ev\<lparr>ae_actor_user_id := sr_user_id r, ae_target_id := sr_id r\<rparr>) wa = (Inr e', w2)" and c: "e = Commit ()"
      using 2 by (auto simp: bindp_Inr retp_def)
    obtain a where "w_tables w2 = (w_tables wa)\<lparr>t_audit_events := audits_of wa @ [a]\<rparr>"
      using record_exact[OF 3] by blast
    then have "w_tables w' = (w_tables w)\<lparr>t_sessions := filter (\<lambda>s. sr_token_hash s \<noteq> h) (sessions_of w),
       t_audit_events := audits_of w @ [a]\<rparr>" using c e s(2) by simp
    then show ?thesis by blast
  qed
qed

text \<open>Whatever is answered, a call changes the sessions in one way or not at all.\<close>

lemma create_session_any:
  assumes "sql_create_session pg anow anewid s ev w = (res, w')"
  shows "sessions_of w' = sessions_of w \<or>
    (\<exists>r. session_row_of pg s = Some r \<and> sessions_of w' = sessions_of w @ [r])"
proof -
  have "\<exists>r. session_row_of pg s = Some r \<and> sessions_of w2 = sessions_of w1 @ [r]"
    if b: "bindp (stmt (insert_session pg s)) (\<lambda>_.
         bindp (audit_record (audit_write pg) anow anewid ev) (\<lambda>_. retp (Commit ()))) w1 = (Inr (Commit a), w2)" for a w1 w2
  proof -
    obtain v wa e where 1: "stmt (insert_session pg s) w1 = (Inr v, wa)"
      and 2: "audit_record (audit_write pg) anow anewid ev wa = (Inr e, w2)"
      using b unfolding bindp_Inr by (auto simp: retp_def)
    have "sessions_of w2 = sessions_of wa" using sql_log.record_any[OF 2] by auto
    moreover obtain r where "session_row_of pg s = Some r" "w_tables wa = (w_tables w1)\<lparr>t_sessions := sessions_of w1 @ [r]\<rparr>"
      using insert_session_Inr[OF 1] by blast
    ultimately show ?thesis by simp
  qed
  then show ?thesis
    using tx_effect[OF assms[unfolded sql_create_session_def],
        of "\<lambda>t t'. \<exists>r. session_row_of pg s = Some r \<and> t_sessions t' = t_sessions t @ [r]"] by auto
qed

lemma delete_session_any:
  assumes "sql_delete_session pg anow anewid h ev w = (res, w')"
  shows "sessions_of w' = sessions_of w \<or> sessions_of w' = filter (\<lambda>s. sr_token_hash s \<noteq> h) (sessions_of w)"
proof -
  let ?k = "\<lambda>rows. case rows of [] \<Rightarrow> retp (Rollback ())
       | r # _ \<Rightarrow> bindp (audit_record (audit_write pg) anow anewid
               (ev\<lparr>ae_actor_user_id := sr_user_id r, ae_target_id := sr_id r\<rparr>)) (\<lambda>_. retp (Commit ()))"
  have "sessions_of w2 = filter (\<lambda>s. sr_token_hash s \<noteq> h) (sessions_of w1)"
    if b: "bindp (stmt (delete_sessions h)) ?k w1 = (Inr (Commit a), w2)" for a w1 w2
  proof -
    obtain rows wa where 1: "stmt (delete_sessions h) w1 = (Inr rows, wa)" and 2: "?k rows wa = (Inr (Commit a), w2)"
      using b unfolding bindp_Inr by blast
    have s: "w_tables wa = (w_tables w1)\<lparr>t_sessions := filter (\<lambda>s. sr_token_hash s \<noteq> h) (sessions_of w1)\<rparr>"
      using stmt_Inr[OF 1] by (simp_all add: delete_sessions_def)
    obtain r rs where "rows = r # rs" using 2 by (auto simp: retp_def split: list.splits)
    then obtain e' where 3: "audit_record (audit_write pg) anow anewid
        (ev\<lparr>ae_actor_user_id := sr_user_id r, ae_target_id := sr_id r\<rparr>) wa = (Inr e', w2)"
      using 2 by (auto simp: bindp_Inr retp_def)
    then show ?thesis using sql_log.record_any[OF 3] s by auto
  qed
  then show ?thesis
    using tx_effect[OF assms[unfolded sql_delete_session_def],
        of "\<lambda>t t'. t_sessions t' = filter (\<lambda>s. sr_token_hash s \<noteq> h) (t_sessions t)"] by auto
qed

lemma delete_session_gone:
  "sql_delete_session pg anow anewid h ev w = (Inr u, w') \<Longrightarrow> h \<notin> sr_token_hash ` set (sessions_of w')"
  using delete_session_exact[of pg anow anewid h ev w u w'] by auto

lemma find_user_cases:
  assumes "sql_find_user_by_email email w = (res, w')"
  obtains (found) u where "res = Inr \<lparr>su_id = ur_id u, su_email = ur_email u,
        su_password_hash = ur_password_hash u, su_is_active = ur_is_active u\<rparr>"
      "List.find (\<lambda>u. ur_email u = email) (t_users (w_tables w)) = Some u" "w_tables w' = w_tables w"
    | (absent) "res = Inl ErrSessionUserNotFound"
      "email \<notin> ur_email ` set (t_users (w_tables w))" "w_tables w' = w_tables w"
    | (failed) s where "res = Inl (DbError s)" "w_tables w' = w_tables w"
  using assms
  by (fastforce simp: sql_find_user_by_email_def bindp_def query_def failp_def retp_def find_None_iff
      dest: take_reply_tables split: prod.splits reply.splits option.splits)

lemma find_user_keeps [inv_intros]: "keeps_no_loss (sql_find_user_by_email email)"
  unfolding sql_find_user_by_email_def by (auto intro!: inv_intros split: option.split)

text \<open>The outcomes of \<open>Login\<close> on the SQL store.\<close>

lemma Login_cases:
  assumes "Login ul kdf (sql_session_service pg now newid newtok anow anewid) slot input w = (res, w')"
  obtains (opened) u w1 where
      "List.find (\<lambda>u. ur_email u = to_lower ul (trim_space (li_email input))) (t_users (w_tables w)) = Some u"
      "VerifyPassword kdf (li_password input) (ur_password_hash u) = Inr True" "ur_is_active u"
      "w_tables w1 = w_tables w \<and> (no_loss w \<longrightarrow> no_loss w1)"
      "open_session (sql_session_service pg now newid newtok anow anewid) input \<lparr>su_id = ur_id u, su_email = ur_email u,
        su_password_hash = ur_password_hash u, su_is_active = ur_is_active u\<rparr> w1 = (res, w')"
    | (rejected) w1 where "w_tables w1 = w_tables w \<and> (no_loss w \<longrightarrow> no_loss w1)"
      "\<nexists>u. List.find (\<lambda>u. ur_email u = to_lower ul (trim_space (li_email input))) (t_users (w_tables w)) = Some u
         \<and> ur_is_active u \<and> VerifyPassword kdf (li_password input) (ur_password_hash u) = Inr True"
      "recordFailedLogin (sql_session_service pg now newid newtok anow anewid) input w1 = (res, w')"
    | (refused) e where "res = Inl e" "w_tables w' = w_tables w" "slot = Some e \<or> e \<noteq> ErrInvalidCredentials"
proof -
  let ?email = "to_lower ul (trim_space (li_email input))"
  obtain r w1 where f: "sql_find_user_by_email ?email w = (r, w1)" by fastforce
  have nl: "no_loss w \<longrightarrow> no_loss w1"
    using find_user_keeps[of ?email] f by (auto simp: keeps_no_loss_def dest: spec[of _ w])
  note L = assms[unfolded Login_def sql_session_service_sel sql_session_store_sel trying_eq[of "sql_find_user_by_email ?email", OF f]]
  from f show thesis
  proof (cases rule: find_user_cases)
    case (found u)
    show thesis
    proof (cases "runPasswordCheck slot (VerifyPassword kdf (li_password input) (ur_password_hash u))")
      case (Inl e)
      then show thesis using L found refused by (auto simp: failp_def)
    next
      case (Inr v)
      then have v: "VerifyPassword kdf (li_password input) (ur_password_hash u) = Inr v"
        by (auto simp: runPasswordCheck_def split: option.splits)
      show thesis
      proof (cases "v \<and> ur_is_active u")
        case True
        then show thesis using L nl found v Inr opened by simp
      next
        case False
        then show thesis using L nl found v Inr rejected by auto
      qed
    qed
  next
    case absent
    have n: "List.find (\<lambda>u. ur_email u = ?email) (t_users (w_tables w)) = None"
      using absent(2) by (auto simp: find_None_iff image_iff)
    show thesis
    proof (cases slot)
      case None
      then show thesis using L nl absent n rejected by (simp add: runPasswordCheck_def)
    next
      case (Some e)
      then show thesis using L absent refused by (auto simp: runPasswordCheck_def failp_def)
    qed
  next
    case (failed s)
    then show thesis using L refused by (auto simp: failp_def)
  qed
qed

section \<open>Opening a session\<close>

lemma token_plain:
  assumes "newSessionToken (Inr bytes) = Inr token" and "bytes \<noteq> []"
  shows "trim_space token = token \<and> token \<noteq> []"
proof -
  have t: "token = b64_encode url_alphabet bytes" using assms(1) by (simp add: newSessionToken_def)
  have ne: "token \<noteq> []"
    using assms(2) unfolding t b64_encode_def
    by (cases "map byte bytes" rule: sextets.cases) auto
  have "set token \<subseteq> set url_alphabet" using b64_chars t by blast
  moreover have "list_all plain url_alphabet" by (simp add: url_alphabet_def plain_def)
  ultimately have "plain (hd token)" "plain (last token)"
    using ne by (auto simp: list_all_iff subset_iff)
  then show ?thesis using ne trim_space_plain by blast
qed

lemma session_action_trims: "trim_space ActionLoginSucceeded = ActionLoginSucceeded"
  "trim_space ActionLoginFailed = ActionLoginFailed"
  by (rule trim_space_plain; simp add: plain_def action_defs)+

lemma audit_row_fields:
  assumes "audit_row_of pg ((trim_event ev)\<lparr>ae_id := i, ae_created_at := at\<rparr>) = Some a"
  shows "ar_action a = trim_space (ae_action ev)" "ar_metadata a = ae_metadata ev" "ar_created_at a = at"
    "null_cast (uuid_in pg) (trim_space (ae_actor_user_id ev)) = Some (ar_actor_user_id a)"
    "ar_target_type a = trim_space (ae_target_type ev)" "ar_target_id a = trim_space (ae_target_id ev)"
  using assms by (auto simp: audit_row_of_def trim_event_def split: option.splits)

lemma open_session_exact:
  assumes "open_session (sql_session_service pg now newid newtok anow anewid) input user w = (Inr s, w')"
  obtains r a where "newtok = Inr (lo_token s)" "lo_expires_at s = now + DefaultSessionDuration"
    "sr_token_hash r = hashSessionToken (lo_token s)" "uuid_in pg (su_id user) = Some (sr_user_id r)"
    "sr_expires_at r = lo_expires_at s" "sr_token_hash r \<notin> sr_token_hash ` set (sessions_of w)"
    "ar_action a = ActionLoginSucceeded" "ar_metadata a = []" "ar_created_at a = anow"
    "w_tables w' = (w_tables w)\<lparr>t_sessions := sessions_of w @ [r], t_audit_events := audits_of w @ [a]\<rparr>"
proof -
  obtain i where i: "newid = Inr i" using assms by (cases newid) (auto simp: open_session_def failp_def)
  obtain tok where t: "newtok = Inr tok" using assms i by (cases newtok) (auto simp: open_session_def failp_def)
  let ?rec = "\<lparr>se_id = i, se_user_id = su_id user, se_token_hash = hashSessionToken tok,
      se_ip_address = trim_space (li_ip_address input), se_user_agent = trim_space (li_user_agent input),
      se_expires_at = now + DefaultSessionDuration\<rparr>"
  let ?ev = "event_literal (su_id user) ActionLoginSucceeded ''session'' i
      (trim_space (li_ip_address input)) (trim_space (li_user_agent input)) []"
  obtain u where c: "sql_create_session pg anow anewid ?rec ?ev w = (Inr u, w')"
    and s: "s = \<lparr>lo_token = tok, lo_expires_at = now + DefaultSessionDuration\<rparr>"
    using assms by (auto simp: open_session_def i t Let_def bindp_Inr retp_def)
  obtain r k a where "session_row_of pg ?rec = Some r" and h: "sr_token_hash r \<notin> sr_token_hash ` set (sessions_of w)"
    and a: "audit_row_of pg ((trim_event ?ev)\<lparr>ae_id := k, ae_created_at := anow\<rparr>) = Some a"
    and w': "w_tables w' = (w_tables w)\<lparr>t_sessions := sessions_of w @ [r], t_audit_events := audits_of w @ [a]\<rparr>"
    using create_session_exact[OF c] by blast
  then have "sr_token_hash r = hashSessionToken tok" "uuid_in pg (su_id user) = Some (sr_user_id r)"
      "sr_expires_at r = now + DefaultSessionDuration"
    by (auto simp: session_row_of_def split: option.splits)
  then show thesis
    using h w' s t audit_row_fields[OF a] by (intro that[of r a]) (simp_all add: event_literal_def session_action_trims)
qed

text \<open>What \<open>Validate\<close> answers on a working database.\<close>

lemma validate_done:
  assumes "all_done w" and "trim_space token \<noteq> []"
  shows "fst (Validate (sql_session_service pg now newid newtok anow anewid) token w) =
    (case active_session (w_tables w) (hashSessionToken token) now of [] \<Rightarrow> Inl ErrInvalidSession | p # _ \<Rightarrow> Inr p)"
proof -
  obtain rep w1 where t: "take_reply w = (rep, w1)" by fastforce
  then have "rep = Done" "w_tables w1 = w_tables w"
    using assms(1) take_reply_all_done take_reply_tables by blast+
  then show ?thesis using assms(2) t
    by (simp add: Validate_def trying_def sql_find_active_session_def bindp_def query_def failp_def retp_def
        split: list.split)
qed

lemma validate_Inr:
  assumes "Validate (sql_session_service pg now newid newtok anow anewid) token w = (Inr p, w')"
  shows "\<exists>r \<in> set (sessions_of w). sr_token_hash r = hashSessionToken token \<and> now < sr_expires_at r
    \<and> sp_expires_at p = sr_expires_at r \<and> sp_user_id p = sr_user_id r
    \<and> (\<exists>u \<in> set (t_users (w_tables w)). ur_id u = sr_user_id r \<and> ur_is_active u)"
proof -
  obtain r w1 where f: "sql_find_active_session (hashSessionToken token) now w = (r, w1)" by fastforce
  have "r = Inr p"
    using assms f by (auto simp: Validate_def trying_def failp_def retp_def split: if_splits sum.splits)
  then obtain rows w2 where q: "query (\<lambda>t. Inr (active_session t (hashSessionToken token) now)) w = (Inr rows, w2)"
    and k: "(case rows of [] \<Rightarrow> failp ErrInvalidSession | p # _ \<Rightarrow> retp p) w2 = (Inr p, w1)"
    using f unfolding sql_find_active_session_def by (auto simp only: bindp_Inr)
  have "p \<in> set (active_session (w_tables w) (hashSessionToken token) now)"
    using query_Inr[OF q] k by (auto simp: failp_def retp_def split: list.splits)
  then show ?thesis by (auto simp: active_session_def split: if_splits)
qed

lemma concat_key_one:
  assumes "distinct (map f xs)" and "u \<in> set xs"
  shows "concat (map (\<lambda>x. if f x = f u \<and> P x then [g x] else []) xs) = (if P u then [g u] else [])"
  using assms
proof (induction xs)
  case (Cons x xs)
  show ?case
  proof (cases "x = u")
    case True
    then have "concat (map (\<lambda>x. if f x = f u \<and> P x then [g x] else []) xs) = []"
      using Cons.prems by (auto simp: image_iff)
    then show ?thesis using True by simp
  next
    case False
    then have "u \<in> set xs" "f x \<noteq> f u" using Cons.prems by auto
    then show ?thesis using Cons by simp
  qed
qed simp

lemma active_session_one:
  assumes "t_sessions t = xs @ [r]" and "h \<notin> sr_token_hash ` set xs" and "sr_token_hash r = h"
    and "distinct (map ur_id (t_users t))" and "u \<in> set (t_users t)" and "ur_id u = sr_user_id r" and "ur_is_active u"
  shows "active_session t h now = (if now < sr_expires_at r
     then [\<lparr>sp_user_id = ur_id u, sp_email = ur_email u, sp_display_name = ur_display_name u,
            sp_expires_at = sr_expires_at r\<rparr>] else [])"
proof -
  have "active_session t h now = concat (map (\<lambda>x. if ur_id x = ur_id u \<and>
       (sr_expires_at r > now \<and> ur_is_active x) then [\<lparr>sp_user_id = ur_id x, sp_email = ur_email x,
          sp_display_name = ur_display_name x, sp_expires_at = sr_expires_at r\<rparr>] else []) (t_users t))"
    using assms(1-3,6) by (auto simp: active_session_def image_iff)
  also have "\<dots> = (if sr_expires_at r > now \<and> ur_is_active u then [\<lparr>sp_user_id = ur_id u, sp_email = ur_email u,
          sp_display_name = ur_display_name u, sp_expires_at = sr_expires_at r\<rparr>] else [])"
    by (rule concat_key_one[OF assms(4,5)])
  finally show ?thesis using assms(7) by simp
qed

section \<open>A concrete login\<close>

definition session_pg :: pg where
  "session_pg = \<lparr>uuid_in = Some, jsonb_in = Some, inet_in = Some\<rparr>"

definition demo_user :: "string \<Rightarrow> user_row" where
  "demo_user h = \<lparr>ur_id = ''u'', ur_email = ''a@b'', ur_password_hash = h, ur_display_name = ''A'', ur_is_active = True\<rparr>"

definition login_world :: "string \<Rightarrow> world" where
  "login_world h = \<lparr>w_tables = empty_tables\<lparr>t_users := [demo_user h]\<rparr>, w_replies = []\<rparr>"

definition demo_login :: "string \<Rightarrow> login_input" where
  "demo_login password = \<lparr>li_email = ''A@b'', li_password = password, li_ip_address = [], li_user_agent = []\<rparr>"

definition demo_service :: "time \<Rightarrow> session_service" where
  "demo_service now = sql_session_service session_pg now (Inr ''s'') (newSessionToken (Inr ''secret'')) now (Inr ''e'')"

definition demo_token :: string where "demo_token = b64_encode url_alphabet ''secret''"

lemma demo_hash:
  obtains h where "VerifyPassword toy_kdf ''correct horse'' h = Inr True"
    "VerifyPassword toy_kdf ''wrong horse'' h = Inr False"
proof -
  obtain h where h: "HashPassword toy_kdf (Inr ''0123456789abcdef'') ''correct horse'' DefaultPasswordHashParams = Inr h"
    by (simp add: HashPassword_def validateHashParams_def DefaultPasswordHashParams_def Let_def)
  have l: "length ''0123456789abcdef'' = unat (hp_salt_length DefaultPasswordHashParams)"
    by (simp add: DefaultPasswordHashParams_def)
  have "length (toy_kdf pw s t m p n) = unat n" for pw s t m p n by (simp add: toy_kdf_def)
  from hash_decodes[OF h l this] show thesis
    by (intro that[of h]) (simp_all add: VerifyPassword_def toy_kdf_def DefaultPasswordHashParams_def)
qed

lemma demo_email: "to_lower id (trim_space ''A@b'') = ''a@b''"
proof -
  have "trim_space ''A@b'' = ''A@b''" by (rule trim_space_plain; simp add: plain_def)
  then show ?thesis by (simp add: to_lower_ascii ascii_def lower_byte_def char_of_eq eq_char_of)
qed

lemma demo_words: "trim_space ''u'' = ''u''" "trim_space ''s'' = ''s''" "trim_space ''session'' = ''session''"
  "trim_space ''authentication'' = ''authentication''" "trim_space ''login'' = ''login''"
  by (rule trim_space_plain; simp add: plain_def)+

lemmas login_eval = audit_record_def Let_def trim_event_def event_literal_def valid_event_def auditMetadataKeys_def
  metadata_bytes_def maxActionBytes_def maxTargetTypeBytes_def maxTargetIDBytes_def maxUserAgentBytes_def
  maxMetadataBytes_def maxMetadataValueBytes_def action_defs

lemma demo_opened_event:
  "audit_record (audit_write pg) at (Inr ''e'') (event_literal ''u'' ActionLoginSucceeded ''session'' ''s'' [] [] []) =
   bindp (audit_write pg ((event_literal ''u'' ActionLoginSucceeded ''session'' ''s'' [] [] [])\<lparr>ae_id := ''e'', ae_created_at := at\<rparr>))
     (\<lambda>_. retp ((event_literal ''u'' ActionLoginSucceeded ''session'' ''s'' [] [] [])\<lparr>ae_id := ''e'', ae_created_at := at\<rparr>))"
proof -
  have t: "trim_event (event_literal ''u'' ActionLoginSucceeded ''session'' ''s'' [] [] []) =
      event_literal ''u'' ActionLoginSucceeded ''session'' ''s'' [] [] []"
    by (simp add: trim_event_def event_literal_def demo_words session_action_trims)
  have "valid_event (event_literal ''u'' ActionLoginSucceeded ''session'' ''s'' [] [] [])"
    by (simp add: login_eval)
  then show ?thesis by (simp add: audit_record_def Let_def t)
qed

lemma demo_logs_in:
  assumes "VerifyPassword toy_kdf ''correct horse'' h = Inr True"
  obtains w' where "Login id toy_kdf (demo_service 100) None (demo_login ''correct horse'') (login_world h) =
      (Inr \<lparr>lo_token = demo_token, lo_expires_at = 100 + DefaultSessionDuration\<rparr>, w')" "w_replies w' = []"
    "t_users (w_tables w') = [demo_user h]" "map sr_token_hash (t_sessions (w_tables w')) = [hashSessionToken demo_token]"
    "map sr_user_id (t_sessions (w_tables w')) = [''u'']"
    "map sr_expires_at (t_sessions (w_tables w')) = [100 + DefaultSessionDuration]"
proof -
  have f: "sql_find_user_by_email ''a@b'' (login_world h) =
     (Inr \<lparr>su_id = ''u'', su_email = ''a@b'', su_password_hash = h, su_is_active = True\<rparr>, login_world h)"
    by (simp add: sql_find_user_by_email_def bindp_def query_def take_reply_def login_world_def demo_user_def
        empty_tables_def retp_def)
  let ?row = "\<lparr>sr_id = ''s'', sr_user_id = ''u'', sr_token_hash = hashSessionToken demo_token,
     sr_ip_address = None, sr_user_agent = [], sr_expires_at = 100 + DefaultSessionDuration\<rparr>"
  let ?t = "(w_tables (login_world h))\<lparr>t_sessions := [?row]\<rparr>"
  let ?ev = "(event_literal ''u'' ActionLoginSucceeded ''session'' ''s'' [] [] [])\<lparr>ae_id := ''e'', ae_created_at := 100\<rparr>"
  have 1: "insert_session session_pg \<lparr>se_id = ''s'', se_user_id = ''u'', se_token_hash = hashSessionToken demo_token,
      se_ip_address = [], se_user_agent = [], se_expires_at = 100 + DefaultSessionDuration\<rparr> (w_tables (login_world h))
     = Inr ((), ?t)"
    by (simp add: insert_session_def session_row_of_def session_pg_def null_cast_def login_world_def
        empty_tables_def demo_user_def)
  obtain w' where 2: "audit_write session_pg ?ev \<lparr>w_tables = ?t, w_replies = []\<rparr> = (Inr (), w')" "w_replies w' = []"
      "t_users (w_tables w') = [demo_user h]" "t_sessions (w_tables w') = [?row]"
    by (simp add: audit_write_def stmt_def take_reply_def audit_row_of_def null_cast_def event_literal_def
        insert_audit_def session_pg_def login_world_def empty_tables_def demo_user_def)
  have w: "login_world h\<lparr>w_tables := ?t\<rparr> = \<lparr>w_tables = ?t, w_replies = []\<rparr>" "take_reply (login_world h) = (Done, login_world h)"
    by (simp_all add: login_world_def take_reply_def)
  have c: "sql_create_session session_pg 100 (Inr ''e'') \<lparr>se_id = ''s'', se_user_id = ''u'', se_token_hash = hashSessionToken demo_token,
      se_ip_address = [], se_user_agent = [], se_expires_at = 100 + DefaultSessionDuration\<rparr>
      (event_literal ''u'' ActionLoginSucceeded ''session'' ''s'' [] [] []) (login_world h) = (Inr (), w')"
    using 2(1,2) by (simp add: sql_create_session_def tx_def bindp_def stmt_def 1 w demo_opened_event retp_def take_reply_empty)
  have "open_session (demo_service 100) (demo_login ''correct horse'')
      \<lparr>su_id = ''u'', su_email = ''a@b'', su_password_hash = h, su_is_active = True\<rparr> (login_world h) =
      (Inr \<lparr>lo_token = demo_token, lo_expires_at = 100 + DefaultSessionDuration\<rparr>, w')"
    using c by (simp add: open_session_def demo_service_def newSessionToken_def demo_login_def Let_def bindp_def retp_def
        demo_token_def)
  then have "Login id toy_kdf (demo_service 100) None (demo_login ''correct horse'') (login_world h) =
      (Inr \<lparr>lo_token = demo_token, lo_expires_at = 100 + DefaultSessionDuration\<rparr>, w')"
    using assms f by (simp add: Login_def demo_email demo_login_def trying_def runPasswordCheck_def demo_service_def)
  then show thesis using 2(2-4) by (intro that[of w']) simp_all
qed

text \<open>C35. A successful login opens exactly one session that lasts exactly its time: the account is
  the active one with the given address and the password verifies, one session row under the
  hash of the returned token and one login event are added in one transaction, nothing else
  changes, and from then on \<open>Validate\<close> of the token names that user until 24 hours after the
  login and rejects it from then on.\<close>

theorem login_opens_session:
  assumes "Login ul kdf (sql_session_service pg now newid (newSessionToken (Inr bytes)) anow anewid) slot input w = (Inr s, w')"
    and "bytes \<noteq> []" and "distinct (map ur_id (t_users (w_tables w)))"
    and "\<forall>u \<in> set (t_users (w_tables w)). uuid_in pg (ur_id u) = Some (ur_id u)"
  shows "\<exists>u r a. List.find (\<lambda>u. ur_email u = to_lower ul (trim_space (li_email input))) (t_users (w_tables w)) = Some u
     \<and> ur_is_active u \<and> VerifyPassword kdf (li_password input) (ur_password_hash u) = Inr True
     \<and> w_tables w' = (w_tables w)\<lparr>t_sessions := t_sessions (w_tables w) @ [r],
          t_audit_events := t_audit_events (w_tables w) @ [a]\<rparr>
     \<and> sr_token_hash r = hashSessionToken (lo_token s) \<and> sr_user_id r = ur_id u
     \<and> sr_expires_at r = now + DefaultSessionDuration \<and> lo_expires_at s = now + DefaultSessionDuration
     \<and> ar_action a = ActionLoginSucceeded \<and> ar_metadata a = []
     \<and> (\<forall>w2 now2. all_done w2 \<and> w_tables w2 = w_tables w' \<longrightarrow>
          fst (Validate (sql_session_service pg now2 nid ntok aat aid) (lo_token s) w2) =
            (if now2 < now + DefaultSessionDuration
             then Inr \<lparr>sp_user_id = ur_id u, sp_email = ur_email u, sp_display_name = ur_display_name u,
                sp_expires_at = now + DefaultSessionDuration\<rparr>
             else Inl ErrInvalidSession))"
  using assms(1)
proof (cases rule: Login_cases)
  case (opened u w1)
  obtain r a where e: "newSessionToken (Inr bytes) = Inr (lo_token s)" "lo_expires_at s = now + DefaultSessionDuration"
    "sr_token_hash r = hashSessionToken (lo_token s)" "uuid_in pg (ur_id u) = Some (sr_user_id r)"
    "sr_expires_at r = lo_expires_at s" "sr_token_hash r \<notin> sr_token_hash ` set (sessions_of w1)"
    "ar_action a = ActionLoginSucceeded" "ar_metadata a = []"
    "w_tables w' = (w_tables w1)\<lparr>t_sessions := sessions_of w1 @ [r], t_audit_events := audits_of w1 @ [a]\<rparr>"
    by (rule open_session_exact[OF opened(5), unfolded session_user.select_convs]) (rule that; assumption)
  have u: "u \<in> set (t_users (w_tables w))" using find_Some_set[OF opened(1)] by blast
  then have i: "ur_id u = sr_user_id r" using assms(4) e(4) by fastforce
  have act: "active_session (w_tables w') (hashSessionToken (lo_token s)) n = (if n < sr_expires_at r
     then [\<lparr>sp_user_id = ur_id u, sp_email = ur_email u, sp_display_name = ur_display_name u,
            sp_expires_at = sr_expires_at r\<rparr>] else [])" for n
    using active_session_one[of "w_tables w'" "sessions_of w1" r "hashSessionToken (lo_token s)" u n]
      e(3,6,9) u i assms(3) opened(3,4) by simp
  have tok: "trim_space (lo_token s) \<noteq> []" using token_plain[OF e(1) assms(2)] by simp
  show ?thesis
    using opened(1-4) e i act validate_done[OF _ tok]
    by (intro exI[of _ u] exI[of _ r] exI[of _ a]) simp
next
  case (rejected w1)
  then show ?thesis by (auto simp: recordFailedLogin_def trying_def failp_def split: prod.splits sum.splits)
qed simp

theorem login_opens_session_witness:
  "\<exists>h w'. fst (Login id toy_kdf (demo_service 100) None (demo_login ''correct horse'') (login_world h)) =
       Inr \<lparr>lo_token = demo_token, lo_expires_at = 100 + DefaultSessionDuration\<rparr>
     \<and> map ar_action (t_audit_events (w_tables w')) = [ActionLoginSucceeded]
     \<and> fst (Validate (demo_service 200) demo_token w') = Inr \<lparr>sp_user_id = ''u'', sp_email = ''a@b'',
         sp_display_name = ''A'', sp_expires_at = 100 + DefaultSessionDuration\<rparr>
     \<and> fst (Validate (demo_service (100 + DefaultSessionDuration)) demo_token w') = Inl ErrInvalidSession"
proof -
  obtain h where h: "VerifyPassword toy_kdf ''correct horse'' h = Inr True" by (rule demo_hash)
  obtain w' where w': "Login id toy_kdf (demo_service 100) None (demo_login ''correct horse'') (login_world h) =
      (Inr \<lparr>lo_token = demo_token, lo_expires_at = 100 + DefaultSessionDuration\<rparr>, w')" "w_replies w' = []"
    using demo_logs_in[OF h] by metis
  have d: "all_done w'" using w'(2) by (simp add: all_done_def)
  have u: "t_users (w_tables (login_world h)) = [demo_user h]" "t_audit_events (w_tables (login_world h)) = []"
    by (simp_all add: login_world_def empty_tables_def)
  have l: "(100::int) < DefaultSessionDuration" by (simp add: DefaultSessionDuration_def)
  have e: "List.find (\<lambda>u. ur_email u = to_lower id (trim_space (li_email (demo_login ''correct horse''))))
      [demo_user h] = Some (demo_user h)"
    by (simp add: demo_login_def demo_email demo_user_def)
  show ?thesis
    using login_opens_session[OF w'(1)[unfolded demo_service_def], where nid = "Inr ''s''"
        and ntok = "newSessionToken (Inr ''secret'')" and aat = 200 and aid = "Inr ''e''"]
      login_opens_session[OF w'(1)[unfolded demo_service_def], where nid = "Inr ''s''"
        and ntok = "newSessionToken (Inr ''secret'')" and aat = "100 + DefaultSessionDuration" and aid = "Inr ''e''"]
      d u l e w'(1)
    by (intro exI[of _ h] exI[of _ w'])
      (auto simp: demo_user_def session_pg_def demo_service_def)
qed

section \<open>A session stands for a login\<close>

text \<open>A run of the panel: calls of the three operations in any order with any results, while
  everything but the sessions may change in between.\<close>

datatype session_event =
    LoggedIn time login_input "err + string" "err + login_session"
  | LoggedOut string "err + unit"
  | Validated string "err + session_principal"
  | Elsewhere

inductive session_step ::
  "pg \<Rightarrow> (rune \<Rightarrow> rune) \<Rightarrow> kdf \<Rightarrow> world \<Rightarrow> session_event \<Rightarrow> world \<Rightarrow> bool" for pg ul kdf where
  login: "Login ul kdf (sql_session_service pg now newid newtok anow anewid) slot input w = (res, w') \<Longrightarrow>
    session_step pg ul kdf w (LoggedIn now input newtok res) w'"
| logout: "Logout (sql_session_service pg now newid newtok anow anewid) lo w = (res, w') \<Longrightarrow>
    session_step pg ul kdf w (LoggedOut (lt_token lo) res) w'"
| validate: "Validate (sql_session_service pg now newid newtok anow anewid) token w = (ans, w') \<Longrightarrow>
    session_step pg ul kdf w (Validated token ans) w'"
| elsewhere: "sessions_of w' = sessions_of w \<Longrightarrow> session_step pg ul kdf w Elsewhere w'"

inductive session_run ::
  "pg \<Rightarrow> (rune \<Rightarrow> rune) \<Rightarrow> kdf \<Rightarrow> world \<Rightarrow> session_event list \<Rightarrow> world \<Rightarrow> bool" for pg ul kdf w0 where
  start: "session_run pg ul kdf w0 [] w0"
| more: "session_run pg ul kdf w0 es w \<Longrightarrow> session_step pg ul kdf w e w' \<Longrightarrow> session_run pg ul kdf w0 (es @ [e]) w'"

text \<open>A session row goes back to a login that presented the password of its active user and
  after which no logout of its token succeeded.\<close>

definition justified ::
  "pg \<Rightarrow> (rune \<Rightarrow> rune) \<Rightarrow> kdf \<Rightarrow> world \<Rightarrow> session_event list \<Rightarrow> session_row \<Rightarrow> bool" where
  "justified pg ul kdf w0 es r = (\<exists>es1 es2 at input t res w1 u.
     es = es1 @ LoggedIn at input (Inr t) res # es2 \<and> session_run pg ul kdf w0 es1 w1
     \<and> u \<in> set (t_users (w_tables w1)) \<and> ur_email u = to_lower ul (trim_space (li_email input))
     \<and> ur_is_active u \<and> VerifyPassword kdf (li_password input) (ur_password_hash u) = Inr True
     \<and> uuid_in pg (ur_id u) = Some (sr_user_id r) \<and> sr_token_hash r = hashSessionToken t
     \<and> sr_expires_at r = at + DefaultSessionDuration
     \<and> (\<forall>x. x \<noteq> [] \<and> hashSessionToken x = sr_token_hash r \<longrightarrow> LoggedOut x (Inr ()) \<notin> set es2))"

lemma justified_more:
  assumes "justified pg ul kdf w0 es r"
    and "\<And>x. e = LoggedOut x (Inr ()) \<Longrightarrow> x \<noteq> [] \<Longrightarrow> hashSessionToken x \<noteq> sr_token_hash r"
  shows "justified pg ul kdf w0 (es @ [e]) r"
proof -
  obtain es1 es2 at input t res w1 u where
    j: "es = es1 @ LoggedIn at input (Inr t) res # es2" "session_run pg ul kdf w0 es1 w1"
      "u \<in> set (t_users (w_tables w1))" "ur_email u = to_lower ul (trim_space (li_email input))"
      "ur_is_active u" "VerifyPassword kdf (li_password input) (ur_password_hash u) = Inr True"
      "uuid_in pg (ur_id u) = Some (sr_user_id r)" "sr_token_hash r = hashSessionToken t"
      "sr_expires_at r = at + DefaultSessionDuration"
    and n: "\<forall>x. x \<noteq> [] \<and> hashSessionToken x = sr_token_hash r \<longrightarrow> LoggedOut x (Inr ()) \<notin> set es2"
    using assms(1) unfolding justified_def by (elim exE conjE) (rule that; assumption)
  have "es @ [e] = es1 @ LoggedIn at input (Inr t) res # (es2 @ [e])" using j(1) by simp
  moreover have "\<forall>x. x \<noteq> [] \<and> hashSessionToken x = sr_token_hash r \<longrightarrow> LoggedOut x (Inr ()) \<notin> set (es2 @ [e])"
    using n assms(2) by auto
  ultimately show ?thesis unfolding justified_def using j(2-) by blast
qed

lemma open_session_any:
  assumes "open_session (sql_session_service pg now newid newtok anow anewid) input user w = (res, w')"
  shows "sessions_of w' = sessions_of w \<or> (\<exists>t r. newtok = Inr t \<and> sessions_of w' = sessions_of w @ [r]
     \<and> uuid_in pg (su_id user) = Some (sr_user_id r) \<and> sr_token_hash r = hashSessionToken t
     \<and> sr_expires_at r = now + DefaultSessionDuration)"
proof (cases "\<exists>i t. newid = Inr i \<and> newtok = Inr t")
  case False
  then show ?thesis using assms by (auto simp: open_session_def failp_def split: sum.splits)
next
  case True
  then obtain i t where it: "newid = Inr i" "newtok = Inr t" by blast
  let ?rec = "\<lparr>se_id = i, se_user_id = su_id user, se_token_hash = hashSessionToken t,
      se_ip_address = trim_space (li_ip_address input), se_user_agent = trim_space (li_user_agent input),
      se_expires_at = now + DefaultSessionDuration\<rparr>"
  let ?ev = "event_literal (su_id user) ActionLoginSucceeded ''session'' i
      (trim_space (li_ip_address input)) (trim_space (li_user_agent input)) []"
  obtain r1 where c: "sql_create_session pg anow anewid ?rec ?ev w = (r1, w')"
    using assms by (auto simp: open_session_def it Let_def bindp_def retp_def split: prod.splits sum.splits)
  have "sessions_of w' = sessions_of w \<or>
    (\<exists>r. session_row_of pg ?rec = Some r \<and> sessions_of w' = sessions_of w @ [r])"
    by (rule create_session_any[OF c])
  then show ?thesis using it by (auto simp: session_row_of_def split: option.splits)
qed

lemma record_failed_sessions:
  assumes "recordFailedLogin (sql_session_service pg now newid newtok anow anewid) input w = (res, w')"
  shows "sessions_of w' = sessions_of w"
proof -
  let ?ev = "event_literal [] ActionLoginFailed ''authentication'' ''login''
        (trim_space (li_ip_address input)) (trim_space (li_user_agent input)) []"
  obtain r1 w1 where a: "audit_record (audit_write pg) anow anewid ?ev w = (r1, w1)" by fastforce
  then have "w1 = w'"
    using assms by (auto simp: recordFailedLogin_def trying_def sql_record_audit_def bindp_def retp_def failp_def
        split: sum.splits)
  then show ?thesis using sql_log.record_any[OF a] by auto
qed

lemma logout_any:
  assumes "Logout (sql_session_service pg now newid newtok anow anewid) lo w = (res, w')"
  shows "(sessions_of w' = sessions_of w
      \<or> sessions_of w' = filter (\<lambda>s. sr_token_hash s \<noteq> hashSessionToken (lt_token lo)) (sessions_of w))
    \<and> (res = Inr () \<and> lt_token lo \<noteq> [] \<longrightarrow> hashSessionToken (lt_token lo) \<notin> sr_token_hash ` set (sessions_of w'))"
  using assms delete_session_any delete_session_gone
  by (auto simp: Logout_def retp_def split: if_splits) blast+

lemma validate_sessions:
  "Validate (sql_session_service pg now newid newtok anow anewid) token w = (ans, w') \<Longrightarrow> w_tables w' = w_tables w"
  by (auto simp: Validate_def trying_def sql_find_active_session_def bindp_def failp_def retp_def query_def
      dest!: take_reply_tables split: if_splits prod.splits sum.splits list.splits reply.splits)

lemma justified_login:
  assumes "session_run pg ul kdf w0 es w" and "u \<in> set (t_users (w_tables w))"
    and "ur_email u = to_lower ul (trim_space (li_email input))" and "ur_is_active u"
    and "VerifyPassword kdf (li_password input) (ur_password_hash u) = Inr True"
    and "uuid_in pg (ur_id u) = Some (sr_user_id r)" and "sr_token_hash r = hashSessionToken t"
    and "sr_expires_at r = at + DefaultSessionDuration"
  shows "justified pg ul kdf w0 (es @ [LoggedIn at input (Inr t) res]) r"
  unfolding justified_def
  by (rule exI[of _ es], rule exI[of _ "[]"], rule exI[of _ at], rule exI[of _ input], rule exI[of _ t],
      rule exI[of _ res], rule exI[of _ w], rule exI[of _ u]) (use assms in simp)

lemma session_step_justified:
  assumes "session_run pg ul kdf w0 es w" and "session_step pg ul kdf w e w'"
    and "\<forall>r \<in> set (sessions_of w). justified pg ul kdf w0 es r"
  shows "\<forall>r \<in> set (sessions_of w'). justified pg ul kdf w0 (es @ [e]) r"
  using assms(2)
proof cases
  case (login now newid newtok anow anewid slot input res)
  have old: "justified pg ul kdf w0 (es @ [e]) r" if "r \<in> set (sessions_of w)" for r
    using assms(3) that login(1) by (intro justified_more) auto
  from login(2) show ?thesis
  proof (cases rule: Login_cases)
    case (opened u w1)
    have u: "u \<in> set (t_users (w_tables w))" "ur_email u = to_lower ul (trim_space (li_email input))"
      using find_Some_set[OF opened(1)] by auto
    consider "sessions_of w' = sessions_of w1" | t r where "newtok = Inr t" "sessions_of w' = sessions_of w1 @ [r]"
        "uuid_in pg (ur_id u) = Some (sr_user_id r)" "sr_token_hash r = hashSessionToken t"
        "sr_expires_at r = now + DefaultSessionDuration"
      using open_session_any[OF opened(5)] by auto
    then show ?thesis
    proof cases
      case 1
      then show ?thesis using old opened(4) by simp
    next
      case (2 t r)
      have "justified pg ul kdf w0 (es @ [e]) r"
        using justified_login[OF assms(1) u opened(3,2)] 2 login(1) by simp
      then show ?thesis using 2(2) old opened(4) by simp
    qed
  next
    case (rejected w1)
    then show ?thesis using old record_failed_sessions[OF rejected(3)] by simp
  next
    case (refused x)
    then show ?thesis using old by simp
  qed
next
  case (logout now newid newtok anow anewid lo res)
  have "justified pg ul kdf w0 (es @ [e]) r" if r: "r \<in> set (sessions_of w')" for r
  proof (rule justified_more)
    show "justified pg ul kdf w0 es r" using r logout_any[OF logout(2)] assms(3) by auto
    show "hashSessionToken x \<noteq> sr_token_hash r" if "e = LoggedOut x (Inr ())" "x \<noteq> []" for x
      using that r logout_any[OF logout(2)] logout(1) by (auto simp: image_iff)
  qed
  then show ?thesis by blast
next
  case (validate now newid newtok anow anewid token ans)
  then show ?thesis using assms(3) validate_sessions[OF validate(2)] justified_more by fastforce
next
  case elsewhere
  then show ?thesis using assms(3) justified_more by fastforce
qed

lemma session_run_justified:
  assumes "session_run pg ul kdf w0 es w" and "sessions_of w0 = []"
  shows "\<forall>r \<in> set (sessions_of w). justified pg ul kdf w0 es r"
  using assms(1)
proof induction
  case start
  show ?case using assms(2) by simp
next
  case (more es w e w')
  show ?case by (rule session_step_justified[OF more.hyps more.IH])
qed

text \<open>C5. A token opens the panel only for whoever logged in with it: over any run of logins,
  logouts and validations with any replies of the database, while all other tables may change,
  a token is accepted only if an earlier login returned or lost a token with its hash, presented
  the password of a then active user, the user the answer names, is less than 24 hours old, and
  no logout of the token has succeeded since; and the user is still active.\<close>

theorem session_needs_login:
  assumes "session_run pg ul kdf w0 es w" and "t_sessions (w_tables w0) = []"
    and "Validate (sql_session_service pg now newid newtok anow anewid) token w = (Inr p, w')"
  shows "\<exists>es1 at input t res es2 w1 u.
     es = es1 @ LoggedIn at input (Inr t) res # es2 \<and> session_run pg ul kdf w0 es1 w1
     \<and> hashSessionToken t = hashSessionToken token
     \<and> u \<in> set (t_users (w_tables w1)) \<and> ur_email u = to_lower ul (trim_space (li_email input))
     \<and> ur_is_active u \<and> VerifyPassword kdf (li_password input) (ur_password_hash u) = Inr True
     \<and> uuid_in pg (ur_id u) = Some (sp_user_id p) \<and> sp_expires_at p = at + DefaultSessionDuration
     \<and> now < at + DefaultSessionDuration \<and> LoggedOut token (Inr ()) \<notin> set es2
     \<and> (\<exists>v \<in> set (t_users (w_tables w)). ur_id v = sp_user_id p \<and> ur_is_active v)"
proof -
  obtain r where r: "r \<in> set (sessions_of w)" "sr_token_hash r = hashSessionToken token" "now < sr_expires_at r"
      "sp_expires_at p = sr_expires_at r" "sp_user_id p = sr_user_id r"
    and v: "\<exists>v \<in> set (t_users (w_tables w)). ur_id v = sr_user_id r \<and> ur_is_active v"
    using validate_Inr[OF assms(3)] by blast
  have ne: "token \<noteq> []" using assms(3) by (auto simp: Validate_def failp_def)
  have "justified pg ul kdf w0 es r" using session_run_justified[OF assms(1,2)] r(1) by blast
  then obtain es1 es2 at input t res w1 u where
    j: "es = es1 @ LoggedIn at input (Inr t) res # es2" "session_run pg ul kdf w0 es1 w1"
      "u \<in> set (t_users (w_tables w1))" "ur_email u = to_lower ul (trim_space (li_email input))"
      "ur_is_active u" "VerifyPassword kdf (li_password input) (ur_password_hash u) = Inr True"
      "uuid_in pg (ur_id u) = Some (sr_user_id r)" "sr_token_hash r = hashSessionToken t"
      "sr_expires_at r = at + DefaultSessionDuration"
    and n: "\<forall>x. x \<noteq> [] \<and> hashSessionToken x = sr_token_hash r \<longrightarrow> LoggedOut x (Inr ()) \<notin> set es2"
    unfolding justified_def by (elim exE conjE) (rule that; assumption)
  have "LoggedOut token (Inr ()) \<notin> set es2" using n ne r(2) by simp
  then show ?thesis
    using j r v
    by (intro exI[of _ es1] exI[of _ at] exI[of _ input] exI[of _ t] exI[of _ res] exI[of _ es2]
        exI[of _ w1] exI[of _ u]) simp
qed

theorem session_needs_login_witness:
  "\<exists>h es1 at input t res es2.
     [LoggedIn 100 (demo_login ''correct horse'') (Inr demo_token)
        (Inr \<lparr>lo_token = demo_token, lo_expires_at = 100 + DefaultSessionDuration\<rparr>)]
       = es1 @ LoggedIn at input (Inr t) res # es2
     \<and> VerifyPassword toy_kdf (li_password input) h = Inr True"
proof -
  obtain h where h: "VerifyPassword toy_kdf ''correct horse'' h = Inr True" by (rule demo_hash)
  obtain w' where w': "Login id toy_kdf (demo_service 100) None (demo_login ''correct horse'') (login_world h) =
      (Inr \<lparr>lo_token = demo_token, lo_expires_at = 100 + DefaultSessionDuration\<rparr>, w')" "w_replies w' = []"
    "t_users (w_tables w') = [demo_user h]" "map sr_token_hash (t_sessions (w_tables w')) = [hashSessionToken demo_token]"
    "map sr_user_id (t_sessions (w_tables w')) = [''u'']"
    "map sr_expires_at (t_sessions (w_tables w')) = [100 + DefaultSessionDuration]"
    by (rule demo_logs_in[OF h]) (rule that; assumption)
  have tok: "newSessionToken (Inr ''secret'') = Inr demo_token" by (simp add: newSessionToken_def demo_token_def)
  let ?e = "LoggedIn 100 (demo_login ''correct horse'') (Inr demo_token)
        (Inr \<lparr>lo_token = demo_token, lo_expires_at = 100 + DefaultSessionDuration\<rparr>)"
  have "session_step session_pg id toy_kdf (login_world h) ?e w'"
    using session_step.login[OF w'(1)[unfolded demo_service_def]] tok by simp
  then have r: "session_run session_pg id toy_kdf (login_world h) [?e] w'"
    using session_run.more[OF session_run.start] by fastforce
  obtain row where row: "t_sessions (w_tables w') = [row]" "sr_token_hash row = hashSessionToken demo_token"
      "sr_user_id row = ''u''" "sr_expires_at row = 100 + DefaultSessionDuration"
    using w'(4-6) by (cases "t_sessions (w_tables w')") auto
  have "active_session (w_tables w') (hashSessionToken demo_token) 200 \<noteq> []"
    using row w'(3) by (simp add: active_session_def demo_user_def DefaultSessionDuration_def)
  moreover have "trim_space demo_token \<noteq> []" using token_plain[OF tok] by simp
  moreover have "all_done w'" using w'(2) by (simp add: all_done_def)
  ultimately obtain p w2 where v: "Validate (sql_session_service session_pg 200 (Inr []) (Inr []) 200 (Inr [])) demo_token w' = (Inr p, w2)"
    using validate_done[of w' demo_token session_pg 200 "Inr []" "Inr []" 200 "Inr []"]
    by (auto split: list.splits) (metis prod.collapse)
  have n: "t_sessions (w_tables (login_world h)) = []" by (simp add: login_world_def empty_tables_def)
  obtain es1 at input t res es2 w1 u where j: "[?e] = es1 @ LoggedIn at input (Inr t) res # es2"
    "session_run session_pg id toy_kdf (login_world h) es1 w1" "u \<in> set (t_users (w_tables w1))"
    "VerifyPassword toy_kdf (li_password input) (ur_password_hash u) = Inr True"
    using session_needs_login[OF r n v] by (elim exE conjE) (rule that; assumption)
  have "es1 = []" using j(1) by (cases es1) auto
  then have "input = demo_login ''correct horse''" using j(1) by simp
  then show ?thesis using j(1) h
    by (intro exI[of _ h] exI[of _ es1] exI[of _ at] exI[of _ input] exI[of _ t] exI[of _ res] exI[of _ es2])
      (simp add: demo_login_def)
qed

section \<open>Failed logins\<close>

lemma record_error:
  "audit_record (audit_write pg) at (Inr k) ev w = (Inl e, w') \<Longrightarrow> e = ErrInvalidEvent \<or> (\<exists>s. e = DbError s)"
  by (auto simp: audit_record_def Let_def failp_def retp_def bindp_Inl audit_write_def stmt_def insert_audit_def
      cast_failure_def unique_violation_def fk_violation_def
      split: if_splits prod.splits reply.splits option.splits sum.splits)

lemma create_session_error:
  assumes "sql_create_session pg at (Inr k) s ev w = (Inl e, w')"
  shows "e = ErrInvalidEvent \<or> (\<exists>x. e = DbError x)"
proof -
  have i: "e = ErrInvalidEvent \<or> (\<exists>x. e = DbError x)"
    if "stmt (insert_session pg s) w1 = (Inl e, w2)" for w1 w2
    using that by (auto simp: stmt_def insert_session_def cast_failure_def unique_violation_def fk_violation_def
        split: prod.splits reply.splits option.splits sum.splits if_splits)
  show ?thesis
    using assms
    by (auto simp: sql_create_session_def tx_def bindp_Inl retp_def dest!: i record_error split: prod.splits reply.splits sum.splits tx_end.splits)
qed

lemma open_session_error:
  assumes "open_session (sql_session_service pg now (Inr i) (Inr t) anow (Inr k)) input user w = (Inl e, w')"
  shows "e \<noteq> ErrInvalidCredentials \<and> (no_loss w \<longrightarrow> w_tables w' = w_tables w)"
proof -
  let ?rec = "\<lparr>se_id = i, se_user_id = su_id user, se_token_hash = hashSessionToken t,
      se_ip_address = trim_space (li_ip_address input), se_user_agent = trim_space (li_user_agent input),
      se_expires_at = now + DefaultSessionDuration\<rparr>"
  let ?ev = "event_literal (su_id user) ActionLoginSucceeded ''session'' i
      (trim_space (li_ip_address input)) (trim_space (li_user_agent input)) []"
  have c: "sql_create_session pg anow (Inr k) ?rec ?ev w = (Inl e, w')"
    using assms by (auto simp: open_session_def Let_def bindp_Inl retp_def)
  have "keeps_no_loss (bindp (stmt (insert_session pg ?rec)) (\<lambda>_. bindp (audit_record (audit_write pg) anow (Inr k) ?ev)
      (\<lambda>_. retp (Commit ()))))"
    by (intro inv_intros sql_log.record_keeps)
  then have "no_loss w \<longrightarrow> w_tables w' = w_tables w"
    using tx_Inl_no_loss[OF c[unfolded sql_create_session_def]] by blast
  then show ?thesis using create_session_error[OF c] by auto
qed

lemma record_failed_exact:
  assumes "recordFailedLogin (sql_session_service pg now newid newtok anow anewid) input w = (res, w')" and "no_loss w"
  shows "(res = Inl ErrInvalidCredentials \<and> (\<exists>a. w_tables w' = (w_tables w)\<lparr>t_audit_events := audits_of w @ [a]\<rparr>
       \<and> ar_action a = ActionLoginFailed \<and> ar_actor_user_id a = None \<and> ar_metadata a = []))
    \<or> (\<exists>e. res = Inl (Wrapped ''record failed login audit: '' e []) \<and> w_tables w' = w_tables w)"
proof -
  let ?ev = "event_literal [] ActionLoginFailed ''authentication'' ''login''
        (trim_space (li_ip_address input)) (trim_space (li_user_agent input)) []"
  obtain r1 w1 where a: "audit_record (audit_write pg) anow anewid ?ev w = (r1, w1)" by fastforce
  show ?thesis
  proof (cases r1)
    case (Inl e)
    then have "w_tables w1 = w_tables w" using sql_log.record_err a assms(2) by blast
    then show ?thesis using assms(1) a Inl
      by (auto simp: recordFailedLogin_def trying_def sql_record_audit_def bindp_def retp_def failp_def)
  next
    case (Inr ev')
    from a[unfolded Inr] obtain i b where b: "audit_row_of pg ((trim_event ?ev)\<lparr>ae_id := i, ae_created_at := anow\<rparr>) = Some b"
      and t: "w_tables w1 = (w_tables w)\<lparr>t_audit_events := audits_of w @ [b]\<rparr>"
      by (rule record_exact) (rule that; assumption)
    have "res = Inl ErrInvalidCredentials" "w1 = w'"
      using assms(1) a Inr
      by (auto simp: recordFailedLogin_def trying_def sql_record_audit_def bindp_def retp_def failp_def)
    then show ?thesis using t audit_row_fields[OF b]
      by (auto simp: event_literal_def session_action_trims null_cast_def)
  qed
qed

text \<open>When the event of a failed login can be written: its id is new, and the address and the user
  agent are ones the table takes.\<close>

lemma record_failed_works:
  assumes "all_done w" and "uuid_in pg k = Some i" and "i \<notin> ar_id ` set (audits_of w)"
    and "null_cast (inet_in pg) (trim_space (li_ip_address input)) \<noteq> None"
    and "length (trim_space (li_user_agent input)) \<le> maxUserAgentBytes"
  shows "fst (recordFailedLogin (sql_session_service pg now newid newtok anow (Inr k)) input w :: (err + 'a) \<times> world) = Inl ErrInvalidCredentials"
proof -
  let ?ev = "event_literal [] ActionLoginFailed ''authentication'' ''login''
        (trim_space (li_ip_address input)) (trim_space (li_user_agent input)) []"
  have t: "trim_event ?ev = ?ev" by (simp add: trim_event_def event_literal_def session_action_trims demo_words)
  have v: "valid_event ?ev" using assms(5)
    by (simp add: valid_event_def event_literal_def auditMetadataKeys_def action_defs maxActionBytes_def
        maxTargetTypeBytes_def maxTargetIDBytes_def metadata_bytes_def maxMetadataBytes_def)
  obtain ip where ip: "null_cast (inet_in pg) (trim_space (li_ip_address input)) = Some ip" using assms(4) by blast
  obtain rep w1 where r: "take_reply w = (rep, w1)" by fastforce
  then have d: "rep = Done" "w_tables w1 = w_tables w"
    using assms(1) take_reply_all_done[OF r] take_reply_tables[OF r] by simp_all
  have "\<exists>w2. audit_write pg (?ev\<lparr>ae_id := k, ae_created_at := anow\<rparr>) w = (Inr (), w2)"
    using assms(2,3) ip d r
    by (simp add: audit_write_def stmt_def audit_row_of_def event_literal_def null_cast_def insert_audit_def)
  then show ?thesis
    by (auto simp: recordFailedLogin_def trying_def sql_record_audit_def bindp_def audit_record_def Let_def t v retp_def failp_def)
qed

lemma rejected_login:
  assumes "all_done w" and "slot = None"
    and "found = List.find (\<lambda>u. ur_email u = to_lower ul (trim_space (li_email input))) (t_users (w_tables w))"
    and "found = None \<or> (\<exists>u. found = Some u \<and> (VerifyPassword kdf (li_password input) (ur_password_hash u) = Inr False
           \<or> VerifyPassword kdf (li_password input) (ur_password_hash u) = Inr True \<and> \<not> ur_is_active u))"
    and "uuid_in pg k = Some i" and "i \<notin> ar_id ` set (audits_of w)"
    and "null_cast (inet_in pg) (trim_space (li_ip_address input)) \<noteq> None"
    and "length (trim_space (li_user_agent input)) \<le> maxUserAgentBytes"
  shows "fst (Login ul kdf (sql_session_service pg now newid newtok anow (Inr k)) slot input w) = Inl ErrInvalidCredentials"
proof -
  let ?email = "to_lower ul (trim_space (li_email input))"
  obtain rep w1 where r: "take_reply w = (rep, w1)" by fastforce
  then have d: "rep = Done" "all_done w1" "w_tables w1 = w_tables w"
    using assms(1) take_reply_all_done[OF r] take_reply_tables[OF r] by simp_all
  have f: "fst (recordFailedLogin (sql_session_service pg now newid newtok anow (Inr k)) input w1 :: (err + login_session) \<times> world)
      = Inl ErrInvalidCredentials"
    by (rule record_failed_works) (use assms d in simp_all)
  have q: "sql_find_user_by_email ?email w = (case found of None \<Rightarrow> (Inl ErrSessionUserNotFound, w1)
      | Some u \<Rightarrow> (Inr \<lparr>su_id = ur_id u, su_email = ur_email u, su_password_hash = ur_password_hash u,
          su_is_active = ur_is_active u\<rparr>, w1))"
    using r d assms(3) by (simp add: sql_find_user_by_email_def bindp_def query_def failp_def retp_def split: option.split)
  have L: "Login ul kdf (sql_session_service pg now newid newtok anow (Inr k)) slot input w
      = recordFailedLogin (sql_session_service pg now newid newtok anow (Inr k)) input w1"
    using assms(2,4) q
    by (auto simp: Login_def sql_session_service_sel sql_session_store_sel trying_def runPasswordCheck_def)
  show ?thesis unfolding L by (rule f)
qed

text \<open>C36. A login that is turned away says no more than that, whatever was wrong: on a working database
  with a free password slot, an address nobody has, a wrong password, and an account that is not
  active are answered by the same \<open>ErrInvalidCredentials\<close> (as long as the stored hash can be checked
  and the event of the failure can be written). Whenever \<open>Login\<close> answers that, no active account with
  that address has that password, no session is opened, and exactly one audit event, of the failed
  login, naming no user and carrying no data, is appended; every other error leaves the database as it
  was, and a success is one of an active account with that address and password. (No reply of the
  database is lost, and the password slots report an error of their own.)\<close>

theorem failed_login_recorded:
  assumes "Login ul kdf (sql_session_service pg now (Inr i) (Inr t) anow (Inr k)) slot input w = (res, w')"
    and "no_loss w" and "slot \<noteq> Some ErrInvalidCredentials"
    and "found = List.find (\<lambda>u. ur_email u = to_lower ul (trim_space (li_email input))) (t_users (w_tables w))"
    and "verified = (\<lambda>u. VerifyPassword kdf (li_password input) (ur_password_hash u))"
  shows "(all_done w \<and> slot = None
      \<and> (found = None \<or> (\<exists>u. found = Some u \<and> verified u = Inr False)
         \<or> (\<exists>u. found = Some u \<and> verified u = Inr True \<and> \<not> ur_is_active u))
      \<and> (\<exists>i. uuid_in pg k = Some i \<and> i \<notin> ar_id ` set (t_audit_events (w_tables w)))
      \<and> null_cast (inet_in pg) (trim_space (li_ip_address input)) \<noteq> None
      \<and> length (trim_space (li_user_agent input)) \<le> maxUserAgentBytes
      \<longrightarrow> res = Inl ErrInvalidCredentials)
    \<and> (case res of
         Inr s \<Rightarrow> \<exists>u. found = Some u \<and> ur_is_active u \<and> verified u = Inr True
       | Inl e \<Rightarrow> if e = ErrInvalidCredentials
           then (\<nexists>u. found = Some u \<and> ur_is_active u \<and> verified u = Inr True)
             \<and> (\<exists>a. w_tables w' = (w_tables w)\<lparr>t_audit_events := t_audit_events (w_tables w) @ [a]\<rparr>
                 \<and> ar_action a = ActionLoginFailed \<and> ar_actor_user_id a = None \<and> ar_metadata a = [])
           else w_tables w' = w_tables w)"
proof (rule conjI, rule impI)
  assume h: "all_done w \<and> slot = None
      \<and> (found = None \<or> (\<exists>u. found = Some u \<and> verified u = Inr False)
         \<or> (\<exists>u. found = Some u \<and> verified u = Inr True \<and> \<not> ur_is_active u))
      \<and> (\<exists>i. uuid_in pg k = Some i \<and> i \<notin> ar_id ` set (t_audit_events (w_tables w)))
      \<and> null_cast (inet_in pg) (trim_space (li_ip_address input)) \<noteq> None
      \<and> length (trim_space (li_user_agent input)) \<le> maxUserAgentBytes"
  then obtain x where x: "uuid_in pg k = Some x" "x \<notin> ar_id ` set (audits_of w)" by blast
  have c: "found = None \<or> (\<exists>u. found = Some u \<and> (verified u = Inr False \<or> verified u = Inr True \<and> \<not> ur_is_active u))"
    using h by blast
  have "fst (Login ul kdf (sql_session_service pg now (Inr i) (Inr t) anow (Inr k)) slot input w) = Inl ErrInvalidCredentials"
    by (rule rejected_login[OF _ _ assms(4) c[unfolded assms(5)] x]) (use h in simp_all)
  then show "res = Inl ErrInvalidCredentials" using assms(1) by simp
next
  from assms(1) show "case res of
         Inr s \<Rightarrow> \<exists>u. found = Some u \<and> ur_is_active u \<and> verified u = Inr True
       | Inl e \<Rightarrow> if e = ErrInvalidCredentials
           then (\<nexists>u. found = Some u \<and> ur_is_active u \<and> verified u = Inr True)
             \<and> (\<exists>a. w_tables w' = (w_tables w)\<lparr>t_audit_events := t_audit_events (w_tables w) @ [a]\<rparr>
                 \<and> ar_action a = ActionLoginFailed \<and> ar_actor_user_id a = None \<and> ar_metadata a = [])
           else w_tables w' = w_tables w"
  proof (cases rule: Login_cases)
    case (opened u w1)
    then show ?thesis using open_session_error assms(2,4,5) by (cases res) fastforce+
  next
    case (rejected w1)
    have "no_loss w1" using rejected(1) assms(2) by blast
    from record_failed_exact[OF rejected(3) this] show ?thesis using rejected(1,2) assms(4,5) by auto
  next
    case (refused x)
    then show ?thesis using assms(3) by auto
  qed
qed

definition nobody_world :: world where
  "nobody_world = \<lparr>w_tables = empty_tables, w_replies = []\<rparr>"

theorem failed_login_recorded_witness:
  "\<exists>h w1 w2. Login id toy_kdf (demo_service 100) None (demo_login ''wrong horse'') (login_world h) = (Inl ErrInvalidCredentials, w1)
     \<and> map ar_action (t_audit_events (w_tables w1)) = [ActionLoginFailed] \<and> t_sessions (w_tables w1) = []
     \<and> Login id toy_kdf (demo_service 100) None (demo_login ''wrong horse'') nobody_world = (Inl ErrInvalidCredentials, w2)
     \<and> map ar_action (t_audit_events (w_tables w2)) = [ActionLoginFailed]"
proof -
  obtain h where h: "VerifyPassword toy_kdf ''wrong horse'' h = Inr False" by (rule demo_hash)
  obtain r1 w1 where L1: "Login id toy_kdf (demo_service 100) None (demo_login ''wrong horse'') (login_world h) = (r1, w1)"
    by fastforce
  obtain r2 w2 where L2: "Login id toy_kdf (demo_service 100) None (demo_login ''wrong horse'') nobody_world = (r2, w2)"
    by fastforce
  have tok: "newSessionToken (Inr ''secret'') = Inr demo_token" by (simp add: newSessionToken_def demo_token_def)
  have w: "no_loss (login_world h)" "all_done (login_world h)" "t_users (w_tables (login_world h)) = [demo_user h]"
    "t_audit_events (w_tables (login_world h)) = []" "t_sessions (w_tables (login_world h)) = []"
    "no_loss nobody_world" "all_done nobody_world" "t_users (w_tables nobody_world) = []"
    "t_audit_events (w_tables nobody_world) = []"
    by (simp_all add: login_world_def nobody_world_def no_loss_def all_done_def empty_tables_def)
  have i: "uuid_in session_pg ''e'' = Some ''e''" "null_cast (inet_in session_pg) (trim_space (li_ip_address (demo_login p))) \<noteq> None"
    "length (trim_space (li_user_agent (demo_login p))) \<le> maxUserAgentBytes" for p
    by (simp_all add: session_pg_def demo_login_def null_cast_def)
  have p: "li_password (demo_login ''wrong horse'') = ''wrong horse''" by (simp add: demo_login_def)
  have e: "List.find (\<lambda>u. ur_email u = to_lower id (trim_space (li_email (demo_login ''wrong horse''))))
      [demo_user h] = Some (demo_user h)" "ur_password_hash (demo_user h) = h"
    by (simp_all add: demo_login_def demo_email demo_user_def)
  show ?thesis
    using failed_login_recorded[OF L1[unfolded demo_service_def tok] w(1) _ refl refl] w e h p i L1
      failed_login_recorded[OF L2[unfolded demo_service_def tok] w(6) _ refl refl] L2
    by (intro exI[of _ h] exI[of _ w1] exI[of _ w2]) auto
qed

end
