(* ===== verification/Bootstrap.thy ===== *)
theory Bootstrap
  imports Session Rbac
begin

text \<open>
  \<open>internal/auth/bootstrap.go\<close> and \<open>sqlstore.go\<close>: the first administrator. The address
  part of \<open>mail.ParseAddress\<close> is a parameter (\<open>None\<close> is its error). The transaction of
  \<open>CreateAdmin\<close> runs under an advisory lock, so it is one step.
\<close>

section \<open>The service\<close>

definition MinBootstrapPasswordLength :: nat where "MinBootstrapPasswordLength = 12"

record bootstrap_input =
  bi_email :: string
  bi_display_name :: string
  bi_password :: string

record bootstrap_admin =
  ba_id :: string
  ba_email :: string
  ba_display_name :: string
  ba_password_hash :: string

text \<open>The service at one call: \<open>CreateAdmin\<close> of its store, and what its generators deliver.\<close>

record bootstrap_service =
  bs_create_admin :: "bootstrap_admin \<Rightarrow> unit prog"
  bs_hash_params :: password_hash_params
  bs_new_id :: "err + string"

definition NewBootstrapService :: "(bootstrap_admin \<Rightarrow> unit prog) \<Rightarrow> err + 8 word list \<Rightarrow> bootstrap_service" where
  "NewBootstrapService create random = \<lparr>bs_create_admin = create,
     bs_hash_params = DefaultPasswordHashParams, bs_new_id = newUUID random\<rparr>"

definition WithPasswordHashParams :: "password_hash_params \<Rightarrow> bootstrap_service \<Rightarrow> bootstrap_service" where
  "WithPasswordHashParams params s = s\<lparr>bs_hash_params := params\<rparr>"

definition normalizeEmail :: "(rune \<Rightarrow> rune) \<Rightarrow> (string \<Rightarrow> string option) \<Rightarrow> string \<Rightarrow> err + string" where
  "normalizeEmail ul parse_address value0 =
     (let value = to_lower ul (trim_space value0) in
      if value = [] then Inl ErrInvalidEmail
      else (case parse_address value of
          None \<Rightarrow> Inl ErrInvalidEmail
        | Some address \<Rightarrow> if address \<noteq> value then Inl ErrInvalidEmail else Inr value))"

definition new_admin ::
  "(rune \<Rightarrow> rune) \<Rightarrow> (string \<Rightarrow> string option) \<Rightarrow> kdf \<Rightarrow> bootstrap_service \<Rightarrow> err + string \<Rightarrow> bootstrap_input
     \<Rightarrow> err + bootstrap_admin" where
  "new_admin ul parse_address kdf s rand input =
     rbind (normalizeEmail ul parse_address (bi_email input)) (\<lambda>email.
     let displayName = trim_space (bi_display_name input) in
     if displayName = [] then Inl ErrInvalidDisplayName
     else if length (bi_password input) < MinBootstrapPasswordLength then Inl ErrWeakPassword
     else rbind (bs_new_id s) (\<lambda>i.
          rbind (HashPassword kdf rand (bi_password input) (bs_hash_params s)) (\<lambda>passwordHash.
          Inr \<lparr>ba_id = i, ba_email = email, ba_display_name = displayName, ba_password_hash = passwordHash\<rparr>)))"

definition CreateFirstAdmin ::
  "(rune \<Rightarrow> rune) \<Rightarrow> (string \<Rightarrow> string option) \<Rightarrow> kdf \<Rightarrow> bootstrap_service \<Rightarrow> err + string \<Rightarrow> bootstrap_input
     \<Rightarrow> bootstrap_admin prog" where
  "CreateFirstAdmin ul parse_address kdf s rand input =
     (case new_admin ul parse_address kdf s rand input of
        Inl e \<Rightarrow> failp e
      | Inr admin \<Rightarrow> bindp (bs_create_admin s admin) (\<lambda>_. retp admin))"

section \<open>The SQL store\<close>

definition insert_admin :: "pg \<Rightarrow> bootstrap_admin \<Rightarrow> tables \<Rightarrow> err + unit \<times> tables" where
  "insert_admin pg a t = (case uuid_in pg (ba_id a) of
     None \<Rightarrow> Inl cast_failure
   | Some u \<Rightarrow>
       if u \<in> ur_id ` set (t_users t) \<or> ba_email a \<in> ur_email ` set (t_users t) then Inl unique_violation
       else Inr ((), t\<lparr>t_users := t_users t @ [\<lparr>ur_id = u, ur_email = ba_email a,
              ur_password_hash = ba_password_hash a, ur_display_name = ba_display_name a,
              ur_is_active = True\<rparr>]\<rparr>))"

text \<open>\<open>INSERT INTO user_roles .. SELECT $1, id FROM roles WHERE name = $2 ON CONFLICT DO NOTHING\<close>,
  with the number of rows inserted.\<close>

definition insert_user_role :: "pg \<Rightarrow> string \<Rightarrow> string \<Rightarrow> tables \<Rightarrow> err + nat \<times> tables" where
  "insert_user_role pg i role_name t = (case uuid_in pg i of
     None \<Rightarrow> Inl cast_failure
   | Some u \<Rightarrow>
       (let rows = filter (\<lambda>x. x \<notin> set (t_user_roles t))
              [(u, rr_id r). r \<leftarrow> t_roles t, rr_name r = role_name] in
        if rows \<noteq> [] \<and> u \<notin> ur_id ` set (t_users t) then Inl fk_violation
        else Inr (length rows, t\<lparr>t_user_roles := t_user_roles t @ rows\<rparr>)))"

definition bootstrap_event :: "string \<Rightarrow> audit_event" where
  "bootstrap_event i = event_literal [] ActionBootstrapAdminCreated ''user'' i [] [] [(''source'', ''bootstrap'')]"

definition sql_create_admin :: "pg \<Rightarrow> time \<Rightarrow> err + string \<Rightarrow> bootstrap_admin \<Rightarrow> unit prog" where
  "sql_create_admin pg anow anewid a =
     tx (bindp (stmt (\<lambda>t. Inr ((), t))) (\<lambda>_.
         bindp (query (\<lambda>t. Inr (length (t_users t)))) (\<lambda>count.
         if count > 0 then failp ErrAdminAlreadyExists
         else bindp (stmt (insert_admin pg a)) (\<lambda>_.
              bindp (stmt (insert_user_role pg (ba_id a) RoleOwner)) (\<lambda>affected.
              if affected = 0 then failp ErrOwnerRoleNotSeeded
              else bindp (audit_record (audit_write pg) anow anewid (bootstrap_event (ba_id a))) (\<lambda>_.
                   retp (Commit ())))))))"

section \<open>What a success means\<close>

lemma create_admin_exact:
  assumes "sql_create_admin pg anow anewid a w = (Inr u, w')"
  obtains i e rows where "uuid_in pg (ba_id a) = Some i" "t_users (w_tables w) = []"
    "rows = filter (\<lambda>x. x \<notin> set (t_user_roles (w_tables w))) [(i, rr_id r). r \<leftarrow> t_roles (w_tables w), rr_name r = RoleOwner]"
    "rows \<noteq> []" "ar_action e = ActionBootstrapAdminCreated"
    "w_tables w' = (w_tables w)\<lparr>t_users := [\<lparr>ur_id = i, ur_email = ba_email a, ur_password_hash = ba_password_hash a,
        ur_display_name = ba_display_name a, ur_is_active = True\<rparr>],
      t_user_roles := t_user_roles (w_tables w) @ rows, t_audit_events := audits_of w @ [e]\<rparr>"
proof -
  let ?audit = "audit_record (audit_write pg) anow anewid (bootstrap_event (ba_id a))"
  let ?grant = "\<lambda>affected. if affected = 0 then failp ErrOwnerRoleNotSeeded
              else bindp ?audit (\<lambda>_. retp (Commit ()))"
  let ?go = "\<lambda>count. if count > 0 then failp ErrAdminAlreadyExists
         else bindp (stmt (insert_admin pg a)) (\<lambda>_. bindp (stmt (insert_user_role pg (ba_id a) RoleOwner)) ?grant)"
  let ?b = "bindp (stmt (\<lambda>t. Inr ((), t))) (\<lambda>_. bindp (query (\<lambda>t. Inr (length (t_users t)))) ?go)"
  have "commits ?b" by (auto intro!: inv_intros)
  then obtain w1 w2 where w: "w_tables w1 = w_tables w" "?b w1 = (Inr (Commit u), w2)" "w_tables w' = w_tables w2"
    using assms unfolding sql_create_admin_def by (elim tx_commit)
  obtain x wa where 0: "stmt (\<lambda>t. Inr ((), t)) w1 = (Inr x, wa)" "bindp (query (\<lambda>t. Inr (length (t_users t)))) ?go wa = (Inr (Commit u), w2)"
    using w(2) unfolding bindp_Inr by blast
  obtain n wb where 1: "query (\<lambda>t. Inr (length (t_users t))) wa = (Inr n, wb)" "?go n wb = (Inr (Commit u), w2)"
    using 0(2) unfolding bindp_Inr by blast
  have b: "w_tables wb = w_tables w" "n = length (t_users (w_tables w))"
    using stmt_Inr[OF 0(1)] query_Inr[OF 1(1)] w(1) by simp_all
  have n: "n = 0" using 1(2) by (cases n) (simp_all add: failp_def)
  then obtain y wc where 2: "stmt (insert_admin pg a) wb = (Inr y, wc)"
    and 3: "bindp (stmt (insert_user_role pg (ba_id a) RoleOwner)) ?grant wc = (Inr (Commit u), w2)"
    using 1(2) by (simp add: bindp_Inr del: split_paired_Ex) blast
  obtain k wd where 4: "stmt (insert_user_role pg (ba_id a) RoleOwner) wc = (Inr k, wd)" "?grant k wd = (Inr (Commit u), w2)"
    using 3 unfolding bindp_Inr by blast
  obtain e where 5: "?audit wd = (Inr e, w2)" and k: "k \<noteq> 0"
    using 4(2) by (cases "k = 0") (auto simp: bindp_Inr retp_def failp_def)
  obtain i where i: "uuid_in pg (ba_id a) = Some i"
    and c: "w_tables wc = (w_tables w)\<lparr>t_users := [\<lparr>ur_id = i, ur_email = ba_email a, ur_password_hash = ba_password_hash a,
        ur_display_name = ba_display_name a, ur_is_active = True\<rparr>]\<rparr>"
    using stmt_Inr[OF 2] b n by (auto simp: insert_admin_def split: option.splits if_splits)
  let ?rows = "filter (\<lambda>x. x \<notin> set (t_user_roles (w_tables w))) [(i, rr_id r). r \<leftarrow> t_roles (w_tables w), rr_name r = RoleOwner]"
  have d: "k = length ?rows \<and> w_tables wd = (w_tables wc)\<lparr>t_user_roles := t_user_roles (w_tables w) @ ?rows\<rparr>"
    using stmt_Inr[OF 4(1)] c i by (auto simp: insert_user_role_def Let_def split: if_splits)
  obtain j ev where ev: "audit_row_of pg ((trim_event (bootstrap_event (ba_id a)))\<lparr>ae_id := j, ae_created_at := anow\<rparr>) = Some ev"
    and t: "w_tables w2 = (w_tables wd)\<lparr>t_audit_events := audits_of wd @ [ev]\<rparr>"
    by (rule record_exact[OF 5]) (rule that; assumption)
  have "trim_space ActionBootstrapAdminCreated = ActionBootstrapAdminCreated"
    by (rule trim_space_plain; simp add: plain_def action_defs)
  then have "ar_action ev = ActionBootstrapAdminCreated"
    using audit_row_fields(1)[OF ev] by (simp add: bootstrap_event_def event_literal_def)
  moreover have "w_tables w' = (w_tables w)\<lparr>t_users := [\<lparr>ur_id = i, ur_email = ba_email a, ur_password_hash = ba_password_hash a,
        ur_display_name = ba_display_name a, ur_is_active = True\<rparr>],
      t_user_roles := t_user_roles (w_tables w) @ ?rows, t_audit_events := audits_of w @ [ev]\<rparr>"
    using w(3) t d c by simp
  moreover have "t_users (w_tables w) = []" "?rows \<noteq> []" using b n d k by simp_all
  ultimately show thesis using that[OF i _ refl] by blast
qed

lemma new_admin_Inr:
  assumes "new_admin ul pa kdf s rand input = Inr a"
  shows "ba_email a = to_lower ul (trim_space (bi_email input)) \<and> pa (ba_email a) = Some (ba_email a) \<and> ba_email a \<noteq> []
    \<and> ba_display_name a = trim_space (bi_display_name input) \<and> ba_display_name a \<noteq> []
    \<and> MinBootstrapPasswordLength \<le> length (bi_password input) \<and> bs_new_id s = Inr (ba_id a)
    \<and> HashPassword kdf rand (bi_password input) (bs_hash_params s) = Inr (ba_password_hash a)"
  using assms
  by (auto simp: new_admin_def normalizeEmail_def Let_def rbind_eq_Inr not_less split: if_splits option.splits)

lemma login_known:
  assumes "all_done w" and "t_users (w_tables w) = [u]"
    and "ur_email u = to_lower ul (trim_space (li_email input))" and "ur_is_active u"
    and "VerifyPassword kdf (li_password input) (ur_password_hash u) = Inr True"
  shows "\<exists>w1. w_tables w1 = w_tables w \<and> all_done w1 \<and>
    Login ul kdf (sql_session_service pg now newid newtok anow anewid) None input w =
    open_session (sql_session_service pg now newid newtok anow anewid) input \<lparr>su_id = ur_id u, su_email = ur_email u,
      su_password_hash = ur_password_hash u, su_is_active = True\<rparr> w1"
proof -
  obtain rep w1 where t: "take_reply w = (rep, w1)" by fastforce
  then have d: "rep = Done" "all_done w1" "w_tables w1 = w_tables w"
    using assms(1) take_reply_all_done take_reply_tables by blast+
  have "sql_find_user_by_email (to_lower ul (trim_space (li_email input))) w = (Inr \<lparr>su_id = ur_id u, su_email = ur_email u,
      su_password_hash = ur_password_hash u, su_is_active = True\<rparr>, w1)"
    using t d assms(2-4) by (simp add: sql_find_user_by_email_def bindp_def query_def retp_def)
  then show ?thesis using d assms(4,5)
    by (intro exI[of _ w1]) (simp add: Login_def trying_def runPasswordCheck_def)
qed

text \<open>C37. The first administrator is created once, from valid input, and can use the panel: a
  successful \<open>CreateFirstAdmin\<close> found no user at all, took a normalised address that parses as
  itself, a name, and a password of at least 12 bytes, and left exactly one user, active, under
  that address, who holds every role named owner, with exactly one audit event and nothing else
  changed; the stored hash verifies the password, and a login with it, on a working database, is
  answered by opening a session for that user. (argon2 delivers the bytes it is asked for.)\<close>

theorem first_admin_created_once:
  assumes "CreateFirstAdmin ul parse_address kdf \<lparr>bs_create_admin = sql_create_admin pg anow anewid,
      bs_hash_params = params, bs_new_id = newid\<rparr> (Inr salt) input w = (Inr admin, w')"
    and "length salt = unat (hp_salt_length params)"
    and "\<And>pw s t m p n. length (kdf pw s t m p n) = unat n"
  shows "t_users (w_tables w) = []
    \<and> parse_address (to_lower ul (trim_space (bi_email input))) = Some (to_lower ul (trim_space (bi_email input)))
    \<and> 12 \<le> length (bi_password input)
    \<and> (\<exists>u e rows. w_tables w' = (w_tables w)\<lparr>t_users := [u], t_user_roles := t_user_roles (w_tables w) @ rows,
            t_audit_events := t_audit_events (w_tables w) @ [e]\<rparr>
        \<and> ur_email u = to_lower ul (trim_space (bi_email input)) \<and> ur_is_active u
        \<and> ur_display_name u = trim_space (bi_display_name input)
        \<and> VerifyPassword kdf (bi_password input) (ur_password_hash u) = Inr True
        \<and> rows \<noteq> [] \<and> set rows \<subseteq> {(ur_id u, rr_id r) |r. r \<in> set (t_roles (w_tables w)) \<and> rr_name r = RoleOwner}
        \<and> ar_action e = ActionBootstrapAdminCreated
        \<and> (\<forall>w2. all_done w2 \<and> w_tables w2 = w_tables w' \<longrightarrow>
             (\<exists>w3. w_tables w3 = w_tables w' \<and>
                Login ul kdf (sql_session_service pg now2 newid2 newtok2 anow2 anewid2) None
                   \<lparr>li_email = bi_email input, li_password = bi_password input, li_ip_address = ip, li_user_agent = agent\<rparr> w2
                = open_session (sql_session_service pg now2 newid2 newtok2 anow2 anewid2)
                   \<lparr>li_email = bi_email input, li_password = bi_password input, li_ip_address = ip, li_user_agent = agent\<rparr>
                   \<lparr>su_id = ur_id u, su_email = ur_email u, su_password_hash = ur_password_hash u, su_is_active = True\<rparr> w3)))"
proof -
  let ?s = "\<lparr>bs_create_admin = sql_create_admin pg anow anewid, bs_hash_params = params, bs_new_id = newid\<rparr>"
  obtain u where a: "new_admin ul parse_address kdf ?s (Inr salt) input = Inr admin"
    and c: "sql_create_admin pg anow anewid admin w = (Inr u, w')"
    using assms(1) by (auto simp: CreateFirstAdmin_def failp_def bindp_Inr retp_def split: sum.splits)
  note n = new_admin_Inr[OF a]
  have p: "parse_address (to_lower ul (trim_space (bi_email input))) = Some (to_lower ul (trim_space (bi_email input)))"
    using n by auto
  have h: "HashPassword kdf (Inr salt) (bi_password input) params = Inr (ba_password_hash admin)" using n by simp
  have v: "VerifyPassword kdf (bi_password input) (ba_password_hash admin) = Inr True"
    using hash_decodes[OF h assms(2,3)] by (simp add: VerifyPassword_def)
  obtain i e rows where x: "t_users (w_tables w) = []"
    "rows = filter (\<lambda>x. x \<notin> set (t_user_roles (w_tables w))) [(i, rr_id r). r \<leftarrow> t_roles (w_tables w), rr_name r = RoleOwner]"
    "rows \<noteq> []" "ar_action e = ActionBootstrapAdminCreated"
    "w_tables w' = (w_tables w)\<lparr>t_users := [\<lparr>ur_id = i, ur_email = ba_email admin, ur_password_hash = ba_password_hash admin,
        ur_display_name = ba_display_name admin, ur_is_active = True\<rparr>],
      t_user_roles := t_user_roles (w_tables w) @ rows, t_audit_events := audits_of w @ [e]\<rparr>"
    by (rule create_admin_exact[OF c]) (rule that; assumption)
  let ?u = "\<lparr>ur_id = i, ur_email = ba_email admin, ur_password_hash = ba_password_hash admin,
        ur_display_name = ba_display_name admin, ur_is_active = True\<rparr>"
  let ?l = "\<lparr>li_email = bi_email input, li_password = bi_password input, li_ip_address = ip, li_user_agent = agent\<rparr>"
  have rows: "set rows \<subseteq> {(ur_id ?u, rr_id r) |r. r \<in> set (t_roles (w_tables w)) \<and> rr_name r = RoleOwner}"
    unfolding x(2) by (auto split: if_splits)
  have login: "\<exists>w3. w_tables w3 = w_tables w' \<and> Login ul kdf (sql_session_service pg now2 newid2 newtok2 anow2 anewid2) None ?l w2
     = open_session (sql_session_service pg now2 newid2 newtok2 anow2 anewid2) ?l
        \<lparr>su_id = ur_id ?u, su_email = ur_email ?u, su_password_hash = ur_password_hash ?u, su_is_active = True\<rparr> w3"
    if w2: "all_done w2 \<and> w_tables w2 = w_tables w'" for w2
    using login_known[of w2 ?u ul ?l kdf pg now2 newid2 newtok2 anow2 anewid2] w2 x(5) n v by auto
  show ?thesis
    using p x(1,3,4,5) v rows login n
    by (intro conjI exI[of _ ?u] exI[of _ e] exI[of _ rows]) (simp_all add: MinBootstrapPasswordLength_def)
qed

definition owner_world :: world where
  "owner_world = \<lparr>w_tables = empty_tables\<lparr>t_roles := [\<lparr>rr_id = ''r'', rr_name = ''owner'', rr_description = []\<rparr>]\<rparr>, w_replies = []\<rparr>"

definition demo_admin :: bootstrap_input where
  "demo_admin = \<lparr>bi_email = ''A@b'', bi_display_name = ''Root'', bi_password = ''correct horse''\<rparr>"

theorem first_admin_created_once_witness:
  "\<exists>admin. \<exists>w' :: world. CreateFirstAdmin id Some toy_kdf \<lparr>bs_create_admin = sql_create_admin session_pg 5 (Inr ''e''),
      bs_hash_params = DefaultPasswordHashParams, bs_new_id = Inr ''u''\<rparr> (Inr ''0123456789abcdef'') demo_admin owner_world
     = (Inr admin, w')
    \<and> map ur_email (t_users (w_tables w')) = [''a@b''] \<and> t_user_roles (w_tables w') = [(''u'', ''r'')]"
proof -
  let ?s = "\<lparr>bs_create_admin = sql_create_admin session_pg 5 (Inr ''e''),
      bs_hash_params = DefaultPasswordHashParams, bs_new_id = Inr ''u''\<rparr>"
  obtain h where h: "HashPassword toy_kdf (Inr ''0123456789abcdef'') ''correct horse'' DefaultPasswordHashParams = Inr h"
    by (simp add: HashPassword_def validateHashParams_def DefaultPasswordHashParams_def Let_def)
  have r: "trim_space ''Root'' = ''Root''" by (rule trim_space_plain; simp add: plain_def)
  let ?a = "\<lparr>ba_id = ''u'', ba_email = ''a@b'', ba_display_name = ''Root'', ba_password_hash = h\<rparr>"
  have a: "new_admin id Some toy_kdf ?s (Inr ''0123456789abcdef'') demo_admin = Inr ?a"
    using h by (simp add: new_admin_def normalizeEmail_def demo_admin_def demo_email Let_def r MinBootstrapPasswordLength_def)
  let ?ev = "bootstrap_event ''u''"
  have "trim_space ActionBootstrapAdminCreated = ActionBootstrapAdminCreated" "trim_space ''user'' = ''user''"
    by (rule trim_space_plain; simp add: plain_def action_defs)+
  then have t: "trim_event ?ev = ?ev" by (simp add: trim_event_def bootstrap_event_def event_literal_def demo_words)
  have v: "valid_event ?ev" by (simp add: bootstrap_event_def login_eval)
  let ?t = "(w_tables owner_world)\<lparr>t_users := [\<lparr>ur_id = ''u'', ur_email = ''a@b'', ur_password_hash = h,
      ur_display_name = ''Root'', ur_is_active = True\<rparr>], t_user_roles := [(''u'', ''r'')]\<rparr>"
  let ?w = "\<lambda>t. \<lparr>w_tables = t, w_replies = []\<rparr>"
  have o: "owner_world = ?w (w_tables owner_world)" by (simp add: owner_world_def)
  let ?t1 = "(w_tables owner_world)\<lparr>t_users := [\<lparr>ur_id = ''u'', ur_email = ''a@b'',
      ur_password_hash = h, ur_display_name = ''Root'', ur_is_active = True\<rparr>]\<rparr>"
  obtain w1 where aw: "audit_write session_pg (?ev\<lparr>ae_id := ''e'', ae_created_at := 5\<rparr>) (?w ?t) = (Inr (), w1)"
      "w_replies w1 = []" "t_users (w_tables w1) = t_users ?t" "t_user_roles (w_tables w1) = t_user_roles ?t"
    by (simp add: audit_write_def stmt_def take_reply_def audit_row_of_def null_cast_def bootstrap_event_def
        event_literal_def insert_audit_def session_pg_def owner_world_def empty_tables_def)
  have 1: "stmt (\<lambda>t. Inr ((), t)) (?w t) = (Inr (), ?w t)" for t by (simp add: stmt_free)
  have 2: "query (\<lambda>t. Inr (length (t_users t))) (?w (w_tables owner_world)) = (Inr 0, ?w (w_tables owner_world))"
    by (rule query_free) (simp_all add: owner_world_def empty_tables_def)
  have 3: "stmt (insert_admin session_pg ?a) (?w (w_tables owner_world)) = (Inr (), ?w ?t1)"
    using stmt_free[of "?w (w_tables owner_world)" "insert_admin session_pg ?a" "()" ?t1]
    by (simp add: insert_admin_def session_pg_def owner_world_def empty_tables_def)
  have 4: "stmt (insert_user_role session_pg ''u'' RoleOwner) (?w ?t1) = (Inr 1, ?w ?t)"
    using stmt_free[of "?w ?t1" "insert_user_role session_pg ''u'' RoleOwner" 1 ?t]
    by (simp add: insert_user_role_def session_pg_def owner_world_def empty_tables_def RoleOwner_def Let_def)
  have 5: "audit_record (audit_write session_pg) 5 (Inr ''e'') ?ev (?w ?t) = (Inr (?ev\<lparr>ae_id := ''e'', ae_created_at := 5\<rparr>), w1)"
    using aw(1) by (simp add: audit_record_def Let_def t v bindp_ok retp_def)
  have "sql_create_admin session_pg 5 (Inr ''e'') ?a (?w (w_tables owner_world)) = (Inr (), w1)"
    unfolding sql_create_admin_def
    by (rule tx_free) (simp_all add: bindp_def 1 2 3 4 5 retp_def aw(2))
  then have C: "CreateFirstAdmin id Some toy_kdf ?s (Inr ''0123456789abcdef'') demo_admin owner_world = (Inr ?a, w1)"
    using o by (simp add: CreateFirstAdmin_def a bindp_ok retp_def)
  have l: "length ''0123456789abcdef'' = unat (hp_salt_length DefaultPasswordHashParams)" by (simp add: DefaultPasswordHashParams_def)
  have k: "length (toy_kdf pw s t m p n) = unat n" for pw s t m p n by (simp add: toy_kdf_def)
  have e: "to_lower id (trim_space (bi_email demo_admin)) = ''a@b''" by (simp add: demo_admin_def demo_email)
  from first_admin_created_once[OF C l k] obtain u x rows where
      "w_tables w1 = (w_tables owner_world)\<lparr>t_users := [u], t_user_roles := t_user_roles (w_tables owner_world) @ rows,
            t_audit_events := t_audit_events (w_tables owner_world) @ [x]\<rparr>"
      "ur_email u = to_lower id (trim_space (bi_email demo_admin))" by blast
  then have "map ur_email (t_users (w_tables w1)) = [''a@b'']" using e by simp
  then show ?thesis using C aw(4) by (intro exI[of _ ?a] exI[of _ w1]) simp
qed

end
