(* ===== verification/Migrations.thy ===== *)
theory Migrations
  imports Store Password
begin

text \<open>
  \<open>internal/database/migration.go\<close>: loading the numbered SQL files and applying those the
  database has not recorded. What PostgreSQL does with the text of a migration is a
  parameter \<open>exec\<close>; a directory is the list of its entries in the order \<open>fs.ReadDir\<close> gives.
\<close>

section \<open>Loading\<close>

record migration =
  mg_version :: int
  mg_name :: string
  mg_path :: string
  mg_sql :: string

text \<open>\<open>fs.DirEntry\<close>: its name, whether it is a directory, and what \<open>fs.ReadFile\<close> of it returns.\<close>

record dir_entry =
  de_name :: string
  de_is_dir :: bool
  de_content :: "err + string"

definition is_digit_char :: "char \<Rightarrow> bool" where
  "is_digit_char c = (48 \<le> byte c \<and> byte c \<le> 57)"

definition name_char :: "char \<Rightarrow> bool" where
  "name_char c = (is_digit_char c \<or> (65 \<le> byte c \<and> byte c \<le> 90) \<or> (97 \<le> byte c \<and> byte c \<le> 122)
     \<or> c = CHR ''_'' \<or> c = CHR ''-'')"

text \<open>\<open>migrationFilePattern\<close>: digits, an underscore, a name, \<open>.sql\<close>; both groups on a match.\<close>

definition match_migration_file :: "string \<Rightarrow> (string \<times> string) option" where
  "match_migration_file s =
     (let ds = takeWhile is_digit_char s; rest = dropWhile is_digit_char s in
      case rest of [] \<Rightarrow> None
      | c # tail \<Rightarrow>
          (let name = take (length tail - 4) tail in
           if ds \<noteq> [] \<and> c = CHR ''_'' \<and> has_suffix tail ''.sql'' \<and> name \<noteq> [] \<and> (\<forall>x \<in> set name. name_char x)
           then Some (ds, name) else None))"

definition atoi_range :: "string \<Rightarrow> err" where
  "atoi_range s = Plain (''strconv.Atoi: parsing \"'' @ s @ ''\": value out of range'')"

fun load_entries :: "dir_entry list \<Rightarrow> (int \<rightharpoonup> string) \<Rightarrow> migration list \<Rightarrow> err + migration list" where
  "load_entries [] seen acc = Inr acc"
| "load_entries (entry # rest) seen acc =
     (if de_is_dir entry then load_entries rest seen acc
      else (case match_migration_file (de_name entry) of
        None \<Rightarrow> load_entries rest seen acc
      | Some (ds, name) \<Rightarrow> (case atoi ds of
          None \<Rightarrow> Inl (Wrapped (''parse migration version \"'' @ de_name entry @ ''\": '') (atoi_range ds) [])
        | Some version \<Rightarrow> (case seen version of
            Some previous \<Rightarrow> Inl (Plain (''duplicate migration version '' @ itoa version @ '' in '' @ previous @ '' and '' @ de_name entry))
          | None \<Rightarrow> (case de_content entry of
              Inl e \<Rightarrow> Inl e
            | Inr content \<Rightarrow>
                (let sqlText = trim_space content in
                 if sqlText = [] then Inl (Plain (''migration '' @ de_name entry @ '' is empty''))
                 else load_entries rest (seen(version \<mapsto> de_name entry))
                   (acc @ [\<lparr>mg_version = version, mg_name = name, mg_path = de_name entry, mg_sql = sqlText\<rparr>])))))))"

definition LoadMigrations :: "err + dir_entry list \<Rightarrow> err + migration list" where
  "LoadMigrations dir = rbind dir (\<lambda>entries.
     rbind (load_entries entries Map.empty []) (\<lambda>ms. Inr (sort_key mg_version ms)))"

section \<open>Running\<close>

record migration_store =
  ms_ensure :: "unit prog"
  ms_applied_versions :: "int set prog"
  ms_apply :: "migration \<Rightarrow> unit prog"

text \<open>\<open>%06d\<close>.\<close>

definition six_digits :: "int \<Rightarrow> string" where
  "six_digits n =
     (let ds = digits (nat \<bar>n\<bar>); w = (if n < 0 then 5 else 6)
      in (if n < 0 then ''-'' else []) @ replicate (w - length ds) CHR ''0'' @ ds)"

text \<open>The loop of \<open>Up\<close>: the migrations that ran, and the error it stopped at.\<close>

fun up_loop :: "(migration \<Rightarrow> unit prog) \<Rightarrow> int set \<Rightarrow> migration list \<Rightarrow> migration list \<Rightarrow> world
    \<Rightarrow> (migration list \<times> err option) \<times> world" where
  "up_loop apply_one applied [] did w = ((did, None), w)"
| "up_loop apply_one applied (m # ms) did w =
     (if mg_version m \<in> applied then up_loop apply_one applied ms did w
      else (case apply_one m w of
          (Inl e, w') \<Rightarrow> ((did, Some (Wrapped (''apply migration '' @ six_digits (mg_version m) @ ''_'' @ mg_name m @ '': '') e [])), w')
        | (Inr u, w') \<Rightarrow> up_loop apply_one applied ms (did @ [m]) w'))"

definition Up :: "migration_store \<Rightarrow> migration list \<Rightarrow> world \<Rightarrow> (migration list \<times> err option) \<times> world" where
  "Up s ms w = (case ms_ensure s w of
     (Inl e, w1) \<Rightarrow> (([], Some e), w1)
   | (Inr u, w1) \<Rightarrow> (case ms_applied_versions s w1 of
       (Inl e, w2) \<Rightarrow> (([], Some e), w2)
     | (Inr applied, w2) \<Rightarrow> up_loop (ms_apply s) applied ms [] w2))"

section \<open>The SQL store\<close>

definition sql_ensure :: "unit prog" where "sql_ensure = stmt (\<lambda>t. Inr ((), t))"

definition sql_applied_versions :: "int set prog" where
  "sql_applied_versions = query (\<lambda>t. Inr (fst ` set (t_migrations t)))"

text \<open>The version column is a 32 bit integer and the primary key.\<close>

definition insert_version :: "migration \<Rightarrow> tables \<Rightarrow> err + unit \<times> tables" where
  "insert_version m t =
     (if mg_version m < - (2 ^ 31) \<or> mg_version m \<ge> 2 ^ 31 then Inl cast_failure
      else if mg_version m \<in> fst ` set (t_migrations t) then Inl unique_violation
      else Inr ((), t\<lparr>t_migrations := t_migrations t @ [(mg_version m, mg_name m)]\<rparr>))"

definition sql_apply :: "(string \<Rightarrow> tables \<Rightarrow> err + tables) \<Rightarrow> migration \<Rightarrow> unit prog" where
  "sql_apply exec m =
     tx (bindp (stmt (\<lambda>t. case exec (mg_sql m) t of Inl e \<Rightarrow> Inl e | Inr t' \<Rightarrow> Inr ((), t'))) (\<lambda>_.
         bindp (stmt (insert_version m)) (\<lambda>_.
         retp (Commit ()))))"

definition sql_migration_store :: "(string \<Rightarrow> tables \<Rightarrow> err + tables) \<Rightarrow> migration_store" where
  "sql_migration_store exec = \<lparr>ms_ensure = sql_ensure, ms_applied_versions = sql_applied_versions,
     ms_apply = sql_apply exec\<rparr>"

section \<open>The contract of a store\<close>

lemma keepsD: "keeps_no_loss p \<Longrightarrow> p w = (r, w') \<Longrightarrow> no_loss w \<Longrightarrow> no_loss w'"
  unfolding keeps_no_loss_def by (metis snd_conv)

text \<open>What \<open>Up\<close> relies on: a migration is applied as a whole or, when an error is reported and
  no reply was lost, not at all; reading changes nothing.\<close>

locale migration_steps =
  fixes store :: migration_store
    and effect :: "migration \<Rightarrow> tables \<Rightarrow> tables option"
    and recorded :: "tables \<Rightarrow> int set"
  assumes ensure_reads: "w_tables (snd (ms_ensure store w)) = w_tables w"
    and applied_reads: "w_tables (snd (ms_applied_versions store w)) = w_tables w"
    and applied_ok: "ms_applied_versions store w = (Inr vs, w') \<Longrightarrow> vs = recorded (w_tables w)"
    and apply_ok: "ms_apply store m w = (Inr u, w') \<Longrightarrow> effect m (w_tables w) = Some (w_tables w')"
    and apply_err: "ms_apply store m w = (Inl e, w') \<Longrightarrow> no_loss w \<Longrightarrow> w_tables w' = w_tables w"
    and store_keeps: "keeps_no_loss (ms_ensure store)" "keeps_no_loss (ms_applied_versions store)"
      "keeps_no_loss (ms_apply store m)"
begin

text \<open>The effect of a list of migrations, one after the other.\<close>

fun effects :: "migration list \<Rightarrow> tables \<Rightarrow> tables option" where
  "effects [] t = Some t"
| "effects (m # ms) t = Option.bind (effect m t) (effects ms)"

lemma up_loop_prefix:
  assumes "up_loop (ms_apply store) applied ms did w = ((out, e), w')" and "no_loss w"
  shows "\<exists>more rest. out = did @ more \<and> filter (\<lambda>m. mg_version m \<notin> applied) ms = more @ rest
    \<and> effects more (w_tables w) = Some (w_tables w') \<and> (e = None \<longleftrightarrow> rest = [])"
  using assms
proof (induction ms arbitrary: did w)
  case (Cons m ms)
  show ?case
  proof (cases "mg_version m \<in> applied")
    case True
    then show ?thesis using Cons by simp
  next
    case False
    obtain r w1 where a: "ms_apply store m w = (r, w1)" by fastforce
    have n: "no_loss w1" using keepsD[OF store_keeps(3) a Cons.prems(2)] .
    show ?thesis
    proof (cases r)
      case (Inl x)
      then have "w_tables w1 = w_tables w" using apply_err a Cons.prems(2) by blast
      then show ?thesis using Cons.prems(1) False a Inl
        by (intro exI[of _ "[]"] exI[of _ "filter (\<lambda>m. mg_version m \<notin> applied) (m # ms)"]) auto
    next
      case (Inr u)
      have "up_loop (ms_apply store) applied ms (did @ [m]) w1 = ((out, e), w')"
        using Cons.prems(1) False a Inr by simp
      from Cons.IH[OF this n] obtain more rest where
        "out = (did @ [m]) @ more" "filter (\<lambda>m. mg_version m \<notin> applied) ms = more @ rest"
        "effects more (w_tables w1) = Some (w_tables w')" "e = None \<longleftrightarrow> rest = []" by blast
      moreover have "effect m (w_tables w) = Some (w_tables w1)" using apply_ok[of m w u w1] a Inr by simp
      ultimately show ?thesis using False
        by (intro exI[of _ "m # more"] exI[of _ rest]) simp
    qed
  qed
qed simp

lemma up_prefix:
  assumes "Up store ms w = ((did, e), w')" and "no_loss w"
  shows "\<exists>rest. filter (\<lambda>m. mg_version m \<notin> recorded (w_tables w)) ms = did @ rest
    \<and> effects did (w_tables w) = Some (w_tables w') \<and> (e = None \<longrightarrow> rest = [])"
proof -
  obtain r1 w1 where 1: "ms_ensure store w = (r1, w1)" by fastforce
  obtain r2 w2 where 2: "ms_applied_versions store w1 = (r2, w2)" by fastforce
  have t: "w_tables w1 = w_tables w" "w_tables w2 = w_tables w"
    using ensure_reads[of w] applied_reads[of w1] 1 2 by simp_all
  have n: "no_loss w2" using keepsD[OF store_keeps(2) 2 keepsD[OF store_keeps(1) 1 assms(2)]] .
  show ?thesis
  proof (cases "\<exists>u vs. r1 = Inr u \<and> r2 = Inr vs")
    case True
    then obtain u vs where r: "r1 = Inr u" "r2 = Inr vs" by blast
    have "up_loop (ms_apply store) vs ms [] w2 = ((did, e), w')"
      using assms(1) 1 2 r by (simp add: Up_def)
    from up_loop_prefix[OF this n] show ?thesis using applied_ok[of w1 vs w2] 2 r t by auto
  next
    case False
    then show ?thesis using assms(1) 1 2 t by (auto simp: Up_def split: sum.splits)
  qed
qed

end

section \<open>The SQL store keeps the contract\<close>

definition migrate_effect :: "(string \<Rightarrow> tables \<Rightarrow> err + tables) \<Rightarrow> migration \<Rightarrow> tables \<Rightarrow> tables option" where
  "migrate_effect exec m t = (case exec (mg_sql m) t of Inl e \<Rightarrow> None
     | Inr t1 \<Rightarrow> (case insert_version m t1 of Inl e \<Rightarrow> None | Inr (u, t2) \<Rightarrow> Some t2))"

definition recorded_versions :: "tables \<Rightarrow> int set" where
  "recorded_versions t = fst ` set (t_migrations t)"

lemma sql_apply_ok:
  assumes "sql_apply exec m w = (Inr u, w')"
  shows "migrate_effect exec m (w_tables w) = Some (w_tables w')"
proof -
  let ?run = "\<lambda>t. case exec (mg_sql m) t of Inl e \<Rightarrow> Inl e | Inr t' \<Rightarrow> Inr ((), t')"
  let ?b = "bindp (stmt ?run) (\<lambda>_. bindp (stmt (insert_version m)) (\<lambda>_. retp (Commit ())))"
  have "commits ?b" by (intro inv_intros)
  then obtain w1 w2 where w: "w_tables w1 = w_tables w" "?b w1 = (Inr (Commit u), w2)" "w_tables w' = w_tables w2"
    using assms unfolding sql_apply_def by (elim tx_commit)
  obtain x wa where 1: "stmt ?run w1 = (Inr x, wa)" and b: "bindp (stmt (insert_version m)) (\<lambda>_. retp (Commit ())) wa = (Inr (Commit u), w2)"
    using w(2) unfolding bindp_Inr by blast
  obtain y where 2: "stmt (insert_version m) wa = (Inr y, w2)"
    using b unfolding bindp_Inr by (auto simp: retp_def)
  show ?thesis using stmt_Inr[OF 1] stmt_Inr[OF 2] w(1,3)
    by (auto simp: migrate_effect_def split: sum.splits)
qed

interpretation sql_migrations: migration_steps "sql_migration_store exec" "migrate_effect exec" recorded_versions
  for exec
proof unfold_locales
  fix w show "w_tables (snd (ms_ensure (sql_migration_store exec) w)) = w_tables w"
    using stmt_cases_tables[of "\<lambda>t. Inr ((), t)" w] by (auto simp: sql_migration_store_def sql_ensure_def)
  show "w_tables (snd (ms_applied_versions (sql_migration_store exec) w)) = w_tables w"
    by (simp add: sql_migration_store_def sql_applied_versions_def)
next
  fix w vs w' assume "ms_applied_versions (sql_migration_store exec) w = (Inr vs, w')"
  then show "vs = recorded_versions (w_tables w)"
    by (auto simp: sql_migration_store_def sql_applied_versions_def recorded_versions_def dest!: query_Inr)
next
  fix m w u w' assume "ms_apply (sql_migration_store exec) m w = (Inr u, w')"
  then show "migrate_effect exec m (w_tables w) = Some (w_tables w')"
    by (simp add: sql_migration_store_def sql_apply_ok)
next
  fix m w e w' assume "ms_apply (sql_migration_store exec) m w = (Inl e, w')" "no_loss w"
  then show "w_tables w' = w_tables w"
    unfolding sql_migration_store_def migration_store.select_convs sql_apply_def
    by (rule tx_Inl_no_loss) (intro inv_intros)
qed (auto simp: sql_migration_store_def sql_ensure_def sql_applied_versions_def sql_apply_def intro!: inv_intros)

section \<open>What loading and running promise\<close>

text \<open>A migration is what its file says.\<close>

definition from_entry :: "dir_entry \<Rightarrow> migration \<Rightarrow> bool" where
  "from_entry entry m = (\<not> de_is_dir entry \<and> mg_path m = de_name entry
     \<and> (\<exists>ds. match_migration_file (de_name entry) = Some (ds, mg_name m) \<and> atoi ds = Some (mg_version m))
     \<and> (\<exists>content. de_content entry = Inr content \<and> mg_sql m = trim_space content \<and> mg_sql m \<noteq> []))"

lemma load_entries_spec:
  assumes "load_entries es seen acc = Inr ms"
    and "distinct (map mg_version acc)" and "mg_version ` set acc \<subseteq> dom seen"
    and "\<forall>m \<in> set acc. \<exists>x \<in> X. from_entry x m" and "set es \<subseteq> X"
  shows "distinct (map mg_version ms) \<and> (\<forall>m \<in> set ms. \<exists>x \<in> X. from_entry x m)"
  using assms
proof (induction es arbitrary: seen acc)
  case (Cons entry es)
  show ?case
  proof (cases "de_is_dir entry \<or> match_migration_file (de_name entry) = None")
    case True
    then have "load_entries es seen acc = Inr ms" using Cons.prems(1) by (auto split: if_splits)
    from Cons.IH[OF this Cons.prems(2-4)] show ?thesis using Cons.prems(5) by simp
  next
    case False
    then obtain ds name where m: "match_migration_file (de_name entry) = Some (ds, name)" by auto
    obtain v content where v: "atoi ds = Some v" "seen v = None" "de_content entry = Inr content" "trim_space content \<noteq> []"
      and l: "load_entries es (seen(v \<mapsto> de_name entry))
        (acc @ [\<lparr>mg_version = v, mg_name = name, mg_path = de_name entry, mg_sql = trim_space content\<rparr>]) = Inr ms"
      using Cons.prems(1) False m by (auto simp: Let_def split: option.splits sum.splits if_splits)
    have "from_entry entry \<lparr>mg_version = v, mg_name = name, mg_path = de_name entry, mg_sql = trim_space content\<rparr>"
      using False m v by (simp add: from_entry_def)
    moreover have "v \<notin> mg_version ` set acc" using Cons.prems(3) v(2) by auto
    ultimately show ?thesis
      using Cons.prems(2-5) by (intro Cons.IH[OF l]) auto
  qed
qed simp

lemma LoadMigrations_spec:
  assumes "LoadMigrations (Inr entries) = Inr ms"
  shows "sorted_wrt (<) (map mg_version ms) \<and> (\<forall>m \<in> set ms. \<exists>x \<in> set entries. from_entry x m)"
proof -
  obtain ms0 where l: "load_entries entries Map.empty [] = Inr ms0" and ms: "ms = sort_key mg_version ms0"
    using assms by (auto simp: LoadMigrations_def rbind_eq_Inr)
  have d: "distinct (map mg_version ms0)" "\<forall>m \<in> set ms0. \<exists>x \<in> set entries. from_entry x m"
    using load_entries_spec[OF l, of "set entries"] by simp_all
  have "distinct (map mg_version ms)" using d(1) ms
    by (simp add: distinct_map)
  moreover have "sorted (map mg_version ms)" using ms by simp
  ultimately have "sorted_wrt (<) (map mg_version ms)" by (simp add: strict_sorted_iff)
  then show ?thesis using d(2) ms by simp
qed

text \<open>Migrations and their records, one after the other.\<close>

fun apply_migrations :: "(string \<Rightarrow> tables \<Rightarrow> err + tables) \<Rightarrow> migration list \<Rightarrow> tables \<Rightarrow> tables option" where
  "apply_migrations exec [] t = Some t"
| "apply_migrations exec (m # ms) t = (case migrate_effect exec m t of None \<Rightarrow> None
     | Some t' \<Rightarrow> apply_migrations exec ms t')"

lemma effects_apply: "sql_migrations.effects exec ms t = apply_migrations exec ms t"
  by (induction ms arbitrary: t) (auto split: option.split)

lemma apply_recorded:
  assumes "apply_migrations exec ms t = Some t'"
    and "\<And>sql t t'. exec sql t = Inr t' \<Longrightarrow> t_migrations t' = t_migrations t"
  shows "t_migrations t' = t_migrations t @ map (\<lambda>m. (mg_version m, mg_name m)) ms"
  using assms(1)
proof (induction ms arbitrary: t)
  case (Cons m ms)
  then obtain t2 where m: "migrate_effect exec m t = Some t2" and r: "apply_migrations exec ms t2 = Some t'"
    by (auto split: option.splits)
  obtain t1 where "exec (mg_sql m) t = Inr t1" "insert_version m t1 = Inr ((), t2)"
    using m by (auto simp: migrate_effect_def split: sum.splits)
  then show ?case using Cons.IH[OF r] assms(2)[of "mg_sql m" t t1]
    by (auto simp: insert_version_def split: if_splits)
qed simp

lemma up_loop_applied: "mg_version ` set ms \<subseteq> applied \<Longrightarrow> up_loop a applied ms acc w = ((acc, None), w)"
  by (induction ms) auto

lemma up_again:
  assumes "all_done w" and "mg_version ` set ms \<subseteq> recorded_versions (w_tables w)"
  shows "fst (Up (sql_migration_store exec) ms w) = ([], None)
    \<and> w_tables (snd (Up (sql_migration_store exec) ms w)) = w_tables w"
proof -
  obtain w1 where e: "sql_ensure w = (Inr (), w1)" "all_done w1" "w_tables w1 = w_tables w"
  proof -
    obtain r v where v: "take_reply w = (r, v)" by fastforce
    then have "r = Done" "all_done v" "w_tables v = w_tables w"
      using assms(1) take_reply_all_done take_reply_tables by blast+
    then show thesis using v that[of "v\<lparr>w_tables := w_tables v\<rparr>"] by (simp add: sql_ensure_def stmt_def)
  qed
  obtain w2 where a: "sql_applied_versions w1 = (Inr (recorded_versions (w_tables w)), w2)" "w_tables w2 = w_tables w"
  proof -
    obtain r v where v: "take_reply w1 = (r, v)" by fastforce
    then have "r = Done" "w_tables v = w_tables w" using e take_reply_all_done take_reply_tables by metis+
    then show thesis using v that[of v] by (simp add: sql_applied_versions_def query_def recorded_versions_def)
  qed
  show ?thesis using e a assms(2) by (simp add: Up_def sql_migration_store_def up_loop_applied)
qed

text \<open>C16. Migrations run once each, in order, from their files: the loaded list has strictly rising
  versions and every entry is what its file says; \<open>Up\<close> applies a prefix of those not yet
  recorded, each as a whole with its record, stops at the first error with nothing of the failed
  one applied, and after a complete run a second \<open>Up\<close> does nothing. (Migration files do not
  touch the table of versions, and no reply of the database is lost.)\<close>

theorem migrate_applies_pending:
  assumes "LoadMigrations (Inr entries) = Inr ms"
    and "Up (sql_migration_store exec) ms w = ((did, e), w')" and "no_loss w"
    and "\<And>sql t t'. exec sql t = Inr t' \<Longrightarrow> t_migrations t' = t_migrations t"
  shows "sorted_wrt (<) (map mg_version ms) \<and> (\<forall>m \<in> set ms. \<exists>x \<in> set entries. from_entry x m)
    \<and> (\<exists>rest. filter (\<lambda>m. mg_version m \<notin> recorded_versions (w_tables w)) ms = did @ rest
        \<and> (e = None \<longrightarrow> rest = []))
    \<and> apply_migrations exec did (w_tables w) = Some (w_tables w')
    \<and> t_migrations (w_tables w') = t_migrations (w_tables w) @ map (\<lambda>m. (mg_version m, mg_name m)) did
    \<and> (e = None \<longrightarrow> (\<forall>w2. all_done w2 \<and> w_tables w2 = w_tables w' \<longrightarrow>
          fst (Up (sql_migration_store exec) ms w2) = ([], None)
          \<and> w_tables (snd (Up (sql_migration_store exec) ms w2)) = w_tables w'))"
proof -
  obtain rest where p: "filter (\<lambda>m. mg_version m \<notin> recorded_versions (w_tables w)) ms = did @ rest"
      "apply_migrations exec did (w_tables w) = Some (w_tables w')" "e = None \<longrightarrow> rest = []"
    using sql_migrations.up_prefix[OF assms(2,3)] unfolding effects_apply by blast
  have r: "t_migrations (w_tables w') = t_migrations (w_tables w) @ map (\<lambda>m. (mg_version m, mg_name m)) did"
    by (rule apply_recorded[OF p(2) assms(4)])
  have "mg_version ` set ms \<subseteq> recorded_versions (w_tables w')" if "e = None"
  proof
    fix v assume "v \<in> mg_version ` set ms"
    then obtain m where m: "m \<in> set ms" "v = mg_version m" by auto
    show "v \<in> recorded_versions (w_tables w')"
    proof (cases "v \<in> recorded_versions (w_tables w)")
      case False
      have "m \<in> set (filter (\<lambda>m. mg_version m \<notin> recorded_versions (w_tables w)) ms)" using m False by simp
      then have "m \<in> set did" using p that by simp
      then show ?thesis using r m by (force simp: recorded_versions_def image_iff)
    qed (use r in \<open>auto simp: recorded_versions_def\<close>)
  qed
  then show ?thesis using p r LoadMigrations_spec[OF assms(1)] up_again by auto
qed

definition demo_entries :: "dir_entry list" where
  "demo_entries = [\<lparr>de_name = ''README'', de_is_dir = False, de_content = Inr []\<rparr>,
     \<lparr>de_name = ''2_b.sql'', de_is_dir = False, de_content = Inr ''B''\<rparr>,
     \<lparr>de_name = ''001_a.sql'', de_is_dir = False, de_content = Inr ''A''\<rparr>]"

definition demo_migrations :: "migration list" where
  "demo_migrations = [\<lparr>mg_version = 1, mg_name = ''a'', mg_path = ''001_a.sql'', mg_sql = ''A''\<rparr>,
     \<lparr>mg_version = 2, mg_name = ''b'', mg_path = ''2_b.sql'', mg_sql = ''B''\<rparr>]"

definition migrated_world :: "(int \<times> string) list \<Rightarrow> world" where
  "migrated_world vs = \<lparr>w_tables = empty_tables\<lparr>t_migrations := vs\<rparr>, w_replies = []\<rparr>"

lemma demo_loads: "LoadMigrations (Inr demo_entries) = Inr demo_migrations"
proof -
  have "trim_space ''A'' = ''A''" "trim_space ''B'' = ''B''" by (rule trim_space_plain; simp add: plain_def)+
  then show ?thesis
    by (simp add: LoadMigrations_def demo_entries_def demo_migrations_def match_migration_file_def Let_def
        is_digit_char_def name_char_def has_suffix_def atoi_def)
qed

lemma demo_up:
  "Up (sql_migration_store (\<lambda>sql t. Inr t)) demo_migrations (migrated_world [(1, ''a'')]) =
     ((drop 1 demo_migrations, None), migrated_world [(1, ''a''), (2, ''b'')])"
  by (simp add: Up_def sql_migration_store_def sql_ensure_def sql_applied_versions_def sql_apply_def stmt_def query_def
      take_reply_def migrated_world_def demo_migrations_def tx_def bindp_def insert_version_def retp_def)

theorem migrate_applies_pending_witness:
  "\<exists>did. did = drop 1 demo_migrations
     \<and> t_migrations (w_tables (migrated_world [(1, ''a''), (2, ''b'')])) = [(1, ''a'')] @ map (\<lambda>m. (mg_version m, mg_name m)) did"
proof -
  have n: "no_loss (migrated_world [(1, ''a'')])" by (simp add: no_loss_def migrated_world_def)
  have t: "t_migrations (w_tables (migrated_world vs)) = vs" for vs by (simp add: migrated_world_def)
  show ?thesis using migrate_applies_pending[OF demo_loads demo_up n] unfolding t by simp
qed

end
