(* ===== verification/Flags.thy ===== *)
theory Flags
  imports Errors
begin

text \<open>
  The standard library's command line and text scanning as the panel's commands use them:
  \<open>flag.FlagSet.Parse\<close>, \<open>bufio.Scanner\<close> over lines, \<open>strings.Fields\<close>, \<open>strings.Trim\<close> and
  \<open>strings.Join\<close>.
\<close>

section \<open>Text\<close>

fun join :: "string \<Rightarrow> string list \<Rightarrow> string" where
  "join sep [] = []"
| "join sep [s] = s"
| "join sep (s # t # ss) = s @ sep @ join sep (t # ss)"

text \<open>\<open>strings.Trim\<close> and \<open>strings.TrimRight\<close> with a set of ASCII characters.\<close>

definition trim_right_set :: "string \<Rightarrow> string \<Rightarrow> string" where
  "trim_right_set s cutset = rev (dropWhile (\<lambda>c. c \<in> set cutset) (rev s))"

definition trim_set :: "string \<Rightarrow> string \<Rightarrow> string" where
  "trim_set s cutset = trim_right_set (dropWhile (\<lambda>c. c \<in> set cutset) s) cutset"

text \<open>\<open>bufio.ScanLines\<close> through a default \<open>bufio.Scanner\<close>: the lines before the first one that
  does not fit its buffer, and whether there is one.\<close>

definition max_scan_line :: nat where "max_scan_line = 65535"

definition drop_cr :: "string \<Rightarrow> string" where
  "drop_cr s = (if s \<noteq> [] \<and> last s = CHR 0x0D then butlast s else s)"

definition scan_lines :: "string \<Rightarrow> string list \<times> bool" where
  "scan_lines s =
     (let ls = split_on CHR 0x0A s; ls = (if last ls = [] then butlast ls else ls)
      in (map drop_cr (takeWhile (\<lambda>l. length l \<le> max_scan_line) ls),
          list_ex (\<lambda>l. \<not> length l \<le> max_scan_line) ls))"

definition ErrTooLong :: err where "ErrTooLong = Plain ''bufio.Scanner: token too long''"

text \<open>\<open>strings.Fields\<close>: bytes up to the next white space, and on.\<close>

fun take_field :: "string \<Rightarrow> string \<times> string" where
  "take_field [] = ([], [])"
| "take_field (c # s) = (case strip_one space_seqs (c # s) of
     Some t \<Rightarrow> ([], c # s)
   | None \<Rightarrow> (case take_field s of (f, r) \<Rightarrow> (c # f, r)))"

lemma take_field_shorter: "length (snd (take_field s)) \<le> length s"
  by (induction s) (auto split: option.split prod.splits)

lemma take_field_progress:
  "strip_one space_seqs (c # s) = None \<Longrightarrow> length (snd (take_field (c # s))) < length (c # s)"
  using take_field_shorter[of s] by (auto split: prod.split)

lemma length_trim_left: "length (trim_left s) \<le> length s"
  unfolding trim_left_def using strip_suffix[of s space_seqs] by (metis length_append le_add2)

lemma trim_left_none: "strip_one space_seqs (trim_left s) = None"
  by (simp add: trim_left_def strip_done)

function split_fields :: "string \<Rightarrow> string list" where
  "split_fields s = (case trim_left s of
     [] \<Rightarrow> []
   | c # t \<Rightarrow> fst (take_field (c # t)) # split_fields (snd (take_field (c # t))))"
  by pat_completeness auto
termination
proof (relation "measure length")
  fix s c t assume e: "trim_left s = c # t"
  then have "length (snd (take_field (c # t))) < length (c # t)"
    using take_field_progress trim_left_none[of s] by simp
  then show "(snd (take_field (c # t)), s) \<in> measure length" using length_trim_left[of s] e by simp
qed simp

declare split_fields.simps [simp del]

section \<open>Flags\<close>

datatype flag_value = FString string | FBool bool

type_synonym flag_set = "string \<rightharpoonup> flag_value"

definition ErrHelp :: err where "ErrHelp = Plain ''flag: help requested''"

definition parse_bool :: "string \<Rightarrow> bool option" where
  "parse_bool s =
     (if s \<in> {''1'', ''t'', ''T'', ''true'', ''TRUE'', ''True''} then Some True
      else if s \<in> {''0'', ''f'', ''F'', ''false'', ''FALSE'', ''False''} then Some False else None)"

text \<open>\<open>-name\<close>, \<open>--name\<close> and \<open>-name=value\<close>: the text after the dashes, \<open>None\<close> for an argument that
  ends the flags.\<close>

definition flag_text :: "string \<Rightarrow> string option" where
  "flag_text s = (case s of
     CHR ''-'' # CHR ''-'' # t \<Rightarrow> if t = [] then None else Some t
   | CHR ''-'' # t \<Rightarrow> if t = [] then None else Some t
   | _ \<Rightarrow> None)"

text \<open>The name and the value given with \<open>=\<close>, which cannot come first.\<close>

definition flag_name_value :: "string \<Rightarrow> string \<times> string option" where
  "flag_name_value t = (case t of [] \<Rightarrow> ([], None)
     | c # cs \<Rightarrow> (case cut CHR ''='' cs of None \<Rightarrow> (t, None) | Some (n, v) \<Rightarrow> (c # n, Some v)))"

fun parse_flags :: "flag_set \<Rightarrow> string list \<Rightarrow> err + flag_set \<times> string list" where
  "parse_flags fs [] = Inr (fs, [])"
| "parse_flags fs (s # args) = (case flag_text s of
     None \<Rightarrow> Inr (fs, if s = ''--'' then args else s # args)
   | Some t \<Rightarrow>
       if t = [] \<or> hd t = CHR ''-'' \<or> hd t = CHR ''='' then Inl (Plain (''bad flag syntax: '' @ s))
       else (case flag_name_value t of (name, given) \<Rightarrow>
         (case fs name of
            None \<Rightarrow> if name = ''help'' \<or> name = ''h'' then Inl ErrHelp
                    else Inl (Plain (''flag provided but not defined: -'' @ name))
          | Some (FBool b) \<Rightarrow> (case given of
                None \<Rightarrow> parse_flags (fs(name \<mapsto> FBool True)) args
              | Some v \<Rightarrow> (case parse_bool v of
                    None \<Rightarrow> Inl (Plain (''invalid boolean value \"'' @ v @ ''\" for -'' @ name @ '': parse error''))
                  | Some x \<Rightarrow> parse_flags (fs(name \<mapsto> FBool x)) args))
          | Some (FString d) \<Rightarrow> (case given of
                Some v \<Rightarrow> parse_flags (fs(name \<mapsto> FString v)) args
              | None \<Rightarrow> (case args of
                    [] \<Rightarrow> Inl (Plain (''flag needs an argument: -'' @ name))
                  | v # rest \<Rightarrow> parse_flags (fs(name \<mapsto> FString v)) rest)))))"

definition flag_string :: "flag_set \<Rightarrow> string \<Rightarrow> string" where
  "flag_string fs name = (case fs name of Some (FString s) \<Rightarrow> s | _ \<Rightarrow> [])"

definition flag_bool :: "flag_set \<Rightarrow> string \<Rightarrow> bool" where
  "flag_bool fs name = (case fs name of Some (FBool b) \<Rightarrow> b | _ \<Rightarrow> False)"

end
