(* ===== verification/Config.thy ===== *)
theory Config
  imports Flags
begin

text \<open>
  \<open>internal/config\<close>: the configuration of the panel and of the agent from the environment,
  and \<open>internal/osdetect\<close>: \<open>/etc/os-release\<close> and the supported systems.
\<close>

section \<open>Configuration\<close>

record panel_config =
  pc_http_addr :: string
  pc_agent_socket_path :: string
  pc_database_url :: string
  pc_migrations_dir :: string
  pc_environment :: string
  pc_log_level :: string
  pc_secure_cookies :: bool

record agent_config =
  ac_socket_path :: string
  ac_environment :: string
  ac_log_level :: string

definition env_value :: "(string \<Rightarrow> string) \<Rightarrow> string \<Rightarrow> string \<Rightarrow> string" where
  "env_value getenv key fallback =
     (let v = trim_space (getenv key) in if v \<noteq> [] then v else fallback)"

definition boolValue :: "(rune \<Rightarrow> rune) \<Rightarrow> (string \<Rightarrow> string) \<Rightarrow> string \<Rightarrow> bool \<Rightarrow> bool" where
  "boolValue ul getenv key fallback =
     (let raw = trim_space (getenv key) in
      if raw = [] then fallback
      else (let v = to_lower ul raw in
        if v \<in> {''1'', ''true'', ''yes'', ''on''} then True
        else if v \<in> {''0'', ''false'', ''no'', ''off''} then False
        else fallback))"

definition loadPanel :: "(rune \<Rightarrow> rune) \<Rightarrow> (string \<Rightarrow> string) \<Rightarrow> err + panel_config" where
  "loadPanel ul getenv =
     (let cfg = \<lparr>pc_http_addr = env_value getenv ''MOTEKAR_PANEL_ADDR'' '':8080'',
        pc_agent_socket_path = env_value getenv ''MOTEKAR_AGENT_SOCKET'' ''.cache/motekar-agent.sock'',
        pc_database_url = trim_space (getenv ''MOTEKAR_DATABASE_URL''),
        pc_migrations_dir = trim_space (getenv ''MOTEKAR_MIGRATIONS_DIR''),
        pc_environment = env_value getenv ''MOTEKAR_ENV'' ''development'',
        pc_log_level = env_value getenv ''MOTEKAR_LOG_LEVEL'' ''info'',
        pc_secure_cookies = boolValue ul getenv ''MOTEKAR_SECURE_COOKIES'' False\<rparr> in
      if pc_http_addr cfg = [] then Inl (Plain ''MOTEKAR_PANEL_ADDR cannot be empty'') else Inr cfg)"

definition loadAgent :: "(string \<Rightarrow> string) \<Rightarrow> err + agent_config" where
  "loadAgent getenv =
     (if trim_space (getenv ''MOTEKAR_AGENT_ADDR'') \<noteq> []
      then Inl (Plain ''MOTEKAR_AGENT_ADDR is no longer supported; use MOTEKAR_AGENT_SOCKET'')
      else (let cfg = \<lparr>ac_socket_path = env_value getenv ''MOTEKAR_AGENT_SOCKET'' ''.cache/motekar-agent.sock'',
              ac_environment = env_value getenv ''MOTEKAR_ENV'' ''development'',
              ac_log_level = env_value getenv ''MOTEKAR_LOG_LEVEL'' ''info''\<rparr> in
            if ac_socket_path cfg = [] then Inl (Plain ''MOTEKAR_AGENT_SOCKET cannot be empty'') else Inr cfg))"

text \<open>The two emptiness tests are never taken: every value with a default is non-empty.\<close>

lemma env_value_nonempty: "fallback \<noteq> [] \<Longrightarrow> env_value getenv key fallback \<noteq> []"
  by (simp add: env_value_def Let_def)

lemma loadPanel_total: "\<exists>cfg. loadPanel ul getenv = Inr cfg \<and> pc_http_addr cfg \<noteq> [] \<and> pc_agent_socket_path cfg \<noteq> []"
  by (simp add: loadPanel_def Let_def env_value_nonempty)

section \<open>The operating system\<close>

record os_release =
  os_id :: string
  os_version_id :: string
  os_name :: string

record support_status =
  ss_supported :: bool
  ss_reason :: string

definition cleanValue :: "string \<Rightarrow> string" where
  "cleanValue value = trim_set (trim_set (trim_space value) [CHR 0x22]) [CHR 0x27]"

definition read_value :: "(string \<rightharpoonup> string) \<Rightarrow> string \<Rightarrow> string" where
  "read_value m k = (case m k of None \<Rightarrow> [] | Some v \<Rightarrow> v)"

fun release_lines :: "string list \<Rightarrow> (string \<rightharpoonup> string) \<Rightarrow> (string \<rightharpoonup> string)" where
  "release_lines [] values = values"
| "release_lines (l # ls) values =
     (let line = trim_space l in
      if line = [] \<or> has_prefix line ''#'' then release_lines ls values
      else (case cut CHR ''='' line of
          None \<Rightarrow> release_lines ls values
        | Some (key, value) \<Rightarrow> release_lines ls (values(key \<mapsto> cleanValue value))))"

definition ParseOSRelease :: "string \<Rightarrow> err + os_release" where
  "ParseOSRelease text = (case scan_lines text of (ls, too_long) \<Rightarrow>
     (let values = release_lines ls Map.empty in
      if too_long then Inl ErrTooLong
      else Inr \<lparr>os_id = read_value values ''ID'', os_version_id = read_value values ''VERSION_ID'',
             os_name = read_value values ''PRETTY_NAME''\<rparr>))"

definition CheckSupport :: "os_release \<Rightarrow> support_status" where
  "CheckSupport release =
     (if os_id release = ''ubuntu'' \<and> os_version_id release = ''24.04''
      then \<lparr>ss_supported = True, ss_reason = ''Ubuntu 24.04 LTS is supported''\<rparr>
      else if os_id release = ''debian''
      then \<lparr>ss_supported = False, ss_reason = ''Debian support is planned after Ubuntu 24.04 LTS''\<rparr>
      else if os_id release = ''rocky'' \<or> os_id release = ''almalinux'' \<or> os_id release = ''rhel''
      then \<lparr>ss_supported = False,
             ss_reason = ''RHEL-compatible support is planned after the OS adapter layer is stable''\<rparr>
      else if os_id release = [] \<or> os_version_id release = []
      then \<lparr>ss_supported = False, ss_reason = ''could not determine OS ID and VERSION_ID''\<rparr>
      else \<lparr>ss_supported = False, ss_reason = os_id release @ '' '' @ os_version_id release
             @ '' is not supported by the first installer release''\<rparr>)"

end
