(* ===== verification/Preflight.thy ===== *)
theory Preflight
  imports Config Password "HOL-Library.Word"
begin

text \<open>
  \<open>internal/preflight\<close>: the checks before an installation (\<open>preflight.go\<close>) and the facts they
  look at (\<open>collector.go\<close>). What the collector finds on the host is an argument.
\<close>

section \<open>Minimums\<close>

definition MinimumCPUCores :: int where "MinimumCPUCores = 1"
definition MinimumSingleUserRAMMB :: int where "MinimumSingleUserRAMMB = 960"
definition MinimumSharedHostingRAMMB :: int where "MinimumSharedHostingRAMMB = 2048"
definition MinimumSingleUserDiskGB :: int where "MinimumSingleUserDiskGB = 15"
definition MinimumSharedHostingDiskGB :: int where "MinimumSharedHostingDiskGB = 20"
definition MinimumSingleUserSwapMB :: int where "MinimumSingleUserSwapMB = 1024"
definition MinimumSharedHostingSwapMB :: int where "MinimumSharedHostingSwapMB = 1024"
definition RecommendedSingleUserRAMMB :: int where "RecommendedSingleUserRAMMB = 2048"
definition RecommendedSingleUserSwapMB :: int where "RecommendedSingleUserSwapMB = 2048"

lemmas minimum_defs = MinimumCPUCores_def MinimumSingleUserRAMMB_def MinimumSharedHostingRAMMB_def
  MinimumSingleUserDiskGB_def MinimumSharedHostingDiskGB_def MinimumSingleUserSwapMB_def
  MinimumSharedHostingSwapMB_def RecommendedSingleUserRAMMB_def RecommendedSingleUserSwapMB_def

section \<open>Options\<close>

text \<open>Both option types are strings in the code; a value outside the constants is possible.\<close>

definition ProfileSharedHosting :: string where "ProfileSharedHosting = ''shared-hosting''"
definition ProfileSingleUser :: string where "ProfileSingleUser = ''single-user''"
definition PostgreSQLPlanExternal :: string where "PostgreSQLPlanExternal = ''external''"
definition PostgreSQLPlanInstall :: string where "PostgreSQLPlanInstall = ''install''"
definition PostgreSQLPlanUnknown :: string where "PostgreSQLPlanUnknown = ''''"

lemmas option_defs = ProfileSharedHosting_def ProfileSingleUser_def PostgreSQLPlanExternal_def
  PostgreSQLPlanInstall_def PostgreSQLPlanUnknown_def

definition ParseInstallProfile :: "(rune \<Rightarrow> rune) \<Rightarrow> string \<Rightarrow> err + string" where
  "ParseInstallProfile ul value =
     (let v = to_lower ul (trim_space value) in
      if v = [] \<or> v = ProfileSharedHosting then Inr ProfileSharedHosting
      else if v = ProfileSingleUser then Inr ProfileSingleUser
      else Inl ErrUnsupportedProfile)"

definition ParsePostgreSQLPlan :: "(rune \<Rightarrow> rune) \<Rightarrow> string \<Rightarrow> err + string" where
  "ParsePostgreSQLPlan ul value =
     (let v = to_lower ul (trim_space value) in
      if v = PostgreSQLPlanInstall then Inr PostgreSQLPlanInstall
      else if v = PostgreSQLPlanExternal then Inr PostgreSQLPlanExternal
      else Inl ErrUnsupportedPostgreSQLPlan)"

section \<open>Facts and checks\<close>

text \<open>\<open>PortsAvailable\<close> is a map: an association list with distinct keys.\<close>

record system_facts =
  sf_os :: os_release
  sf_profile :: string
  sf_cpu_cores :: int
  sf_ram_mb :: int
  sf_disk_gb :: int
  sf_swap_mb :: int
  sf_is_root :: bool
  sf_has_systemd :: bool
  sf_ports_available :: "(int \<times> bool) list"
  sf_postgresql_plan :: string

datatype check_status = CheckPass | CheckFail | CheckWarn

definition check_status_text :: "check_status \<Rightarrow> string" where
  "check_status_text s = (case s of CheckPass \<Rightarrow> ''PASS'' | CheckFail \<Rightarrow> ''FAIL'' | CheckWarn \<Rightarrow> ''WARN'')"

record check =
  ck_name :: string
  ck_status :: check_status
  ck_message :: string
  ck_blocking :: bool

type_synonym report = "check list"

definition BlockingFailures :: "report \<Rightarrow> check list" where
  "BlockingFailures r = filter (\<lambda>c. ck_blocking c \<and> ck_status c = CheckFail) r"

definition Ready :: "report \<Rightarrow> bool" where
  "Ready r = (BlockingFailures r = [])"

definition status_of :: "bool \<Rightarrow> check_status" where
  "status_of passed = (if passed then CheckPass else CheckFail)"

definition minimum :: "string \<Rightarrow> int \<Rightarrow> int \<Rightarrow> string \<Rightarrow> check" where
  "minimum name got want unit_name = \<lparr>ck_name = name, ck_status = status_of (got \<ge> want),
     ck_message = ''minimum '' @ name @ '' is '' @ itoa want @ '' '' @ unit_name @ ''; detected '' @ itoa got,
     ck_blocking = True\<rparr>"

definition boolean :: "string \<Rightarrow> bool \<Rightarrow> string \<Rightarrow> check" where
  "boolean name passed message = \<lparr>ck_name = name, ck_status = status_of passed, ck_message = message,
     ck_blocking = True\<rparr>"

definition normalizeProfile :: "string \<Rightarrow> string" where
  "normalizeProfile profile = (if profile = ProfileSingleUser then ProfileSingleUser else ProfileSharedHosting)"

definition single_user_warning :: "string \<Rightarrow> int \<Rightarrow> int \<Rightarrow> string \<Rightarrow> int \<Rightarrow> check" where
  "single_user_warning name least recommended unit_name got = \<lparr>ck_name = name, ck_status = CheckWarn,
     ck_message = ''single-user profile can run with '' @ itoa least @ '' '' @ unit_name @ '', but ''
       @ itoa recommended @ '' '' @ unit_name @ '' is recommended; detected '' @ itoa got,
     ck_blocking = False\<rparr>"

definition checkMemory :: "string \<Rightarrow> int \<Rightarrow> check" where
  "checkMemory profile got =
     (if profile = ProfileSingleUser
      then if got < MinimumSingleUserRAMMB then minimum ''memory'' got MinimumSingleUserRAMMB ''MB RAM''
           else if got < RecommendedSingleUserRAMMB
           then single_user_warning ''memory'' MinimumSingleUserRAMMB RecommendedSingleUserRAMMB ''MB RAM'' got
           else minimum ''memory'' got MinimumSingleUserRAMMB ''MB RAM''
      else minimum ''memory'' got MinimumSharedHostingRAMMB ''MB RAM'')"

definition checkDisk :: "string \<Rightarrow> int \<Rightarrow> check" where
  "checkDisk profile got =
     (if profile = ProfileSingleUser then minimum ''disk'' got MinimumSingleUserDiskGB ''GB disk''
      else minimum ''disk'' got MinimumSharedHostingDiskGB ''GB disk'')"

definition checkSwap :: "string \<Rightarrow> int \<Rightarrow> check" where
  "checkSwap profile got =
     (if profile = ProfileSingleUser
      then if got < MinimumSingleUserSwapMB then minimum ''swap'' got MinimumSingleUserSwapMB ''MB swap''
           else if got < RecommendedSingleUserSwapMB
           then single_user_warning ''swap'' MinimumSingleUserSwapMB RecommendedSingleUserSwapMB ''MB swap'' got
           else minimum ''swap'' got MinimumSingleUserSwapMB ''MB swap''
      else minimum ''swap'' got MinimumSharedHostingSwapMB ''MB swap'')"

definition checkOS :: "os_release \<Rightarrow> check" where
  "checkOS release = (let support = CheckSupport release in
     \<lparr>ck_name = ''os'', ck_status = status_of (ss_supported support), ck_message = ss_reason support,
      ck_blocking = True\<rparr>)"

definition checkPostgreSQLPlan :: "string \<Rightarrow> check" where
  "checkPostgreSQLPlan plan =
     (if plan = PostgreSQLPlanExternal \<or> plan = PostgreSQLPlanInstall
      then \<lparr>ck_name = ''postgresql'', ck_status = CheckPass, ck_message = ''PostgreSQL plan: '' @ plan, ck_blocking = True\<rparr>
      else \<lparr>ck_name = ''postgresql'', ck_status = CheckFail,
             ck_message = ''PostgreSQL must be installed by Motekar Panel or provided externally'', ck_blocking = True\<rparr>)"

definition sortedPorts :: "(int \<times> bool) list \<Rightarrow> int list" where
  "sortedPorts ports = sort (map fst ports)"

definition checkPort :: "(int \<times> bool) list \<Rightarrow> int \<Rightarrow> check" where
  "checkPort ports port = \<lparr>ck_name = ''port:'' @ itoa port, ck_status = status_of (map_of ports port = Some True),
     ck_message = ''port '' @ itoa port @ '' must be available'', ck_blocking = True\<rparr>"

definition Run :: "system_facts \<Rightarrow> report" where
  "Run facts =
     (let profile = normalizeProfile (sf_profile facts) in
      [checkOS (sf_os facts),
       minimum ''cpu'' (sf_cpu_cores facts) MinimumCPUCores ''core(s)'',
       checkMemory profile (sf_ram_mb facts),
       checkDisk profile (sf_disk_gb facts),
       checkSwap profile (sf_swap_mb facts),
       boolean ''root'' (sf_is_root facts) ''installer must run as root'',
       boolean ''systemd'' (sf_has_systemd facts) ''systemd is required'',
       checkPostgreSQLPlan (sf_postgresql_plan facts)]
      @ map (checkPort (sf_ports_available facts)) (sortedPorts (sf_ports_available facts)))"

section \<open>The collector\<close>

text \<open>What the collector finds on the host: files as \<open>os.Open\<close> and reading them return them, the
  answer of \<open>statfs\<close> (free blocks and block size), and the ports another process holds.\<close>

record host_facts =
  hf_files :: "string \<Rightarrow> err + string"
  hf_is_dir :: "string \<Rightarrow> bool"
  hf_statfs :: "string \<Rightarrow> err + 64 word \<times> 64 word"
  hf_num_cpu :: int
  hf_euid :: int
  hf_can_listen :: "int \<Rightarrow> bool"

record collector_options =
  co_profile :: string
  co_postgresql_plan :: string
  co_disk_path :: string
  co_ports :: "int list option"

record collector =
  cl_os_release_path :: string
  cl_meminfo_path :: string
  cl_systemd_path :: string
  cl_proc1_comm_path :: string
  cl_disk_path :: string

definition NewCollector :: collector where
  "NewCollector = \<lparr>cl_os_release_path = ''/etc/os-release'', cl_meminfo_path = ''/proc/meminfo'',
     cl_systemd_path = ''/run/systemd/system'', cl_proc1_comm_path = ''/proc/1/comm'', cl_disk_path = ''/''\<rparr>"

definition readOSRelease :: "collector \<Rightarrow> host_facts \<Rightarrow> err + os_release" where
  "readOSRelease c h = rbind (hf_files h (cl_os_release_path c)) ParseOSRelease"

definition kbToMB :: "int \<Rightarrow> int" where
  "kbToMB kb = (if kb \<le> 0 then 0 else kb div 1024)"

text \<open>The error of \<open>strconv.Atoi\<close>: the text is out of range exactly when it is a number.\<close>

definition atoi_error :: "string \<Rightarrow> err" where
  "atoi_error s = Plain (''strconv.Atoi: parsing \"'' @ s @ ''\": ''
     @ (if digits_value 0 (if s \<noteq> [] \<and> (hd s = CHR ''-'' \<or> hd s = CHR ''+'') then tl s else s) = None
           \<or> s = [] \<or> s = ''-'' \<or> s = ''+''
        then ''invalid syntax'' else ''value out of range''))"

fun meminfo_lines :: "string list \<Rightarrow> (string \<rightharpoonup> int) \<Rightarrow> err + (string \<rightharpoonup> int)" where
  "meminfo_lines [] values = Inr values"
| "meminfo_lines (l # ls) values = (case cut CHR '':'' l of
     None \<Rightarrow> meminfo_lines ls values
   | Some (key, rest) \<Rightarrow> (case split_fields rest of
       [] \<Rightarrow> meminfo_lines ls values
     | f # _ \<Rightarrow> (case atoi f of
         None \<Rightarrow> Inl (Wrapped (''parse '' @ key @ '': '') (atoi_error f) [])
       | Some kb \<Rightarrow> meminfo_lines ls (values(key \<mapsto> kb)))))"

definition int_value :: "(string \<rightharpoonup> int) \<Rightarrow> string \<Rightarrow> int" where
  "int_value m k = (case m k of None \<Rightarrow> 0 | Some v \<Rightarrow> v)"

text \<open>RAM and swap in megabytes.\<close>

definition parseMeminfo :: "string \<Rightarrow> err + int \<times> int" where
  "parseMeminfo text = (case scan_lines text of (ls, too_long) \<Rightarrow>
     rbind (meminfo_lines ls Map.empty) (\<lambda>values.
       if too_long then Inl ErrTooLong
       else Inr (kbToMB (int_value values ''MemTotal''), kbToMB (int_value values ''SwapTotal''))))"

definition readMemory :: "collector \<Rightarrow> host_facts \<Rightarrow> err + int \<times> int" where
  "readMemory c h = rbind (hf_files h (cl_meminfo_path c)) parseMeminfo"

text \<open>\<open>bytes := uint64(stat.Bavail) * uint64(stat.Bsize)\<close> wraps at 64 bits.\<close>

definition availableDiskGB :: "host_facts \<Rightarrow> string \<Rightarrow> err + int" where
  "availableDiskGB h path = rbind (hf_statfs h path) (\<lambda>(bavail, bsize).
     let bytes = bavail * bsize in Inr (uint (bytes div 1024 div 1024 div 1024)))"

definition hasSystemd :: "string \<Rightarrow> string \<Rightarrow> host_facts \<Rightarrow> bool" where
  "hasSystemd systemd_path comm_path h =
     (if hf_is_dir h systemd_path then True
      else (case hf_files h comm_path of Inl e \<Rightarrow> False
            | Inr content \<Rightarrow> trim_space content = ''systemd''))"

fun availablePorts :: "host_facts \<Rightarrow> int list \<Rightarrow> (int \<times> bool) list \<Rightarrow> (int \<times> bool) list" where
  "availablePorts h [] out = out"
| "availablePorts h (p # ps) out =
     availablePorts h ps (filter (\<lambda>x. fst x \<noteq> p) out @ [(p, hf_can_listen h p)])"

fun firstNonEmpty :: "string list \<Rightarrow> string" where
  "firstNonEmpty [] = []"
| "firstNonEmpty (v # vs) = (if trim_space v \<noteq> [] then v else firstNonEmpty vs)"

definition Collect :: "(rune \<Rightarrow> rune) \<Rightarrow> collector \<Rightarrow> host_facts \<Rightarrow> collector_options \<Rightarrow> err + system_facts" where
  "Collect ul c h options =
     rbind (ParseInstallProfile ul (co_profile options)) (\<lambda>profile.
     let postgresPlan = (if co_postgresql_plan options = PostgreSQLPlanUnknown
           then PostgreSQLPlanInstall else co_postgresql_plan options) in
     rbind (readOSRelease c h) (\<lambda>release.
     rbind (readMemory c h) (\<lambda>(ram, swap).
     let diskPath = firstNonEmpty [co_disk_path options, cl_disk_path c, ''/''] in
     rbind (availableDiskGB h diskPath) (\<lambda>diskGB.
     let ports = (case co_ports options of None \<Rightarrow> [80, 443] | Some ps \<Rightarrow> ps) in
     Inr \<lparr>sf_os = release, sf_profile = profile, sf_cpu_cores = hf_num_cpu h, sf_ram_mb = ram,
       sf_disk_gb = diskGB, sf_swap_mb = swap, sf_is_root = (hf_euid h = 0),
       sf_has_systemd = hasSystemd (cl_systemd_path c) (cl_proc1_comm_path c) h,
       sf_ports_available = availablePorts h ports [], sf_postgresql_plan = postgresPlan\<rparr>))))"

section \<open>What a report means\<close>

text \<open>The requirements an installation must meet, by the name of their check.\<close>

definition requirements :: "system_facts \<Rightarrow> (string \<times> bool) list" where
  "requirements f =
     (let single = (sf_profile f = ''single-user'') in
      [(''os'', os_id (sf_os f) = ''ubuntu'' \<and> os_version_id (sf_os f) = ''24.04''),
       (''cpu'', 1 \<le> sf_cpu_cores f),
       (''memory'', (if single then 960 else 2048) \<le> sf_ram_mb f),
       (''disk'', (if single then 15 else 20) \<le> sf_disk_gb f),
       (''swap'', 1024 \<le> sf_swap_mb f),
       (''root'', sf_is_root f),
       (''systemd'', sf_has_systemd f),
       (''postgresql'', sf_postgresql_plan f = ''external'' \<or> sf_postgresql_plan f = ''install'')]
      @ map (\<lambda>p. (''port:'' @ itoa p, map_of (sf_ports_available f) p = Some True))
          (sort (map fst (sf_ports_available f))))"

text \<open>A check stands for a requirement: it carries its name and fails, blocking, exactly when the
  requirement is not met.\<close>

definition stands_for :: "check \<Rightarrow> string \<times> bool \<Rightarrow> bool" where
  "stands_for c r = (ck_name c = fst r \<and> (ck_blocking c \<and> ck_status c = CheckFail \<longleftrightarrow> \<not> snd r))"

lemma stands_for_failures:
  assumes "list_all2 stands_for cs rs"
  shows "map ck_name (BlockingFailures cs) = map fst (filter (\<lambda>r. \<not> snd r) rs) \<and> (Ready cs \<longleftrightarrow> list_all snd rs)"
  using assms by (induction rule: list_all2_induct) (auto simp: BlockingFailures_def Ready_def stands_for_def)

lemma stands_for_simps:
  "stands_for (minimum n got want u) (m, b) \<longleftrightarrow> m = n \<and> b = (want \<le> got)"
  "stands_for (boolean n v msg) (m, b) \<longleftrightarrow> m = n \<and> b = v"
  "stands_for (single_user_warning n l r u got) (m, b) \<longleftrightarrow> m = n \<and> b"
  "stands_for (checkOS release) (m, b) \<longleftrightarrow> m = ''os'' \<and> b = ss_supported (CheckSupport release)"
  "stands_for (checkPostgreSQLPlan plan) (m, b) \<longleftrightarrow> m = ''postgresql'' \<and> b = (plan = ''external'' \<or> plan = ''install'')"
  "stands_for (checkPort ports p) (m, b) \<longleftrightarrow> m = ''port:'' @ itoa p \<and> b = (map_of ports p = Some True)"
  by (auto simp: stands_for_def minimum_def boolean_def single_user_warning_def checkOS_def checkPostgreSQLPlan_def
      checkPort_def status_of_def Let_def option_defs)

lemma supported_iff: "ss_supported (CheckSupport r) \<longleftrightarrow> os_id r = ''ubuntu'' \<and> os_version_id r = ''24.04''"
  by (auto simp: CheckSupport_def)

lemma run_stands_for: "list_all2 stands_for (Run f) (requirements f)"
proof -
  have "list_all2 stands_for (map (checkPort ports) ps) (map (\<lambda>p. (''port:'' @ itoa p, map_of ports p = Some True)) ps)" for ports ps
    by (induction ps) (auto simp: stands_for_simps)
  then show ?thesis
    by (simp add: Run_def requirements_def Let_def sortedPorts_def list_all2_append stands_for_simps supported_iff
        checkMemory_def checkDisk_def checkSwap_def normalizeProfile_def minimum_defs option_defs)
qed

text \<open>C38. A preflight report is right: it has one check for every requirement, in their order, under
  its name, and that check fails and blocks exactly when the host does not meet the requirement (the
  single-user profile lowers memory and disk). So the checks that block are, by name and in order, the requirements the host does not meet, and the report is ready
  exactly when every requirement is met.\<close>

theorem preflight_reports_requirements:
  "map ck_name (Run facts) = map fst (requirements facts)
   \<and> map (\<lambda>c. ck_blocking c \<and> ck_status c = CheckFail) (Run facts) = map (\<lambda>r. \<not> snd r) (requirements facts)
   \<and> map ck_name (BlockingFailures (Run facts)) = map fst (filter (\<lambda>r. \<not> snd r) (requirements facts))
   \<and> (Ready (Run facts) \<longleftrightarrow> list_all snd (requirements facts))"
proof -
  have "map ck_name cs = map fst rs
      \<and> map (\<lambda>c. ck_blocking c \<and> ck_status c = CheckFail) cs = map (\<lambda>r. \<not> snd r) rs" if "list_all2 stands_for cs rs" for cs rs
    using that by (induction rule: list_all2_induct) (auto simp: stands_for_def)
  then show ?thesis using stands_for_failures[OF run_stands_for] run_stands_for by blast
qed

end
