(* ===== verification/GoPath.thy ===== *)
theory GoPath
  imports Flags
begin

text \<open>
  \<open>path/filepath\<close> on Unix and the escapes of \<open>net/url\<close>, as the installer, the collector and the
  agent's socket code use them. A path is cleaned lexically: its elements go through a stack,
  kept with the innermost element first.
\<close>

section \<open>\<open>path/filepath\<close>\<close>

definition is_abs :: "string \<Rightarrow> bool" where
  "is_abs p = has_prefix p ''/''"

text \<open>One element of a path: empty and \<open>.\<close> vanish, \<open>..\<close> takes back an element, stays at the
  start of a relative path and vanishes at the root.\<close>

fun clean_elements :: "bool \<Rightarrow> string list \<Rightarrow> string list \<Rightarrow> string list" where
  "clean_elements rooted stack [] = rev stack"
| "clean_elements rooted stack (e # es) =
     (if e = [] \<or> e = ''.'' then clean_elements rooted stack es
      else if e = ''..'' then
        (case stack of
           [] \<Rightarrow> clean_elements rooted (if rooted then [] else [''..'']) es
         | inner # below \<Rightarrow> clean_elements rooted (if inner = ''..'' then ''..'' # stack else below) es)
      else clean_elements rooted (e # stack) es)"

definition path_elements :: "string \<Rightarrow> string list" where
  "path_elements p = clean_elements (is_abs p) [] (split_on CHR ''/'' p)"

definition path_clean :: "string \<Rightarrow> string" where
  "path_clean p =
     (let s = (if is_abs p then ''/'' else []) @ join ''/'' (path_elements p)
      in if s = [] then ''.'' else s)"

fun path_join :: "string list \<Rightarrow> string" where
  "path_join [] = []"
| "path_join (e # es) = (if e = [] then path_join es else path_clean (join ''/'' (e # es)))"

text \<open>What stands before the last separator, with it, and after it.\<close>

definition after_slash :: "string \<Rightarrow> string" where
  "after_slash p = rev (takeWhile (\<lambda>c. c \<noteq> CHR ''/'') (rev p))"

definition upto_slash :: "string \<Rightarrow> string" where
  "upto_slash p = rev (dropWhile (\<lambda>c. c \<noteq> CHR ''/'') (rev p))"

definition path_dir :: "string \<Rightarrow> string" where
  "path_dir p = path_clean (upto_slash p)"

definition path_base :: "string \<Rightarrow> string" where
  "path_base p =
     (if p = [] then ''.''
      else (let s = after_slash (rev (dropWhile (\<lambda>c. c = CHR ''/'') (rev p)))
            in if s = [] then ''/'' else s))"

lemma path_parts: "upto_slash p @ after_slash p = p"
  unfolding upto_slash_def after_slash_def
  by (metis rev_append rev_rev_ident takeWhile_dropWhile_id)

section \<open>\<open>net/url\<close>\<close>

definition upper_hex :: "nat \<Rightarrow> char" where
  "upper_hex n = (if n < 10 then char_of (48 + n) else char_of (55 + n))"

definition percent :: "char \<Rightarrow> string" where
  "percent c = ''%'' @ [upper_hex (byte c div 16), upper_hex (byte c mod 16)]"

definition unreserved :: "char \<Rightarrow> bool" where
  "unreserved c = (48 \<le> byte c \<and> byte c \<le> 57 \<or> 65 \<le> byte c \<and> byte c \<le> 90 \<or> 97 \<le> byte c \<and> byte c \<le> 122
     \<or> c \<in> set ''-_.~'')"

definition PathEscape :: "string \<Rightarrow> string" where
  "PathEscape s = concat (map (\<lambda>c. if unreserved c \<or> c \<in> set ''$&+:=@'' then [c] else percent c) s)"

definition QueryEscape :: "string \<Rightarrow> string" where
  "QueryEscape s = concat (map (\<lambda>c. if unreserved c then [c] else if c = CHR '' '' then ''+'' else percent c) s)"

lemma query_escape_plain: "(\<And>c. c \<in> set s \<Longrightarrow> unreserved c) \<Longrightarrow> QueryEscape s = s"
  by (induction s) (auto simp: QueryEscape_def)

end
