(* ===== verification/Installer.thy ===== *)
theory Installer
  imports Settings Migrations Bootstrap Preflight GoPath
begin

text \<open>
  \<open>internal/installer\<close>: the plan, applying it with any executor, and the executor that installs
  the panel on a host. The host is a state of the commands it ran, the files it was given and the
  database behind the opened handle; the answers of commands and file system calls come from lists
  in that state, so every failure is a branch. What time, randomness, PostgreSQL and the mail
  parser deliver is the record \<open>install_env\<close>.
\<close>

section \<open>The plan (\<open>plan.go\<close>)\<close>

record action =
  ac_id :: string
  ac_description :: string
  ac_changes_host :: bool

record plan =
  pl_profile :: string
  pl_web_server :: web_server
  pl_postgresql_plan :: string
  pl_preflight :: report
  pl_actions :: "action list"

record plan_input =
  pi_profile :: string
  pi_web_server :: string
  pi_postgresql_plan :: string
  pi_preflight :: report

definition plan_ready :: "plan \<Rightarrow> bool" where
  "plan_ready p = Ready (pl_preflight p)"

definition plannedActions :: "web_server \<Rightarrow> string \<Rightarrow> action list" where
  "plannedActions webServer postgresPlan =
     [\<lparr>ac_id = ''preflight.verify'',
       ac_description = ''Verify Ubuntu 24.04, resources, systemd, root access, and required ports'',
       ac_changes_host = False\<rparr>]
     @ (if postgresPlan = PostgreSQLPlanExternal
        then [\<lparr>ac_id = ''postgresql.external'',
               ac_description = ''Use operator-provided external PostgreSQL connection'',
               ac_changes_host = False\<rparr>]
        else [\<lparr>ac_id = ''postgresql.install'',
               ac_description = ''Install and tune local PostgreSQL for the selected profile'',
               ac_changes_host = True\<rparr>])
     @ [\<lparr>ac_id = ''webserver.install'',
         ac_description = ''Install and configure '' @ web_server_text webServer @ '' as the immutable server web server'',
         ac_changes_host = True\<rparr>,
        \<lparr>ac_id = ''database.migrate'',
         ac_description = ''Run Motekar Panel database migrations'',
         ac_changes_host = True\<rparr>,
        \<lparr>ac_id = ''settings.webserver'',
         ac_description = ''Persist immutable web server setting as '' @ web_server_text webServer,
         ac_changes_host = True\<rparr>,
        \<lparr>ac_id = ''systemd.services'',
         ac_description = ''Create and enable motekar-panel and motekar-agent systemd services'',
         ac_changes_host = True\<rparr>]"

definition BuildPlan :: "(rune \<Rightarrow> rune) \<Rightarrow> plan_input \<Rightarrow> err + plan" where
  "BuildPlan ul input =
     rbind (ParseInstallProfile ul (pi_profile input)) (\<lambda>profile.
     if pi_web_server input = [] then Inl ErrMissingWebServer
     else rbind (ParseWebServer ul (pi_web_server input)) (\<lambda>webServer.
     let postgresPlan = (if pi_postgresql_plan input = PostgreSQLPlanUnknown then PostgreSQLPlanInstall
                         else pi_postgresql_plan input) in
     Inr \<lparr>pl_profile = profile, pl_web_server = webServer, pl_postgresql_plan = postgresPlan,
          pl_preflight = pi_preflight input, pl_actions = plannedActions webServer postgresPlan\<rparr>))"

section \<open>Applying a plan (\<open>apply.go\<close>)\<close>

text \<open>An executor acts on a state of its own.\<close>

type_synonym 's executor = "action \<Rightarrow> 's \<Rightarrow> (err + unit) \<times> 's"

fun apply_actions :: "'s executor \<Rightarrow> action list \<Rightarrow> action list \<Rightarrow> 's \<Rightarrow> (err + action list) \<times> 's" where
  "apply_actions execute [] skipped s = (Inr skipped, s)"
| "apply_actions execute (a # rest) skipped s =
     (case execute a s of
        (Inr u, s') \<Rightarrow> apply_actions execute rest skipped s'
      | (Inl e, s') \<Rightarrow>
          if err_is e ErrUnsupportedAction then apply_actions execute rest (skipped @ [a]) s'
          else (Inl (Wrapped (''apply '' @ ac_id a @ '': '') e []), s'))"

text \<open>The result is the list of skipped actions.\<close>

definition Apply :: "plan \<Rightarrow> 's executor \<Rightarrow> 's \<Rightarrow> (err + action list) \<times> 's" where
  "Apply p execute s =
     (if \<not> plan_ready p then (Inl ErrPlanNotReady, s) else apply_actions execute (pl_actions p) [] s)"

text \<open>
  An executor that appends to a log. Whatever happens, an action appends a beginning of what it
  emits; it has appended all of it when it succeeds or is reported as unsupported. Then applying
  a plan appends a beginning of what its actions emit in their order, and all of it on success.
\<close>

locale logged_executor =
  fixes execute :: "'s executor" and log :: "'s \<Rightarrow> 'c list" and emits :: "action \<Rightarrow> 'c list"
  assumes begins: "execute a s = (r, s') \<Longrightarrow> \<exists>k. log s' = log s @ take k (emits a)"
    and whole: "execute a s = (r, s') \<Longrightarrow> is_ok r \<or> (\<exists>e. r = Inl e \<and> err_is e ErrUnsupportedAction) \<Longrightarrow>
      log s' = log s @ emits a"
begin

lemma apply_actions_log:
  assumes "apply_actions execute as skipped s = (r, s')"
  shows "(\<exists>k. log s' = log s @ take k (concat (map emits as)))
    \<and> (is_ok r \<longrightarrow> log s' = log s @ concat (map emits as))"
  using assms
proof (induction as arbitrary: skipped s)
  case Nil
  then show ?case by auto
next
  case (Cons a as)
  obtain r1 s1 where e: "execute a s = (r1, s1)" by fastforce
  show ?case
  proof (cases "is_ok r1 \<or> (\<exists>e. r1 = Inl e \<and> err_is e ErrUnsupportedAction)")
    case True
    then obtain sk where "apply_actions execute as sk s1 = (r, s')"
      using Cons.prems e by (cases r1) auto
    from Cons.IH[OF this] obtain k where k: "log s' = log s1 @ take k (concat (map emits as))"
        and ok: "is_ok r \<longrightarrow> log s' = log s1 @ concat (map emits as)"
      by blast
    have w: "log s1 = log s @ emits a" using whole[OF e True] .
    have "log s' = log s @ take (length (emits a) + k) (concat (map emits (a # as)))" using k w by simp
    moreover have "is_ok r \<longrightarrow> log s' = log s @ concat (map emits (a # as))" using ok w by simp
    ultimately show ?thesis by blast
  next
    case False
    then have r: "s' = s1" "\<not> is_ok r" using Cons.prems e by (cases r1; auto)+
    obtain k where k: "log s1 = log s @ take k (emits a)" using begins[OF e] by blast
    have "take k (emits a) = take (min k (length (emits a))) (concat (map emits (a # as)))"
      by (cases "k \<le> length (emits a)") (simp_all add: min_def)
    then show ?thesis using k r by metis
  qed
qed

lemma apply_log:
  assumes "Apply p execute s = (r, s')"
  shows "(\<exists>k. log s' = log s @ take k (concat (map emits (pl_actions p))))
    \<and> (is_ok r \<longrightarrow> log s' = log s @ concat (map emits (pl_actions p)))"
proof (cases "plan_ready p")
  case True
  then show ?thesis using assms apply_actions_log by (simp add: Apply_def)
next
  case False
  then have "log s' = log s @ take 0 (concat (map emits (pl_actions p)))" "\<not> is_ok r"
    using assms by (auto simp: Apply_def)
  then show ?thesis by blast
qed

end

section \<open>The executor of one action (\<open>web_server_executor.go\<close>)\<close>

definition unsupported :: "action \<Rightarrow> err" where
  "unsupported a = Wrapped [] ErrUnsupportedAction ('': '' @ ac_id a)"

definition web_server_execute :: "(string \<Rightarrow> web_server prog) \<Rightarrow> string \<Rightarrow> world executor" where
  "web_server_execute select value a =
     (if ac_id a \<noteq> ''settings.webserver'' then failp (unsupported a)
      else bindp (select value) (\<lambda>_. retp ()))"

interpretation web_server_only: logged_executor "web_server_execute sel v" "\<lambda>w. []" "\<lambda>a. []"
  for sel v
  by unfold_locales auto

end
