(* ===== verification/AgentActions.thy ===== *)
theory AgentActions
  imports Json Password
begin

text \<open>
  \<open>internal/agent/actions.go\<close>: which Go types may be the payload of an action, how a payload is
  decoded into one, and the registry. Types are finite trees, so a type that contains itself through
  a pointer is not one of them. A decoded value is a value of the type; a float keeps its literal,
  and which literals fit a float is the parameter \<open>float_ok\<close>. The \<open>,string\<close> option of a tag and types
  with their own \<open>UnmarshalJSON\<close> are not modelled: no payload of the program has one.
\<close>

section \<open>Go types as \<open>reflect\<close> shows them\<close>

text \<open>A field: its name, whether it is exported (\<open>PkgPath\<close> is empty), whether it is embedded, the
  value of its \<open>json\<close> tag, and its type. \<open>KInt\<close> has a width and whether it is signed.\<close>

datatype go_type =
    KBool | KInt nat bool | KFloat nat | KComplex | KString
  | KPtr go_type | KStruct "go_field list" | KSlice go_type | KArray nat go_type
  | KMap go_type go_type | KInterface | KFunc | KChan go_type | KUnsafePointer
and go_field = Field string bool bool string go_type

fun field_type :: "go_field \<Rightarrow> go_type" where "field_type (Field n e a g t) = t"

text \<open>The name of a field by its tag, as the registry reads it; the decoder of the model goes by the same
  name.\<close>

definition jsonFieldName :: "go_field \<Rightarrow> string" where
  "jsonFieldName f = (case f of Field n e a g t \<Rightarrow>
     (let name = takeWhile (\<lambda>c. c \<noteq> CHR '','') g in
      if name = ''-'' then [] else if name = [] then n else name))"

fun pointee :: "go_type \<Rightarrow> go_type" where
  "pointee (KPtr t) = pointee t"
| "pointee t = t"

definition rejectsRawCommandField :: "(rune \<Rightarrow> rune) \<Rightarrow> go_field \<Rightarrow> string \<Rightarrow> bool" where
  "rejectsRawCommandField ul f jsonName = (case f of Field n e a g t \<Rightarrow>
     (let semanticName = to_lower ul (n @ '' '' @ jsonName) in
      if contains semanticName ''shell'' \<or> contains semanticName ''script'' then True
      else if \<not> contains semanticName ''command'' then False
      else pointee t \<noteq> KSlice KString))"

fun validatePayloadType :: "(rune \<Rightarrow> rune) \<Rightarrow> go_type \<Rightarrow> bool \<Rightarrow> bool"
  and validate_fields :: "(rune \<Rightarrow> rune) \<Rightarrow> go_field list \<Rightarrow> string list \<Rightarrow> bool"
where
  "validatePayloadType ul (KPtr t) root = (\<not> root \<and> validatePayloadType ul t False)"
| "validatePayloadType ul (KStruct fs) root = validate_fields ul fs []"
| "validatePayloadType ul (KSlice t) root = (\<not> root \<and> t \<noteq> KInt 8 False \<and> validatePayloadType ul t False)"
| "validatePayloadType ul (KArray n t) root = (\<not> root \<and> t \<noteq> KInt 8 False \<and> validatePayloadType ul t False)"
| "validatePayloadType ul (KMap k v) root = False"
| "validatePayloadType ul KInterface root = False"
| "validatePayloadType ul KFunc root = False"
| "validatePayloadType ul (KChan t) root = False"
| "validatePayloadType ul KUnsafePointer root = False"
| "validatePayloadType ul KBool root = (\<not> root)"
| "validatePayloadType ul (KInt w s) root = (\<not> root)"
| "validatePayloadType ul (KFloat w) root = (\<not> root)"
| "validatePayloadType ul KComplex root = (\<not> root)"
| "validatePayloadType ul KString root = (\<not> root)"
| "validate_fields ul [] seen = True"
| "validate_fields ul (Field n e a g t # fs) seen =
     (e \<and> \<not> a \<and>
      (let name = jsonFieldName (Field n e a g t) in
       if name = [] then validate_fields ul fs seen
       else name \<notin> set seen \<and> \<not> rejectsRawCommandField ul (Field n e a g t) name
          \<and> validatePayloadType ul t False \<and> validate_fields ul fs (name # seen)))"

section \<open>The decoded payload\<close>

datatype go_value =
    VBool bool | VInt int | VFloat string | VComplex | VString string
  | VNil | VPtr go_value | VStruct "(string \<times> go_value) list" | VSlice "go_value list"
  | VArray "go_value list"

fun zero_value :: "go_type \<Rightarrow> go_value" and zero_fields :: "go_field list \<Rightarrow> (string \<times> go_value) list" where
  "zero_value KBool = VBool False"
| "zero_value (KInt w s) = VInt 0"
| "zero_value (KFloat w) = VFloat ''0''"
| "zero_value KComplex = VComplex"
| "zero_value KString = VString []"
| "zero_value (KStruct fs) = VStruct (zero_fields fs)"
| "zero_value (KArray n t) = VArray (replicate n (zero_value t))"
| "zero_value (KPtr t) = VNil"
| "zero_value (KSlice t) = VNil"
| "zero_value (KMap k v) = VNil"
| "zero_value KInterface = VNil"
| "zero_value KFunc = VNil"
| "zero_value (KChan t) = VNil"
| "zero_value KUnsafePointer = VNil"
| "zero_fields [] = []"
| "zero_fields (Field n e a g t # fs) = (n, zero_value t) # zero_fields fs"

text \<open>The keys of an object are unique at any depth.\<close>

fun json_unique :: "json \<Rightarrow> bool" where
  "json_unique (JObj kvs) = (distinct (map fst kvs) \<and> (\<forall>(k, v) \<in> set kvs. json_unique v))"
| "json_unique (JArr vs) = (\<forall>v \<in> set vs. json_unique v)"
| "json_unique v = True"

definition rejectDuplicateJSONKeys :: "string \<Rightarrow> bool" where
  "rejectDuplicateJSONKeys raw = (case parse_json raw of None \<Rightarrow> False | Some v \<Rightarrow> json_unique v)"

text \<open>\<open>validateJSONFieldNames\<close> (is the error nil?): every key of an object that stands for a struct
  is the JSON name of one of its fields.\<close>

fun validateJSONFieldNames :: "go_type \<Rightarrow> json \<Rightarrow> bool"
  and field_named :: "go_field list \<Rightarrow> string \<Rightarrow> json \<Rightarrow> bool"
where
  "validateJSONFieldNames (KPtr t) v = (v = JNull \<or> validateJSONFieldNames t v)"
| "validateJSONFieldNames (KStruct fs) v = (case v of
     JObj kvs \<Rightarrow> (\<forall>kv \<in> set kvs. field_named fs (fst kv) (snd kv)) | _ \<Rightarrow> False)"
| "validateJSONFieldNames (KSlice t) v = (case v of
     JNull \<Rightarrow> True | JArr vs \<Rightarrow> (\<forall>x \<in> set vs. validateJSONFieldNames t x) | _ \<Rightarrow> False)"
| "validateJSONFieldNames (KArray n t) v = (case v of
     JNull \<Rightarrow> True | JArr vs \<Rightarrow> (\<forall>x \<in> set vs. validateJSONFieldNames t x) | _ \<Rightarrow> False)"
| "validateJSONFieldNames t v = True"
| "field_named [] k v = False"
| "field_named (Field n e a g t # fs) k v =
     (if k \<in> jsonFieldName ` set fs then field_named fs k v
      else k \<noteq> [] \<and> jsonFieldName (Field n e a g t) = k \<and> validateJSONFieldNames t v)"

text \<open>\<open>decoder.Decode(&payload)\<close>. A null leaves the zero value; an integer needs an integer literal
  in range; what follows the last element of an array is skipped.\<close>

definition int_in_range :: "nat \<Rightarrow> bool \<Rightarrow> int \<Rightarrow> bool" where
  "int_in_range w sg i = (if sg then - (2 ^ (w - 1)) \<le> i \<and> i < 2 ^ (w - 1) else 0 \<le> i \<and> i < 2 ^ w)"

definition int_literal :: "bool \<Rightarrow> string \<Rightarrow> int option" where
  "int_literal sg n = (if sg then atoi n else if n = [] then None else map_option int (digits_value 0 n))"

fun decode_value :: "(nat \<Rightarrow> string \<Rightarrow> bool) \<Rightarrow> go_type \<Rightarrow> json \<Rightarrow> go_value option"
  and decode_fields :: "(nat \<Rightarrow> string \<Rightarrow> bool) \<Rightarrow> go_field list \<Rightarrow> (string \<times> json) list \<Rightarrow> (string \<times> go_value) list option"
where
  "decode_value fl KBool v = (case v of JNull \<Rightarrow> Some (VBool False) | JBool b \<Rightarrow> Some (VBool b) | _ \<Rightarrow> None)"
| "decode_value fl (KInt w s) v = (case v of JNull \<Rightarrow> Some (VInt 0)
     | JNum n \<Rightarrow> (case int_literal s n of Some i \<Rightarrow> if int_in_range w s i then Some (VInt i) else None | None \<Rightarrow> None)
     | _ \<Rightarrow> None)"
| "decode_value fl (KFloat w) v = (case v of JNull \<Rightarrow> Some (VFloat ''0'')
     | JNum n \<Rightarrow> if fl w n then Some (VFloat n) else None | _ \<Rightarrow> None)"
| "decode_value fl KString v = (case v of JNull \<Rightarrow> Some (VString []) | JStr x \<Rightarrow> Some (VString x) | _ \<Rightarrow> None)"
| "decode_value fl (KPtr t) v = (if v = JNull then Some VNil else map_option VPtr (decode_value fl t v))"
| "decode_value fl (KStruct fs) v = (case v of JNull \<Rightarrow> Some (VStruct (zero_fields fs))
     | JObj kvs \<Rightarrow> map_option VStruct (decode_fields fl fs kvs) | _ \<Rightarrow> None)"
| "decode_value fl (KSlice t) v = (case v of JNull \<Rightarrow> Some VNil
     | JArr vs \<Rightarrow> map_option VSlice (those (map (decode_value fl t) vs)) | _ \<Rightarrow> None)"
| "decode_value fl (KArray n t) v = (case v of JNull \<Rightarrow> Some (VArray (replicate n (zero_value t)))
     | JArr vs \<Rightarrow> map_option (\<lambda>xs. VArray (xs @ replicate (n - length xs) (zero_value t)))
                    (those (map (decode_value fl t) (take n vs)))
     | _ \<Rightarrow> None)"
| "decode_value fl t v = (if v = JNull then Some (zero_value t) else None)"
| "decode_fields fl [] kvs = Some []"
| "decode_fields fl (Field n e a g t # fs) kvs =
     (case (case map_of kvs (jsonFieldName (Field n e a g t)) of
              Some v \<Rightarrow> if jsonFieldName (Field n e a g t) = [] then Some (zero_value t) else decode_value fl t v
            | None \<Rightarrow> Some (zero_value t)) of
        None \<Rightarrow> None
      | Some x \<Rightarrow> map_option ((#) (n, x)) (decode_fields fl fs kvs))"

definition invalid_payload :: "string \<Rightarrow> err" where
  "invalid_payload what = Wrapped [] ErrInvalidPayload ('': '' @ what)"

text \<open>After the value the decoder is at the end of the input: \<open>rejectDuplicateJSONKeys\<close> has read
  exactly one value.\<close>

definition decodeActionPayload :: "(nat \<Rightarrow> string \<Rightarrow> bool) \<Rightarrow> go_type \<Rightarrow> string \<Rightarrow> err + go_value" where
  "decodeActionPayload fl t raw0 =
     (let raw = trim_space raw0 in
      if raw = [] \<or> raw = ''null'' \<or> hd raw \<noteq> CHR 0x7B
      then Inl (invalid_payload ''payload must be a non-null JSON object'')
      else if \<not> rejectDuplicateJSONKeys raw then Inl (invalid_payload ''payload contains ambiguous JSON'')
      else (case parse_json raw of
          None \<Rightarrow> Inl (invalid_payload ''payload must match the action schema'')
        | Some v \<Rightarrow>
            if \<not> validateJSONFieldNames t v then Inl (invalid_payload ''payload must match the action schema'')
            else (case decode_value fl t v of
                None \<Rightarrow> Inl (invalid_payload ''payload must match the action schema'')
              | Some x \<Rightarrow> Inr x)))"

section \<open>What the schema check guarantees\<close>

text \<open>The types that make up a type, as far as payload data reaches them, and the fields in them.\<close>

inductive component :: "go_type \<Rightarrow> go_type \<Rightarrow> bool" where
  itself: "component t t"
| pointed: "component t s \<Longrightarrow> component (KPtr t) s"
| sliced: "component t s \<Longrightarrow> component (KSlice t) s"
| in_array: "component t s \<Longrightarrow> component (KArray n t) s"
| in_field: "f \<in> set fs \<Longrightarrow> jsonFieldName f \<noteq> [] \<Longrightarrow> component (field_type f) s \<Longrightarrow> component (KStruct fs) s"

inductive_simps component_simps [simp]:
  "component KBool s" "component (KInt w b) s" "component (KFloat w) s" "component KComplex s" "component KString s"
  "component (KMap k v) s" "component KInterface s" "component KFunc s" "component (KChan t) s" "component KUnsafePointer s"
  "component (KPtr t) s" "component (KSlice t) s" "component (KArray n t) s"

inductive_cases component_structE: "component (KStruct fs) s"

definition opaque_type :: "go_type \<Rightarrow> bool" where
  "opaque_type t = (case t of KMap _ _ \<Rightarrow> True | KInterface \<Rightarrow> True | KFunc \<Rightarrow> True | KChan _ \<Rightarrow> True
     | KUnsafePointer \<Rightarrow> True | KSlice e \<Rightarrow> e = KInt 8 False | KArray n e \<Rightarrow> e = KInt 8 False | _ \<Rightarrow> False)"

definition plain_field :: "(rune \<Rightarrow> rune) \<Rightarrow> go_field \<Rightarrow> bool" where
  "plain_field ul f = (case f of Field n e a g t \<Rightarrow> e \<and> \<not> a \<and>
     (jsonFieldName f \<noteq> [] \<longrightarrow>
        (let s = to_lower ul (n @ '' '' @ jsonFieldName f) in
         \<not> contains s ''shell'' \<and> \<not> contains s ''script'' \<and> (contains s ''command'' \<longrightarrow> pointee t = KSlice KString))))"

lemma validated_fields:
  "validate_fields ul fs seen \<Longrightarrow> (\<forall>f \<in> set fs. plain_field ul f
      \<and> (jsonFieldName f \<noteq> [] \<longrightarrow> validatePayloadType ul (field_type f) False \<and> jsonFieldName f \<notin> set seen))
    \<and> distinct (filter (\<lambda>n. n \<noteq> []) (map jsonFieldName fs))"
proof (induction fs arbitrary: seen)
  case (Cons f fs)
  obtain n e a g t where f: "f = Field n e a g t" by (cases f)
  let ?name = "jsonFieldName f"
  show ?case
  proof (cases "?name = []")
    case True
    then show ?thesis using Cons f by (fastforce simp: plain_field_def Let_def)
  next
    case False
    have e: "e" "\<not> a" using Cons.prems f by simp_all
    have r: "validate_fields ul fs (?name # seen)" "?name \<notin> set seen" "\<not> rejectsRawCommandField ul f ?name"
        "validatePayloadType ul t False"
      using Cons.prems f False e by (simp_all add: Let_def)
    have "plain_field ul f" using r e f by (auto simp: plain_field_def rejectsRawCommandField_def Let_def split: if_splits)
    then show ?thesis using Cons.IH[OF r(1)] r f by auto
  qed
qed simp

lemma validated_component:
  "component t s \<Longrightarrow> validatePayloadType ul t root \<Longrightarrow> \<exists>b. validatePayloadType ul s b"
proof (induction arbitrary: root rule: component.induct)
  case (in_field f fs s)
  then show ?case using validated_fields[of ul fs "[]"] by auto
qed auto

definition safe_schema :: "(rune \<Rightarrow> rune) \<Rightarrow> go_type \<Rightarrow> bool" where
  "safe_schema ul t = ((\<exists>fs. t = KStruct fs)
     \<and> (\<forall>s. component t s \<longrightarrow> \<not> opaque_type s)
     \<and> (\<forall>fs. component t (KStruct fs) \<longrightarrow> distinct (filter (\<lambda>n. n \<noteq> []) (map jsonFieldName fs))
          \<and> (\<forall>f \<in> set fs. plain_field ul f)))"

lemma validated_schema:
  assumes "validatePayloadType ul t True"
  shows "safe_schema ul t"
proof -
  have "\<exists>fs. t = KStruct fs" using assms by (cases t) auto
  moreover have "\<not> opaque_type s" if "component t s" for s
    using validated_component[OF that assms] by (cases s) (auto simp: opaque_type_def)
  moreover have "distinct (filter (\<lambda>n. n \<noteq> []) (map jsonFieldName fs)) \<and> (\<forall>f \<in> set fs. plain_field ul f)"
    if "component t (KStruct fs)" for fs
    using validated_component[OF that assms] validated_fields[of ul fs "[]"] by auto
  ultimately show ?thesis by (simp add: safe_schema_def)
qed

section \<open>Decoded values are values of their type\<close>

fun has_type :: "(nat \<Rightarrow> string \<Rightarrow> bool) \<Rightarrow> go_type \<Rightarrow> go_value \<Rightarrow> bool"
  and has_fields :: "(nat \<Rightarrow> string \<Rightarrow> bool) \<Rightarrow> go_field list \<Rightarrow> (string \<times> go_value) list \<Rightarrow> bool"
where
  "has_type fl KBool v = (\<exists>b. v = VBool b)"
| "has_type fl (KInt w s) v = (\<exists>i. v = VInt i \<and> int_in_range w s i)"
| "has_type fl (KFloat w) v = (\<exists>n. v = VFloat n \<and> (n = ''0'' \<or> fl w n))"
| "has_type fl KComplex v = (v = VComplex)"
| "has_type fl KString v = (\<exists>s. v = VString s)"
| "has_type fl (KPtr t) v = (v = VNil \<or> (\<exists>x. v = VPtr x \<and> has_type fl t x))"
| "has_type fl (KStruct fs) v = (\<exists>xs. v = VStruct xs \<and> has_fields fl fs xs)"
| "has_type fl (KSlice t) v = (v = VNil \<or> (\<exists>xs. v = VSlice xs \<and> (\<forall>x \<in> set xs. has_type fl t x)))"
| "has_type fl (KArray n t) v = (\<exists>xs. v = VArray xs \<and> length xs = n \<and> (\<forall>x \<in> set xs. has_type fl t x))"
| "has_type fl t v = (v = VNil)"
| "has_fields fl [] xs = (xs = [])"
| "has_fields fl (Field n e a g t # fs) xs = (case xs of [] \<Rightarrow> False
     | (m, x) # rest \<Rightarrow> m = n \<and> has_type fl t x \<and> has_fields fl fs rest)"

lemma zero_in_range: "int_in_range w s 0"
  by (simp add: int_in_range_def)

lemma zero_typed: "has_type fl t (zero_value t)" "has_fields fl fs (zero_fields fs)"
  by (induction t and fs rule: zero_value_zero_fields.induct) (auto simp: zero_in_range)

lemma those_Some: "those xs = Some ys \<longleftrightarrow> xs = map Some ys"
proof (induction xs arbitrary: ys)
  case (Cons x xs)
  then show ?case by (cases ys) (auto split: option.splits)
qed auto

lemma those_each: "those (map f xs) = Some ys \<Longrightarrow> length ys = length xs \<and> (\<forall>y \<in> set ys. \<exists>x \<in> set xs. f x = Some y)"
proof -
  assume "those (map f xs) = Some ys"
  then have m: "map f xs = map Some ys" by (simp add: those_Some)
  have "\<exists>x \<in> set xs. f x = Some y" if "y \<in> set ys" for y
  proof -
    have "Some y \<in> set (map f xs)" using that unfolding m by simp
    then show ?thesis by auto
  qed
  then show ?thesis using arg_cong[OF m, of length] by simp
qed

lemma decode_typed:
  "decode_value fl t v = Some x \<Longrightarrow> has_type fl t x"
  "decode_fields fl fs kvs = Some xs \<Longrightarrow> has_fields fl fs xs"
proof (induction fl t v and fl fs kvs arbitrary: x and xs rule: decode_value_decode_fields.induct)
  case (7 fl t v)
  then show ?case by (fastforce split: json.splits dest: those_each)
next
  case (8 fl n t v)
  show ?case
  proof (cases v)
    case (JArr vs)
    then obtain ys where ys: "those (map (decode_value fl t) (take n vs)) = Some ys"
        and x: "x = VArray (ys @ replicate (n - length ys) (zero_value t))"
      using "8.prems" by auto
    have "length ys \<le> n" "\<forall>y \<in> set ys. has_type fl t y"
      using those_each[OF ys] "8.IH" JArr by (auto dest: in_set_takeD)
    then show ?thesis using x zero_typed(1) by auto
  qed (use "8.prems" zero_typed(1) in auto)
qed (auto simp: zero_typed zero_in_range split: json.splits option.splits if_splits)

text \<open>C10. An action's payload is data of a fixed shape. A type that \<open>DefineAction\<close> accepts is a
  struct in which, at any depth, there is no map, interface, function, channel or byte slice; its
  fields are exported, not embedded, with distinct JSON names, and none that a payload can set is
  named after a shell or a script, or after a command unless it is an argument list. Every payload
  that is decoded is one JSON object without a repeated key, and the result is a value of the type.\<close>

theorem accepted_payloads_typed:
  assumes "validatePayloadType ul t True" and "decodeActionPayload fl t raw = Inr x"
  shows "safe_schema ul t \<and> has_type fl t x
    \<and> (\<exists>kvs. parse_json (trim_space raw) = Some (JObj kvs) \<and> json_unique (JObj kvs)
         \<and> validateJSONFieldNames t (JObj kvs))"
proof -
  obtain fs where t: "t = KStruct fs" using validated_schema[OF assms(1)] by (auto simp: safe_schema_def)
  obtain v where v: "parse_json (trim_space raw) = Some v" "json_unique v" "validateJSONFieldNames t v"
      "decode_value fl t v = Some x"
    using assms(2)
    by (auto simp: decodeActionPayload_def rejectDuplicateJSONKeys_def Let_def split: if_splits option.splits)
  obtain kvs where "v = JObj kvs" using v(3) t by (cases v) auto
  then show ?thesis using validated_schema[OF assms(1)] decode_typed(1)[OF v(4)] v by blast
qed

definition demo_payload_type :: go_type where
  "demo_payload_type = KStruct [Field ''Name'' True False ''name,omitempty'' KString,
     Field ''Command'' True False ''command'' (KSlice KString), Field ''Retries'' True False [] (KInt 8 False)]"

text \<open>\<open>{"name":"a","command":["b"]}\<close>.\<close>

definition demo_payload :: string where
  "demo_payload = ''{'' @ [CHR 0x22] @ ''name'' @ [CHR 0x22] @ '':'' @ [CHR 0x22] @ ''a'' @ [CHR 0x22] @ '',''
     @ [CHR 0x22] @ ''command'' @ [CHR 0x22] @ '':['' @ [CHR 0x22] @ ''b'' @ [CHR 0x22] @ '']}''"

lemma demo_parsed: "trim_space demo_payload = demo_payload"
    "parse_json demo_payload = Some (JObj [(''name'', JStr ''a''), (''command'', JArr [JStr ''b''])])"
  by (rule trim_space_plain; simp add: plain_def demo_payload_def) (simp add: demo_payload_def json_eval)

lemma demo_decodes:
  "decodeActionPayload (\<lambda>w n. True) demo_payload_type demo_payload =
     Inr (VStruct [(''Name'', VString ''a''), (''Command'', VSlice [VString ''b'']), (''Retries'', VInt 0)])"
proof -
  have d: "demo_payload \<noteq> []" "demo_payload \<noteq> ''null''" "hd demo_payload = CHR 0x7B" by (simp_all add: demo_payload_def)
  show ?thesis unfolding decodeActionPayload_def rejectDuplicateJSONKeys_def demo_parsed Let_def
    by (simp add: d demo_payload_type_def jsonFieldName_def)
qed

lemma demo_type_valid: "validatePayloadType id demo_payload_type True"
  by (simp add: demo_payload_type_def jsonFieldName_def rejectsRawCommandField_def Let_def to_lower_ascii ascii_def lower_byte_def char_of_eq)

theorem accepted_payloads_typed_witness:
  "safe_schema id demo_payload_type
   \<and> has_type (\<lambda>w n. True) demo_payload_type
       (VStruct [(''Name'', VString ''a''), (''Command'', VSlice [VString ''b'']), (''Retries'', VInt 0)])"
  using accepted_payloads_typed[OF demo_type_valid demo_decodes] by blast

end
