(* ===== verification/JsonText.thy ===== *)
theory JsonText
  imports Json "HOL-Library.List_Lexorder" "HOL-Library.Char_ord"
begin

text \<open>
  \<open>json.Marshal\<close> of the values the panel encodes, and the round trip: what it writes for a value is
  read back as that value, with the keys of an object sorted and each string as valid UTF-8.
\<close>

section \<open>Writing\<close>

definition hexd :: "nat \<Rightarrow> char" where
  "hexd n = (if n < 10 then char_of (48 + n) else char_of (87 + n))"

text \<open>The bytes of a valid sequence are the encoding of its rune. Quotes, backslashes, control
  characters, the characters of HTML and the two line separators are escaped.\<close>

definition escape_rune :: "rune \<Rightarrow> string" where
  "escape_rune r =
     (if r = 34 \<or> r = 92 then [CHR 0x5C, char_of r]
      else if r = 8 then [CHR 0x5C, CHR ''b''] else if r = 12 then [CHR 0x5C, CHR ''f'']
      else if r = 10 then [CHR 0x5C, CHR ''n''] else if r = 13 then [CHR 0x5C, CHR ''r'']
      else if r = 9 then [CHR 0x5C, CHR ''t'']
      else if r < 32 \<or> r = 60 \<or> r = 62 \<or> r = 38
      then [CHR 0x5C, CHR ''u'', CHR ''0'', CHR ''0'', hexd (r div 16), hexd (r mod 16)]
      else if r = 8232 \<or> r = 8233 then CHR 0x5C # ''u202'' @ [hexd (r mod 16)]
      else encode_rune r)"

function escape :: "string \<Rightarrow> string" where
  "escape [] = []"
| "escape (c # s) =
     (case decode_rune (c # s) of (r, n) \<Rightarrow>
        (if r = rune_error \<and> n = 1 then CHR 0x5C # ''ufffd'' else escape_rune r) @ escape (drop (n - 1) s))"
  by pat_completeness auto
termination by (relation "measure length") auto

definition quoted :: "string \<Rightarrow> string" where
  "quoted s = CHR 0x22 # escape s @ [CHR 0x22]"

fun commas :: "string list \<Rightarrow> string" where
  "commas [] = []"
| "commas [s] = s"
| "commas (s # t # ss) = s @ '','' @ commas (t # ss)"

definition json_array :: "string list \<Rightarrow> string" where
  "json_array ss = ''['' @ commas ss @ '']''"

definition json_object :: "(string \<times> string) list \<Rightarrow> string" where
  "json_object ms = ''{'' @ commas (map (\<lambda>(k, s). quoted k @ '':'' @ s) ms) @ ''}''"

definition number_literal :: "string \<Rightarrow> bool" where
  "number_literal n = (scan_number n = Some (n, []))"

text \<open>The keys of a map are written in their order.\<close>

function json_text :: "json \<Rightarrow> string" where
  "json_text JNull = ''null''"
| "json_text (JBool b) = (if b then ''true'' else ''false'')"
| "json_text (JNum n) = n"
| "json_text (JStr s) = quoted s"
| "json_text (JArr vs) = json_array (map json_text vs)"
| "json_text (JObj kvs) = json_object (sort_key fst (map (\<lambda>kv. (fst kv, json_text (snd kv))) kvs))"
  by pat_completeness auto
termination
proof (relation "measure size", goal_cases)
  case (2 vs v)
  then show ?case using size_list_estimation'[of v vs "size v" size] by auto
next
  case (3 kvs kv)
  then have "snd kv \<in> snd ` set kvs" by simp
  then have "size (snd kv) \<le> size_list (size_prod (\<lambda>_. 0) size) kvs"
    using 3 by (intro size_list_estimation'[of kv]) (auto simp: size_prod_simp)
  then show ?case by simp
qed simp

section \<open>Reading it back: strings\<close>

lemma scan_high:
  "\<forall>c \<in> set p. 128 \<le> byte c \<Longrightarrow> scan_string (p @ t) = map_option (map_prod ((@) p) id) (scan_string t)"
proof (induction p)
  case Nil
  show ?case by (cases "scan_string t") auto
next
  case (Cons c p)
  then show ?case by (cases "scan_string t") auto
qed

lemma encode_high: "128 \<le> norm_rune r \<Longrightarrow> \<forall>c \<in> set (encode_rune r). 128 \<le> byte c"
proof -
  have "norm_rune r < 1114112" using valid_norm_rune[of r] by (simp add: valid_rune_def)
  then have "(240 + norm_rune r div 262144) mod 256 = 240 + norm_rune r div 262144" by simp
  then show "128 \<le> norm_rune r \<Longrightarrow> \<forall>c \<in> set (encode_rune r). 128 \<le> byte c"
    by (auto simp: encode_rune_def Let_def)
qed

lemma hexd_val: "k < 16 \<Longrightarrow> hex_val (hexd k) = Some k"
proof -
  assume k: "k < 16"
  then have "(48 + k) mod 256 = 48 + k" "(87 + k) mod 256 = 87 + k" by simp_all
  then show ?thesis using k by (auto simp: hexd_def hex_val_def is_digit_def)
qed

lemma hex4_byte:
  assumes "r < 256"
  shows "hex4 (CHR ''0'' # CHR ''0'' # hexd (r div 16) # hexd (r mod 16) # t) = Some r"
proof -
  have "r div 16 < 16" "r mod 16 < 16" using assms by auto
  then show ?thesis using hexd_val[of "r div 16"] hexd_val[of "r mod 16"]
    by (simp add: hex4_def hex_val_def is_digit_def)
qed

definition reads :: "string \<Rightarrow> string \<Rightarrow> bool" where
  "reads p q = ((\<forall>t. scan_string (p @ t) = map_option (map_prod ((@) p) id) (scan_string t))
     \<and> (\<forall>t. unquote (p @ t) = q @ unquote t))"

lemma readsI:
  assumes "\<And>t. scan_string (p @ t) = map_option (map_prod ((@) p) id) (scan_string t)"
    and "\<And>t. unquote (p @ t) = q @ unquote t"
  shows "reads p q"
  using assms by (simp add: reads_def)

lemma reads_unicode:
  assumes "\<And>t. hex4 (p @ t) = Some r" "length p = 4" "\<not> is_surrogate r"
  shows "reads (CHR 0x5C # CHR ''u'' # p) (encode_rune r)"
proof (rule readsI)
  fix t
  show "scan_string ((CHR 0x5C # CHR ''u'' # p) @ t)
      = map_option (map_prod ((@) (CHR 0x5C # CHR ''u'' # p)) id) (scan_string t)"
    by (cases "scan_string t") (use assms in \<open>auto simp: simple_escape_def\<close>)
  show "unquote ((CHR 0x5C # CHR ''u'' # p) @ t) = encode_rune r @ unquote t"
    using assms by (simp add: unquote_u_def)
qed

lemma encode_rune_small: "r < 128 \<Longrightarrow> encode_rune r = [char_of r]"
  by (simp add: encode_rune_def)

lemma reads_simple:
  assumes "simple_escape e" "e \<noteq> CHR ''u''" "escape_char e = c"
  shows "reads [CHR 0x5C, e] [c]"
proof (rule readsI)
  fix t
  show "scan_string ([CHR 0x5C, e] @ t) = map_option (map_prod ((@) [CHR 0x5C, e]) id) (scan_string t)"
    by (cases "scan_string t") (use assms in auto)
  show "unquote ([CHR 0x5C, e] @ t) = [c] @ unquote t" using assms by simp
qed

lemma reads_rune:
  assumes "valid_rune r"
  shows "reads (escape_rune r) (encode_rune r)"
proof -
  let ?special = "r = 34 \<or> r = 92 \<or> r = 8 \<or> r = 12 \<or> r = 10 \<or> r = 13 \<or> r = 9"
  consider (special) ?special
    | (html) "\<not> ?special" "r < 32 \<or> r = 60 \<or> r = 62 \<or> r = 38"
    | (sep) "r = 8232 \<or> r = 8233"
    | (ascii) "\<not> ?special" "32 \<le> r" "r < 128" "r \<noteq> 60" "r \<noteq> 62" "r \<noteq> 38"
    | (high) "128 \<le> r" "r \<noteq> 8232" "r \<noteq> 8233"
    by linarith
  then show ?thesis
  proof cases
    case special
    then show ?thesis
      by (auto simp: escape_rune_def encode_rune_small simple_escape_def escape_char_def char_of_eq intro!: reads_simple)
  next
    case html
    then have "hex4 ([CHR ''0'', CHR ''0'', hexd (r div 16), hexd (r mod 16)] @ t) = Some r" for t
      using hex4_byte[of r t] by auto
    from reads_unicode[OF this] html show ?thesis
      by (auto simp: escape_rune_def is_surrogate_def)
  next
    case sep
    then have "hex4 ((''202'' @ [hexd (r mod 16)]) @ t) = Some r" for t
      by (auto simp: hex4_def hex_val_def is_digit_def hexd_def)
    from reads_unicode[OF this] sep show ?thesis
      by (auto simp: escape_rune_def is_surrogate_def)
  next
    case ascii
    have e: "escape_rune r = [char_of r]" "encode_rune r = [char_of r]"
      using ascii by (simp_all add: escape_rune_def encode_rune_small)
    have "scan_string ([char_of r] @ t) = map_option (map_prod ((@) [char_of r]) id) (scan_string t)" for t
      by (cases "scan_string t") (use ascii in auto)
    moreover have "unquote ([char_of r] @ t) = [char_of r] @ unquote t" for t
      using ascii by (simp add: encode_rune_small)
    ultimately show ?thesis unfolding e by (intro readsI)
  next
    case high
    have e: "escape_rune r = encode_rune r" using high by (simp add: escape_rune_def)
    show ?thesis unfolding e
    proof (rule readsI)
      fix t
      show "scan_string (encode_rune r @ t) = map_option (map_prod ((@) (encode_rune r)) id) (scan_string t)"
        by (rule scan_high) (use encode_high[of r] assms high in simp)
      obtain a u where a: "encode_rune r = a # u" by (cases "encode_rune r") (use encode_nonempty in auto)
      have "128 \<le> byte a" using encode_high[of r] assms high a by simp
      moreover have "decode_rune (a # u @ t) = (r, Suc (length u))"
        using decode_encode[of r t] assms a by simp
      ultimately show "unquote (encode_rune r @ t) = encode_rune r @ unquote t"
        using a by (simp del: decode_rune.simps)
    qed
  qed
qed

lemma reads_error: "reads (CHR 0x5C # ''ufffd'') (encode_rune rune_error)"
  by (rule reads_unicode) (simp_all add: hex4_def hex_val_def is_digit_def is_surrogate_def rune_error_def)

lemma escape_reads:
  "scan_string (escape s @ CHR 0x22 # t) = Some (escape s, t) \<and> unquote (escape s) = of_runes (runes s)"
proof (induction s rule: escape.induct)
  case 1
  then show ?case by (simp add: of_runes_def)
next
  case (2 c s)
  obtain r n where d: "decode_rune (c # s) = (r, n)" by fastforce
  let ?p = "if r = rune_error \<and> n = 1 then CHR 0x5C # ''ufffd'' else escape_rune r"
  have v: "valid_rune r" using decode_valid[of "c # s"] d by simp
  have p: "reads ?p (encode_rune r)" using reads_rune[OF v] reads_error by auto
  have e: "escape (c # s) = ?p @ escape (drop (n - 1) s)" using d by simp
  have ih: "scan_string (escape (drop (n - 1) s) @ CHR 0x22 # t) = Some (escape (drop (n - 1) s), t)"
      "unquote (escape (drop (n - 1) s)) = of_runes (runes (drop (n - 1) s))"
    using "2.IH"[OF d[symmetric]] by simp_all
  show ?case using p ih d unfolding e reads_def
    by (simp add: of_runes_def del: decode_rune.simps)
qed

lemma quoted_token:
  "tokens (quoted s @ t) = map_option ((#) (TStr (escape s))) (tokens t)"
  using escape_reads[of s t] by (simp add: quoted_def json_space_def next_token_def)

section \<open>Reading it back: numbers\<close>

text \<open>What follows a value inside a document.\<close>

definition ends_value :: "string \<Rightarrow> bool" where
  "ends_value t = (t = [] \<or> hd t \<in> {CHR '','', CHR '']'', CHR 0x7D})"

lemma ends_cases:
  assumes "ends_value t"
  obtains "t = []" | u where "t = CHR '','' # u" | u where "t = CHR '']'' # u" | u where "t = CHR 0x7D # u"
  using assms by (cases t) (auto simp: ends_value_def)

lemma take_digits_ends: "ends_value t \<Longrightarrow> take_digits s = (d, r) \<Longrightarrow> take_digits (s @ t) = (d, r @ t)"
proof (induction s arbitrary: d)
  case Nil
  then show ?case by (auto elim: ends_cases simp: is_digit_def)
next
  case (Cons c s)
  then show ?case by (auto split: if_splits prod.splits)
qed

lemma scan_int_ends: "ends_value t \<Longrightarrow> scan_int s = Some (d, r) \<Longrightarrow> scan_int (s @ t) = Some (d, r @ t)"
  by (auto simp: scan_int_def take_digits_ends split: list.splits if_splits prod.splits)

lemma scan_frac_ends: "ends_value t \<Longrightarrow> scan_frac s = Some (d, r) \<Longrightarrow> scan_frac (s @ t) = Some (d, r @ t)"
  by (cases s) (auto simp: scan_frac_def take_digits_ends elim: ends_cases split: if_splits prod.splits)

lemma scan_exp_ends: "ends_value t \<Longrightarrow> scan_exp s = Some (d, r) \<Longrightarrow> scan_exp (s @ t) = Some (d, r @ t)"
proof (cases s)
  case Nil
  then show "ends_value t \<Longrightarrow> scan_exp s = Some (d, r) \<Longrightarrow> ?thesis"
    by (auto simp: scan_exp_def elim: ends_cases)
next
  case (Cons c u)
  assume e: "ends_value t" and s: "scan_exp s = Some (d, r)"
  show ?thesis
  proof (cases u)
    case Nil
    then show ?thesis using s Cons by (auto simp: scan_exp_def split: if_splits)
  next
    case (Cons g u')
    then show ?thesis using e s \<open>s = c # u\<close> take_digits_ends[OF e]
      by (auto simp: scan_exp_def Let_def split: if_splits prod.splits)
  qed
qed

lemma scan_number_ends:
  assumes "ends_value t" and "scan_number s = Some (d, r)"
  shows "scan_number (s @ t) = Some (d, r @ t)"
proof -
  have u: "scan_unsigned (s @ t) = Some (d, r @ t)" if "scan_unsigned s = Some (d, r)" for s d
    using that scan_int_ends[OF assms(1)] scan_frac_ends[OF assms(1)] scan_exp_ends[OF assms(1)]
    by (fastforce simp: scan_unsigned_def split: option.splits prod.splits)
  show ?thesis
  proof (cases s)
    case Nil
    then show ?thesis using assms(2) by (simp add: scan_number_def)
  next
    case (Cons c s')
    then show ?thesis using assms(2) u[of s'] u[of s] by (auto simp: scan_number_def split: if_splits)
  qed
qed

lemma number_start:
  assumes "number_literal (c # s)"
  shows "c = CHR ''-'' \<or> is_digit c"
  using assms by (auto simp: number_literal_def scan_number_def scan_unsigned_def scan_int_def is_digit_def split: if_splits option.splits)

lemma number_token:
  assumes "number_literal n" and "ends_value t"
  shows "tokens (n @ t) = map_option ((#) (TNum n)) (tokens t)"
proof (cases n)
  case Nil
  then show ?thesis using assms(1) by (simp add: number_literal_def scan_number_def)
next
  case (Cons c s)
  have "c = CHR ''-'' \<or> is_digit c" using number_start assms(1) Cons by simp
  then have c: "byte c = 45 \<or> 48 \<le> byte c \<and> byte c \<le> 57" by (auto simp: is_digit_def)
  then have ne: "c \<noteq> CHR ''t''" "c \<noteq> CHR ''f''" "c \<noteq> CHR ''n''" by auto
  have "scan_number (c # s @ t) = Some (n, t)"
    using scan_number_ends[OF assms(2), of n n "[]"] assms(1) Cons by (simp add: number_literal_def)
  then have "next_token c (s @ t) = Some (TNum n, t)" and "\<not> json_space c"
    using c ne by (auto simp: next_token_def json_space_def)
  then show ?thesis using Cons by simp
qed

section \<open>Reading it back: documents\<close>

text \<open>What the reader makes of a written value: strings as valid UTF-8, objects sorted by key.\<close>

function json_norm :: "json \<Rightarrow> json" where
  "json_norm (JStr s) = JStr (of_runes (runes s))"
| "json_norm (JArr vs) = JArr (map json_norm vs)"
| "json_norm (JObj kvs) = JObj (map (\<lambda>kv. (of_runes (runes (fst kv)), snd kv))
     (sort_key fst (map (\<lambda>kv. (fst kv, json_norm (snd kv))) kvs)))"
| "json_norm JNull = JNull"
| "json_norm (JBool b) = JBool b"
| "json_norm (JNum n) = JNum n"
  by pat_completeness auto
termination
proof (relation "measure size", goal_cases)
  case (2 vs v)
  then show ?case using size_list_estimation'[of v vs "size v" size] by auto
next
  case (3 kvs kv)
  then have "size (snd kv) \<le> size_list (size_prod (\<lambda>_. 0) size) kvs"
    by (intro size_list_estimation'[of kv]) (auto simp: size_prod_simp)
  then show ?case by simp
qed simp

inductive json_ok :: "nat \<Rightarrow> json \<Rightarrow> bool" where
  "json_ok d JNull" | "json_ok d (JBool b)" | "json_ok d (JStr s)"
| "number_literal n \<Longrightarrow> json_ok d (JNum n)"
| "\<forall>v \<in> set vs. json_ok d v \<Longrightarrow> json_ok (Suc d) (JArr vs)"
| "\<forall>kv \<in> set kvs. json_ok d (snd kv) \<Longrightarrow> json_ok (Suc d) (JObj kvs)"

inductive_cases json_okE: "json_ok d (JNum n)" "json_ok d (JArr vs)" "json_ok d (JObj kvs)"

text \<open>Tokens in front of those of the rest of a text, if it has tokens.\<close>

definition prepend :: "'a list \<Rightarrow> 'a list option \<Rightarrow> 'a list option" where
  "prepend xs m = map_option ((@) xs) m"

lemma prepend_prepend: "prepend xs (prepend ys m) = prepend (xs @ ys) m"
  by (cases m) (simp_all add: prepend_def)

lemma prepend_one: "map_option ((#) x) m = prepend [x] m"
  by (cases m) (simp_all add: prepend_def)

lemma prepend_Some [simp]: "prepend xs (Some ys) = Some (xs @ ys)"
  by (simp add: prepend_def)

text \<open>A text that reads as a value: its tokens, before anything that ends a value, drive the
  automaton from expecting a value to having completed it.\<close>

definition reads_as :: "nat \<Rightarrow> string \<Rightarrow> json \<Rightarrow> bool" where
  "reads_as d p v = (\<exists>ts.
     (\<forall>t. ends_value t \<longrightarrow> tokens (p @ t) = prepend ts (tokens t))
     \<and> ts \<noteq> [] \<and> hd ts \<noteq> TCloseArr
     \<and> (\<forall>st us. length st + d \<le> max_depth \<longrightarrow> psteps (PValue st) (ts @ us) = psteps (complete v st) us))"

lemma psteps_append: "psteps p (ts @ us) = (case psteps p ts of None \<Rightarrow> None | Some q \<Rightarrow> psteps q us)"
  by (induction ts arbitrary: p) (auto split: option.splits)

lemma reads_as_parse:
  assumes "reads_as d p v" and "d \<le> max_depth"
  shows "parse_json p = Some v"
proof -
  obtain ts where t: "\<forall>t. ends_value t \<longrightarrow> tokens (p @ t) = prepend ts (tokens t)"
    and s: "\<forall>st us. length st + d \<le> max_depth \<longrightarrow> psteps (PValue st) (ts @ us) = psteps (complete v st) us"
    using assms(1) unfolding reads_as_def by blast
  have "tokens p = Some ts" using t[rule_format, of "[]"] by (simp add: ends_value_def)
  moreover have "psteps (PValue []) ts = Some (PDone v)"
    using s[rule_format, of "[]" "[]"] assms(2) by simp
  ultimately show ?thesis by (simp add: parse_json_def parse_tokens_def)
qed

lemma tokens_punct:
  "tokens (CHR ''['' # s) = prepend [TOpenArr] (tokens s)"
  "tokens (CHR '']'' # s) = prepend [TCloseArr] (tokens s)"
  "tokens (CHR 0x7B # s) = prepend [TOpenObj] (tokens s)"
  "tokens (CHR 0x7D # s) = prepend [TCloseObj] (tokens s)"
  "tokens (CHR '','' # s) = prepend [TComma] (tokens s)"
  "tokens (CHR '':'' # s) = prepend [TColon] (tokens s)"
  by (simp_all add: json_space_def next_token_def prepend_one)

lemma reads_as_string: "reads_as d (quoted s) (JStr (of_runes (runes s)))"
  unfolding reads_as_def
  by (rule exI[of _ "[TStr (escape s)]"])
    (use escape_reads[of s] in \<open>simp add: quoted_token start_value_def prepend_one\<close>)

lemma reads_as_number: "number_literal n \<Longrightarrow> reads_as d n (JNum n)"
  unfolding reads_as_def
  by (rule exI[of _ "[TNum n]"]) (simp add: number_token start_value_def prepend_one)

lemma reads_as_word:
  "reads_as d ''null'' JNull" "reads_as d ''true'' (JBool True)" "reads_as d ''false'' (JBool False)"
proof -
  show "reads_as d ''null'' JNull" unfolding reads_as_def
    by (rule exI[of _ "[TNull]"]) (simp add: json_space_def next_token_def start_value_def prepend_one)
  show "reads_as d ''true'' (JBool True)" unfolding reads_as_def
    by (rule exI[of _ "[TTrue]"]) (simp add: json_space_def next_token_def start_value_def prepend_one)
  show "reads_as d ''false'' (JBool False)" unfolding reads_as_def
    by (rule exI[of _ "[TFalse]"]) (simp add: json_space_def next_token_def start_value_def prepend_one)
qed

lemma commas_Cons: "commas (s # ss) = s @ concat (map ((#) CHR '','') ss)"
  by (induction ss arbitrary: s) auto

lemma array_rest:
  assumes "\<forall>pv \<in> set pvs. reads_as d (fst pv) (snd pv)"
  shows "\<exists>ts. (\<forall>t. tokens (concat (map ((#) CHR '','') (map fst pvs)) @ CHR '']'' # t) = prepend ts (tokens t))
    \<and> (\<forall>ws st us. length st + Suc d \<le> max_depth \<longrightarrow>
         psteps (PArrNext ws st) (ts @ us) = psteps (complete (JArr (ws @ map snd pvs)) st) us)"
  using assms
proof (induction pvs)
  case Nil
  show ?case by (rule exI[of _ "[TCloseArr]"]) (simp add: tokens_punct del: tokens.simps)
next
  case (Cons pv pvs)
  obtain p v where pv: "pv = (p, v)" by fastforce
  let ?rest = "\<lambda>t. concat (map ((#) CHR '','') (map fst pvs)) @ CHR '']'' # t"
  obtain ts where t: "tokens (?rest t) = prepend ts (tokens t)"
    and s: "length st + Suc d \<le> max_depth \<Longrightarrow> psteps (PArrNext ws st) (ts @ us) = psteps (complete (JArr (ws @ map snd pvs)) st) us"
    for t ws st us
    using Cons by auto
  obtain tv where tv: "ends_value t \<Longrightarrow> tokens (p @ t) = prepend tv (tokens t)"
    and sv: "length st + d \<le> max_depth \<Longrightarrow> psteps (PValue st) (tv @ us) = psteps (complete v st) us"
    for t st us
    using Cons.prems pv unfolding reads_as_def by auto
  have "ends_value (?rest t)" for t by (cases pvs) (auto simp: ends_value_def)
  then have "tokens (CHR '','' # p @ ?rest t) = prepend (TComma # tv @ ts) (tokens t)" for t
    by (simp add: tokens_punct tv t prepend_prepend del: tokens.simps map_map)
  moreover have "psteps (PArrNext ws st) ((TComma # tv @ ts) @ us) = psteps (complete (JArr (ws @ map snd (pv # pvs))) st) us"
    if "length st + Suc d \<le> max_depth" for ws st us
    using that sv[of "FArr ws # st" "ts @ us"] s[OF that, of "ws @ [v]" us] pv by simp
  ultimately show ?case using pv by (intro exI[of _ "TComma # tv @ ts"]) simp
qed

lemma reads_as_array:
  assumes "\<forall>pv \<in> set pvs. reads_as d (fst pv) (snd pv)"
  shows "reads_as (Suc d) (json_array (map fst pvs)) (JArr (map snd pvs))"
proof (cases pvs)
  case Nil
  show ?thesis unfolding reads_as_def Nil
    by (rule exI[of _ "[TOpenArr, TCloseArr]"])
      (auto simp: json_array_def tokens_punct start_value_def prepend_prepend
        simp del: tokens.simps)
next
  case (Cons pv rest)
  obtain p v where pv: "pv = (p, v)" by fastforce
  obtain tv where tv: "ends_value t \<Longrightarrow> tokens (p @ t) = prepend tv (tokens t)"
    and ne: "tv \<noteq> []" "hd tv \<noteq> TCloseArr"
    and sv: "length st + d \<le> max_depth \<Longrightarrow> psteps (PValue st) (tv @ us) = psteps (complete v st) us"
    for t st us
    using assms Cons pv unfolding reads_as_def by auto
  obtain ts where t: "tokens (concat (map ((#) CHR '','') (map fst rest)) @ CHR '']'' # t) = prepend ts (tokens t)"
    and s: "length st + Suc d \<le> max_depth \<Longrightarrow> psteps (PArrNext ws st) (ts @ us) = psteps (complete (JArr (ws @ map snd rest)) st) us"
    for t ws st us
    using array_rest[of rest d] assms Cons by auto
  have "ends_value (concat (map ((#) CHR '','') (map fst rest)) @ CHR '']'' # t)" for t
    by (cases rest) (auto simp: ends_value_def)
  then have "tokens (json_array (map fst pvs) @ t) = prepend (TOpenArr # tv @ ts) (tokens t)" for t
    using Cons pv
    by (simp add: json_array_def commas_Cons tokens_punct tv t prepend_prepend del: tokens.simps commas.simps map_map)
  moreover have "psteps (PArr0 st) (tv @ us) = psteps (PValue (FArr [] # st)) (tv @ us)" for st us
    using ne by (cases tv) auto
  then have "psteps (PValue st) ((TOpenArr # tv @ ts) @ us) = psteps (complete (JArr (map snd pvs)) st) us"
    if "length st + Suc d \<le> max_depth" for st us
    using that sv[of "FArr [] # st" "ts @ us"] s[OF that, of "[v]" us] Cons pv by (simp add: start_value_def)
  ultimately show ?thesis unfolding reads_as_def by (intro exI[of _ "TOpenArr # tv @ ts"]) simp
qed

definition member_text :: "string \<Rightarrow> string \<Rightarrow> string" where
  "member_text k p = quoted k @ '':'' @ p"

definition key_norm :: "string \<Rightarrow> string" where
  "key_norm k = of_runes (runes k)"

lemma member_tokens:
  "tokens (member_text k p @ t) = prepend [TStr (escape k), TColon] (tokens (p @ t))"
  by (cases "tokens (p @ t)") (simp_all add: member_text_def quoted_token tokens_punct prepend_one prepend_prepend del: tokens.simps)

lemma object_rest:
  assumes "\<forall>(k, p, v) \<in> set ms. reads_as d p v"
  shows "\<exists>ts. (\<forall>t. tokens (concat (map ((#) CHR '','') (map (\<lambda>(k, p, v). member_text k p) ms)) @ CHR 0x7D # t)
        = prepend ts (tokens t))
    \<and> (\<forall>kvs st us. length st + Suc d \<le> max_depth \<longrightarrow>
         psteps (PObjNext kvs st) (ts @ us) = psteps (complete (JObj (kvs @ map (\<lambda>(k, p, v). (key_norm k, v)) ms)) st) us)"
  using assms
proof (induction ms)
  case Nil
  show ?case by (rule exI[of _ "[TCloseObj]"]) (simp add: tokens_punct del: tokens.simps)
next
  case (Cons m ms)
  obtain k p v where m: "m = (k, p, v)" by (cases m) auto
  let ?rest = "\<lambda>t. concat (map ((#) CHR '','') (map (\<lambda>(k, p, v). member_text k p) ms)) @ CHR 0x7D # t"
  obtain ts where t: "tokens (?rest t) = prepend ts (tokens t)"
    and s: "length st + Suc d \<le> max_depth \<Longrightarrow> psteps (PObjNext kvs st) (ts @ us)
        = psteps (complete (JObj (kvs @ map (\<lambda>(k, p, v). (key_norm k, v)) ms)) st) us"
    for t kvs st us
    using Cons by auto
  obtain tv where tv: "ends_value t \<Longrightarrow> tokens (p @ t) = prepend tv (tokens t)"
    and sv: "length st + d \<le> max_depth \<Longrightarrow> psteps (PValue st) (tv @ us) = psteps (complete v st) us"
    for t st us
    using Cons.prems m unfolding reads_as_def by auto
  have "ends_value (?rest t)" for t by (cases ms) (auto simp: ends_value_def)
  then have "tokens (CHR '','' # member_text k p @ ?rest t)
      = prepend (TComma # TStr (escape k) # TColon # tv @ ts) (tokens t)" for t
    by (simp add: tokens_punct member_tokens tv t prepend_prepend del: tokens.simps map_map)
  moreover have "psteps (PObjNext kvs st) ((TComma # TStr (escape k) # TColon # tv @ ts) @ us)
      = psteps (complete (JObj (kvs @ map (\<lambda>(k, p, v). (key_norm k, v)) (m # ms))) st) us"
    if "length st + Suc d \<le> max_depth" for kvs st us
    using that sv[of "FObj kvs (key_norm k) # st" "ts @ us"] s[OF that, of "kvs @ [(key_norm k, v)]" us] m escape_reads[of k]
    by (simp add: key_norm_def)
  ultimately show ?case using m by (intro exI[of _ "TComma # TStr (escape k) # TColon # tv @ ts"]) simp
qed

lemma reads_as_object:
  assumes "\<forall>(k, p, v) \<in> set ms. reads_as d p v"
  shows "reads_as (Suc d) (json_object (map (\<lambda>(k, p, v). (k, p)) ms)) (JObj (map (\<lambda>(k, p, v). (key_norm k, v)) ms))"
proof -
  have shape: "json_object (map (\<lambda>(k, p, v). (k, p)) ms) = ''{'' @ commas (map (\<lambda>(k, p, v). member_text k p) ms) @ ''}''"
    by (simp add: json_object_def member_text_def comp_def case_prod_unfold)
  show ?thesis
  proof (cases ms)
    case Nil
    show ?thesis unfolding reads_as_def shape unfolding Nil
      by (rule exI[of _ "[TOpenObj, TCloseObj]"])
        (auto simp: tokens_punct start_value_def prepend_prepend
          simp del: tokens.simps)
  next
    case (Cons m rest)
    obtain k p v where m: "m = (k, p, v)" by (cases m) auto
    obtain tv where tv: "ends_value t \<Longrightarrow> tokens (p @ t) = prepend tv (tokens t)"
      and sv: "length st + d \<le> max_depth \<Longrightarrow> psteps (PValue st) (tv @ us) = psteps (complete v st) us"
      for t st us
      using assms Cons m unfolding reads_as_def by auto
    let ?rest = "\<lambda>t. concat (map ((#) CHR '','') (map (\<lambda>(k, p, v). member_text k p) rest)) @ CHR 0x7D # t"
    obtain ts where t: "tokens (?rest t) = prepend ts (tokens t)"
      and s: "length st + Suc d \<le> max_depth \<Longrightarrow> psteps (PObjNext kvs st) (ts @ us)
          = psteps (complete (JObj (kvs @ map (\<lambda>(k, p, v). (key_norm k, v)) rest)) st) us"
      for t kvs st us
      using object_rest[of rest d] assms Cons by auto
    have "ends_value (?rest t)" for t by (cases rest) (auto simp: ends_value_def)
    then have "tokens ((''{'' @ commas (map (\<lambda>(k, p, v). member_text k p) ms) @ ''}'') @ t)
        = prepend (TOpenObj # TStr (escape k) # TColon # tv @ ts) (tokens t)" for t
      using Cons m
      by (simp add: commas_Cons tokens_punct member_tokens tv t prepend_prepend
          del: tokens.simps commas.simps map_map)
    moreover have "psteps (PValue st) ((TOpenObj # TStr (escape k) # TColon # tv @ ts) @ us)
        = psteps (complete (JObj (map (\<lambda>(k, p, v). (key_norm k, v)) ms)) st) us"
      if "length st + Suc d \<le> max_depth" for st us
      using that sv[of "FObj [] (key_norm k) # st" "ts @ us"] s[OF that, of "[(key_norm k, v)]" us] Cons m escape_reads[of k]
      by (simp add: start_value_def key_norm_def)
    ultimately show ?thesis unfolding reads_as_def shape
      by (intro exI[of _ "TOpenObj # TStr (escape k) # TColon # tv @ ts"]) simp
  qed
qed

lemma insort_map: "insort_key f (g x) (map g xs) = map g (insort_key (\<lambda>y. f (g y)) x xs)"
  by (induction xs) auto

lemma sort_key_map: "sort_key f (map g xs) = map g (sort_key (\<lambda>y. f (g y)) xs)"
  by (induction xs) (auto simp: insort_map)

text \<open>A value whose numbers are literals and whose nesting is within the reader's bound is read back.\<close>

lemma json_text_reads: "json_ok d v \<Longrightarrow> reads_as d (json_text v) (json_norm v)"
proof (induction d v rule: json_ok.induct)
  case (5 vs d)
  let ?pvs = "map (\<lambda>v. (json_text v, json_norm v)) vs"
  have "reads_as (Suc d) (json_array (map fst ?pvs)) (JArr (map snd ?pvs))"
    by (rule reads_as_array) (use 5 in auto)
  then show ?case by (simp add: comp_def)
next
  case (6 kvs d)
  let ?ms = "map (\<lambda>kv. (fst kv, json_text (snd kv), json_norm (snd kv))) (sort_key fst kvs)"
  have "reads_as (Suc d) (json_object (map (\<lambda>(k, p, v). (k, p)) ?ms)) (JObj (map (\<lambda>(k, p, v). (key_norm k, v)) ?ms))"
    by (rule reads_as_object) (use 6 in auto)
  then show ?case by (simp add: sort_key_map comp_def key_norm_def)
qed (auto simp: reads_as_word reads_as_string reads_as_number)

lemma json_text_parses: "json_ok d v \<Longrightarrow> d \<le> max_depth \<Longrightarrow> parse_json (json_text v) = Some (json_norm v)"
  using json_text_reads reads_as_parse by blast

lemma json_ok_more: "json_ok d v \<Longrightarrow> json_ok (d + k) v"
  by (induction d v rule: json_ok.induct) (auto intro: json_ok.intros)

end
