(* ===== verification/Inventory.thy ===== *)
theory Inventory
  imports Config Json Password
begin

text \<open>
  \<open>internal/agent/inventory.go\<close>: what the agent reports of its host. The files of the host, its
  file system, its network interfaces and directory listings are the record \<open>agent_host\<close>;
  \<open>strconv.ParseFloat\<close> and the text \<open>encoding/json\<close> gives a float are parameters of that record: a
  float is its literal.
\<close>

text \<open>A network interface: whether it is up, whether it is a loopback, and its addresses as text with
  whether each is a loopback address; \<open>None\<close> is an error of \<open>Addrs\<close>, and an address that is no IP
  is \<open>None\<close>.\<close>

record net_interface =
  ni_up :: bool
  ni_loopback :: bool
  ni_addrs :: "(string \<times> bool) option list option"

record agent_host =
  gh_files :: "string \<Rightarrow> err + string"
  gh_is_dir :: "string \<Rightarrow> bool"
  gh_read_dir :: "string \<Rightarrow> err + (string \<times> bool) list"
  gh_statfs :: "string \<Rightarrow> err + 64 word \<times> 64 word"
  gh_num_cpu :: int
  gh_interfaces :: "err + net_interface list"
  gh_parse_float :: "string \<Rightarrow> string option"
  gh_float_int :: "string \<Rightarrow> int"

record system_inventory =
  sy_os :: os_release
  sy_kernel :: string
  sy_cpu_cores :: int
  sy_ram_total_mb :: int
  sy_ram_available_mb :: int
  sy_swap_mb :: int
  sy_disk_free_gb :: int
  sy_load1 :: string
  sy_load5 :: string
  sy_load15 :: string
  sy_uptime_seconds :: int
  sy_ip_addresses :: "string list option"
  sy_has_systemd :: bool
  sy_services :: "string list option"

text \<open>\<open>IPAddresses\<close> is \<open>None\<close> when the function is nil.\<close>

record inventory_collector =
  ic_os_release_path :: string
  ic_meminfo_path :: string
  ic_kernel_path :: string
  ic_loadavg_path :: string
  ic_uptime_path :: string
  ic_systemd_path :: string
  ic_proc1_comm_path :: string
  ic_disk_path :: string
  ic_ip_addresses :: "(agent_host \<Rightarrow> err + string list option) option"

text \<open>\<open>collectIPAddresses\<close>; a slice that nothing was appended to is nil.\<close>

definition nil_slice :: "'a list \<Rightarrow> 'a list option" where
  "nil_slice xs = (if xs = [] then None else Some xs)"

definition interface_addresses :: "net_interface \<Rightarrow> string list" where
  "interface_addresses i =
     (if \<not> ni_up i \<or> ni_loopback i then []
      else (case ni_addrs i of None \<Rightarrow> []
        | Some addrs \<Rightarrow> [ip. Some (ip, loopback) \<leftarrow> addrs, \<not> loopback]))"

definition collectIPAddresses :: "agent_host \<Rightarrow> err + string list option" where
  "collectIPAddresses h = rbind (gh_interfaces h) (\<lambda>is. Inr (nil_slice (concat (map interface_addresses is))))"

definition NewInventoryCollector :: inventory_collector where
  "NewInventoryCollector = \<lparr>ic_os_release_path = ''/etc/os-release'', ic_meminfo_path = ''/proc/meminfo'',
     ic_kernel_path = ''/proc/sys/kernel/osrelease'', ic_loadavg_path = ''/proc/loadavg'',
     ic_uptime_path = ''/proc/uptime'', ic_systemd_path = ''/run/systemd/system'',
     ic_proc1_comm_path = ''/proc/1/comm'', ic_disk_path = ''/'', ic_ip_addresses = Some collectIPAddresses\<rparr>"

definition or_else :: "err + 'a \<Rightarrow> 'a \<Rightarrow> 'a" where
  "or_else m d = (case m of Inl e \<Rightarrow> d | Inr a \<Rightarrow> a)"

definition inv_readOSRelease :: "inventory_collector \<Rightarrow> agent_host \<Rightarrow> os_release" where
  "inv_readOSRelease c h = or_else (rbind (gh_files h (ic_os_release_path c)) ParseOSRelease)
     \<lparr>os_id = [], os_version_id = [], os_name = []\<rparr>"

definition readKernel :: "inventory_collector \<Rightarrow> agent_host \<Rightarrow> string" where
  "readKernel c h = or_else (rbind (gh_files h (ic_kernel_path c)) (\<lambda>s. Inr (trim_space s))) []"

definition inv_kbToMB :: "int \<Rightarrow> int" where
  "inv_kbToMB kb = (if kb \<le> 0 then 0 else kb div 1024)"

text \<open>Unlike the preflight collector, a line whose number does not parse is skipped.\<close>

fun inv_meminfo_lines :: "string list \<Rightarrow> (string \<rightharpoonup> int) \<Rightarrow> (string \<rightharpoonup> int)" where
  "inv_meminfo_lines [] vs = vs"
| "inv_meminfo_lines (l # ls) vs = (case cut CHR '':'' l of
     None \<Rightarrow> inv_meminfo_lines ls vs
   | Some (key, rest) \<Rightarrow> (case split_fields rest of
       [] \<Rightarrow> inv_meminfo_lines ls vs
     | f # _ \<Rightarrow> (case atoi f of
         None \<Rightarrow> inv_meminfo_lines ls vs
       | Some kb \<Rightarrow> inv_meminfo_lines ls (vs(key \<mapsto> kb)))))"

definition inv_readMemory :: "inventory_collector \<Rightarrow> agent_host \<Rightarrow> int \<times> int \<times> int" where
  "inv_readMemory c h = (case gh_files h (ic_meminfo_path c) of
     Inl e \<Rightarrow> (0, 0, 0)
   | Inr content \<Rightarrow>
       (let vs = inv_meminfo_lines (fst (scan_lines content)) Map.empty;
            mb = (\<lambda>k. inv_kbToMB (case vs k of None \<Rightarrow> 0 | Some n \<Rightarrow> n))
        in (mb ''MemTotal'', mb ''MemAvailable'', mb ''SwapTotal'')))"

definition readDiskFree :: "inventory_collector \<Rightarrow> agent_host \<Rightarrow> int" where
  "readDiskFree c h = or_else (rbind (gh_statfs h (ic_disk_path c))
     (\<lambda>(bavail, bsize). Inr (sint (bavail * bsize div 1024 div 1024 div 1024)))) 0"

definition readLoadAverage :: "inventory_collector \<Rightarrow> agent_host \<Rightarrow> string \<times> string \<times> string" where
  "readLoadAverage c h = (case gh_files h (ic_loadavg_path c) of
     Inl e \<Rightarrow> (''0'', ''0'', ''0'')
   | Inr content \<Rightarrow> (case split_fields content of
       f1 # f2 # f3 # _ \<Rightarrow>
         (case (gh_parse_float h f1, gh_parse_float h f2, gh_parse_float h f3) of
            (Some a, Some b, Some d) \<Rightarrow> (a, b, d)
          | _ \<Rightarrow> (''0'', ''0'', ''0''))
     | _ \<Rightarrow> (''0'', ''0'', ''0'')))"

definition readUptime :: "inventory_collector \<Rightarrow> agent_host \<Rightarrow> int" where
  "readUptime c h = (case gh_files h (ic_uptime_path c) of
     Inl e \<Rightarrow> 0
   | Inr content \<Rightarrow> (case split_fields content of
       [] \<Rightarrow> 0
     | f # _ \<Rightarrow> (case gh_parse_float h f of None \<Rightarrow> 0 | Some x \<Rightarrow> gh_float_int h x)))"

definition readIPAddresses :: "(agent_host \<Rightarrow> err + string list option) \<Rightarrow> agent_host \<Rightarrow> string list option" where
  "readIPAddresses f h = or_else (f h) None"

definition inv_hasSystemd :: "inventory_collector \<Rightarrow> agent_host \<Rightarrow> bool" where
  "inv_hasSystemd c h =
     (gh_is_dir h (ic_systemd_path c)
      \<or> or_else (rbind (gh_files h (ic_proc1_comm_path c)) (\<lambda>s. Inr (trim_space s = ''systemd''))) False)"

definition listServices :: "inventory_collector \<Rightarrow> agent_host \<Rightarrow> string list option" where
  "listServices c h = (case gh_read_dir h (ic_systemd_path c) of
     Inl e \<Rightarrow> None
   | Inr entries \<Rightarrow> nil_slice
       [take (length n - 8) n. (n, is_dir) \<leftarrow> entries, \<not> is_dir \<and> has_suffix n ''.service''])"

definition inventory_collect :: "inventory_collector \<Rightarrow> agent_host \<Rightarrow> system_inventory" where
  "inventory_collect c h =
     (let (total, available, swap) = inv_readMemory c h; (l1, l5, l15) = readLoadAverage c h in
      \<lparr>sy_os = inv_readOSRelease c h, sy_kernel = readKernel c h, sy_cpu_cores = gh_num_cpu h,
       sy_ram_total_mb = total, sy_ram_available_mb = available, sy_swap_mb = swap,
       sy_disk_free_gb = readDiskFree c h, sy_load1 = l1, sy_load5 = l5, sy_load15 = l15,
       sy_uptime_seconds = readUptime c h,
       sy_ip_addresses = (case ic_ip_addresses c of None \<Rightarrow> None | Some f \<Rightarrow> readIPAddresses f h),
       sy_has_systemd = inv_hasSystemd c h, sy_services = listServices c h\<rparr>)"

text \<open>The data of \<open>inventoryAction\<close>.\<close>

definition json_strings :: "string list option \<Rightarrow> json" where
  "json_strings xs = (case xs of None \<Rightarrow> JNull | Some ss \<Rightarrow> JArr (map JStr ss))"

definition inventory_data :: "system_inventory \<Rightarrow> (string \<times> json) list" where
  "inventory_data i = [
     (''os'', JObj [(''id'', JStr (os_id (sy_os i))), (''versionId'', JStr (os_version_id (sy_os i))),
                    (''name'', JStr (os_name (sy_os i)))]),
     (''kernel'', JStr (sy_kernel i)),
     (''cpuCores'', JNum (itoa (sy_cpu_cores i))),
     (''ramTotalMB'', JNum (itoa (sy_ram_total_mb i))),
     (''ramAvailableMB'', JNum (itoa (sy_ram_available_mb i))),
     (''swapMB'', JNum (itoa (sy_swap_mb i))),
     (''diskFreeGB'', JNum (itoa (sy_disk_free_gb i))),
     (''load1'', JNum (sy_load1 i)), (''load5'', JNum (sy_load5 i)), (''load15'', JNum (sy_load15 i)),
     (''uptimeSeconds'', JNum (itoa (sy_uptime_seconds i))),
     (''ipAddresses'', json_strings (sy_ip_addresses i)),
     (''hasSystemd'', JBool (sy_has_systemd i)),
     (''services'', json_strings (sy_services i))]"

end
