(* ===== verification/AgentRpc.thy ===== *)
theory AgentRpc
  imports AgentActions JsonText GoPath Inventory
begin

text \<open>
  The agent's registry of actions (\<open>actions.go\<close>), its HTTP handlers (\<open>server.go\<close>,
  \<open>capabilities.go\<close>) and the panel's client (\<open>transport.go\<close>). A JSON response is its text. The
  connection between client and server is a function from the request to what comes back; the mux
  is the name it delivers. \<open>mime.ParseMediaType\<close> is a parameter, and so is what a handler finds on
  its host (\<open>'h\<close>).
\<close>

section \<open>Results\<close>

definition maxActionResultBytes :: nat where "maxActionResultBytes = 65536"
definition maxActionPayloadBytes :: nat where "maxActionPayloadBytes = 65536"
definition maxActionRequestBytes :: nat where "maxActionRequestBytes = maxActionPayloadBytes + 1024"
definition maxIdempotencyKeyBytes :: nat where "maxIdempotencyKeyBytes = 128"
definition maxAgentResponseBytes :: nat where "maxAgentResponseBytes = 1048576"

record action_log =
  al_level :: string
  al_message :: string

text \<open>The data is the content of the map.\<close>

record action_result =
  an_action :: string
  an_status :: string
  an_data :: "(string \<times> json) list"
  an_logs :: "action_log list"
  an_encoded :: string

definition empty_result :: action_result where
  "empty_result = \<lparr>an_action = [], an_status = [], an_data = [], an_logs = [], an_encoded = []\<rparr>"

text \<open>\<open>json.Marshal\<close> refuses a float that is not finite, which has no literal.\<close>

fun encodable :: "json \<Rightarrow> bool" where
  "encodable (JNum n) = number_literal n"
| "encodable (JArr vs) = (\<forall>v \<in> set vs. encodable v)"
| "encodable (JObj kvs) = (\<forall>kv \<in> set kvs. encodable (snd kv))"
| "encodable v = True"

definition log_text :: "action_log \<Rightarrow> string" where
  "log_text l = json_object [(''level'', quoted (al_level l)), (''message'', quoted (al_message l))]"

definition result_text :: "action_result \<Rightarrow> string" where
  "result_text r = json_object
     ([(''action'', quoted (an_action r)), (''status'', quoted (an_status r))]
      @ (if an_data r = [] then [] else [(''data'', json_text (JObj (an_data r)))])
      @ (if an_logs r = [] then [] else [(''logs'', json_array (map log_text (an_logs r)))]))"

definition encodeActionResult :: "action_result \<Rightarrow> err + string" where
  "encodeActionResult r =
     (if trim_space (an_status r) = [] \<or> length (an_status r) > 32 \<or> length (an_logs r) > 100 then Inl ErrInvalidResult
      else if list_ex (\<lambda>l. length (al_level l) > 16 \<or> length (al_message l) > 1024) (an_logs r) then Inl ErrInvalidResult
      else if \<not> encodable (JObj (an_data r)) \<or> length (result_text r) > maxActionResultBytes then Inl ErrInvalidResult
      else Inr (result_text r))"

section \<open>Actions and the registry\<close>

text \<open>A handler sees what it needs of the agent: the names its registry holds when it is called, and
  the host.\<close>

record 'h agent_env =
  av_actions :: "string list"
  av_host :: 'h

type_synonym 'h action_handler = "'h agent_env \<Rightarrow> string \<Rightarrow> err + action_result"

record 'h agent_action =
  aa_name :: string
  aa_handler :: "'h action_handler option"

definition invalid_action :: "string \<Rightarrow> err" where
  "invalid_action what = Wrapped [] ErrInvalidAction ('': '' @ what)"

definition typed_handler ::
  "(nat \<Rightarrow> string \<Rightarrow> bool) \<Rightarrow> go_type \<Rightarrow> string \<Rightarrow> (go_value \<Rightarrow> err option) \<Rightarrow> ('h agent_env \<Rightarrow> go_value \<Rightarrow> err + action_result)
     \<Rightarrow> 'h action_handler" where
  "typed_handler fl t name validate handler env raw =
     rbind (decodeActionPayload fl t raw) (\<lambda>payload.
     if validate payload \<noteq> None then Inl (invalid_payload ''validation failed'')
     else rbind (handler env payload) (\<lambda>r.
          let result = r\<lparr>an_action := name\<rparr> in
          rbind (encodeActionResult result) (\<lambda>encoded. Inr (result\<lparr>an_encoded := encoded\<rparr>))))"

definition DefineAction ::
  "(rune \<Rightarrow> rune) \<Rightarrow> (nat \<Rightarrow> string \<Rightarrow> bool) \<Rightarrow> go_type \<Rightarrow> string \<Rightarrow> (go_value \<Rightarrow> err option) option
     \<Rightarrow> ('h agent_env \<Rightarrow> go_value \<Rightarrow> err + action_result) option \<Rightarrow> err + 'h agent_action" where
  "DefineAction ul fl t name0 validate handler =
     (let name = trim_space name0 in
      if name = [] then Inl (invalid_action ''action name is required'')
      else (case validate of
        None \<Rightarrow> Inl (invalid_action ''payload validator is required'')
      | Some v \<Rightarrow> (case handler of
          None \<Rightarrow> Inl (invalid_action ''handler is required'')
        | Some h \<Rightarrow>
            if \<not> validatePayloadType ul t True
            then Inl (invalid_action ''payload must use an explicit object schema'')
            else Inr \<lparr>aa_name = name, aa_handler = Some (typed_handler fl t name v h)\<rparr>)))"

type_synonym 'h registry = "(string \<times> 'h action_handler) list"

definition NewRegistry :: "'h registry" where "NewRegistry = []"

definition Register :: "'h agent_action \<Rightarrow> 'h registry \<Rightarrow> err + 'h registry" where
  "Register a r = (case aa_handler a of
     None \<Rightarrow> Inl (invalid_action ''complete action definition is required'')
   | Some h \<Rightarrow>
       if aa_name a = [] then Inl (invalid_action ''complete action definition is required'')
       else if map_of r (aa_name a) \<noteq> None
       then Inl (invalid_action (''action '' @ quoted (aa_name a) @ '' already registered''))
       else Inr (r @ [(aa_name a, h)]))"

text \<open>Go's \<open>sort.Strings\<close>.\<close>

definition Actions :: "'h registry \<Rightarrow> string list" where
  "Actions r = sort (map fst r)"

definition execute_action :: "'h registry \<Rightarrow> 'h \<Rightarrow> string \<Rightarrow> string \<Rightarrow> err + action_result" where
  "execute_action r host name payload = (case map_of r name of
     None \<Rightarrow> Inl (Wrapped [] ErrUnknownAction ('': '' @ name))
   | Some h \<Rightarrow> h \<lparr>av_actions = Actions r, av_host = host\<rparr> payload)"

section \<open>The actions of the agent\<close>

definition EmptyPayload :: go_type where "EmptyPayload = KStruct []"

definition validateEmptyPayload :: "go_value \<Rightarrow> err option" where "validateEmptyPayload v = None"

definition healthAction :: "'h agent_env \<Rightarrow> go_value \<Rightarrow> err + action_result" where
  "healthAction env payload = Inr (empty_result\<lparr>an_action := ''agent.health'', an_status := ''ok'',
     an_data := [(''status'', JStr ''ok'')]\<rparr>)"

definition capabilitiesAction :: "'h agent_env \<Rightarrow> go_value \<Rightarrow> err + action_result" where
  "capabilitiesAction env payload = Inr (empty_result\<lparr>an_action := ''agent.capabilities'', an_status := ''ok'',
     an_data := [(''actions'', JArr (map JStr (av_actions env)))]\<rparr>)"

definition inventoryAction :: "inventory_collector \<Rightarrow> agent_host agent_env \<Rightarrow> go_value \<Rightarrow> err + action_result" where
  "inventoryAction collector env payload = Inr (empty_result\<lparr>an_action := ''server.inventory'', an_status := ''ok'',
     an_data := inventory_data (inventory_collect collector (av_host env))\<rparr>)"

text \<open>\<open>MustDefineAction\<close> and \<open>MustRegister\<close> panic with the error.\<close>

definition must_add ::
  "(rune \<Rightarrow> rune) \<Rightarrow> (nat \<Rightarrow> string \<Rightarrow> bool) \<Rightarrow> string \<Rightarrow> ('h agent_env \<Rightarrow> go_value \<Rightarrow> err + action_result)
     \<Rightarrow> 'h registry \<Rightarrow> err + 'h registry" where
  "must_add ul fl name handler r =
     rbind (DefineAction ul fl EmptyPayload name (Some validateEmptyPayload) (Some handler)) (\<lambda>a. Register a r)"

definition NewInventoryRegistry ::
  "(rune \<Rightarrow> rune) \<Rightarrow> (nat \<Rightarrow> string \<Rightarrow> bool) \<Rightarrow> inventory_collector \<Rightarrow> err + agent_host registry" where
  "NewInventoryRegistry ul fl collector =
     rbind (must_add ul fl ''agent.health'' healthAction NewRegistry) (\<lambda>r1.
     rbind (must_add ul fl ''agent.capabilities'' capabilitiesAction r1) (\<lambda>r2.
     must_add ul fl ''server.inventory'' (inventoryAction collector) r2))"

definition DefaultRegistry :: "(rune \<Rightarrow> rune) \<Rightarrow> (nat \<Rightarrow> string \<Rightarrow> bool) \<Rightarrow> err + agent_host registry" where
  "DefaultRegistry ul fl = NewInventoryRegistry ul fl NewInventoryCollector"

section \<open>The server\<close>

text \<open>A response: its status and its body.\<close>

type_synonym http_response = "nat \<times> string"

definition error_body :: "string \<Rightarrow> string \<Rightarrow> string" where
  "error_body code message = json_text (JObj [(''error'', JObj [(''code'', JStr code), (''message'', JStr message)])])"

definition writeActionRequestError :: "nat \<Rightarrow> string \<Rightarrow> string \<Rightarrow> http_response" where
  "writeActionRequestError status code message = (status, error_body code message)"

definition writeInvalidJSON :: http_response where
  "writeInvalidJSON = writeActionRequestError 400 ''INVALID_JSON''
     ''Request body must contain one JSON object with a non-null payload object.''"

text \<open>A request: the headers as \<open>Header.Get\<close> gives them, the bytes of the body that arrive, and whether
  reading it breaks off there.\<close>

record agent_request =
  aq_idempotency_key :: string
  aq_content_type :: string
  aq_body :: string
  aq_broken :: bool

definition json_trim_left :: "string \<Rightarrow> string" where
  "json_trim_left s = dropWhile json_space s"

text \<open>The raw text of the only member of an object text: what stands between the colon after its key
  and the closing brace.\<close>

definition only_member_text :: "string \<Rightarrow> string" where
  "only_member_text body = (case json_trim_left (drop 1 body) of
     [] \<Rightarrow> []
   | q # rest \<Rightarrow> (case scan_string rest of
       None \<Rightarrow> []
     | Some (key, after_key) \<Rightarrow> trim_space (butlast (drop 1 (json_trim_left after_key)))))"

definition action_failure :: "err \<Rightarrow> http_response" where
  "action_failure e =
     (if err_is e ErrUnknownAction
      then writeActionRequestError 404 ''UNKNOWN_ACTION'' ''Action is not allowlisted.''
      else if err_is e ErrInvalidPayload
      then writeActionRequestError 400 ''INVALID_ACTION_PAYLOAD'' ''Payload does not match the action schema.''
      else writeActionRequestError 500 ''ACTION_ERROR'' ''Action execution failed.'')"

definition handleAction ::
  "(string \<Rightarrow> string option) \<Rightarrow> 'h registry \<Rightarrow> 'h \<Rightarrow> string \<Rightarrow> agent_request \<Rightarrow> http_response" where
  "handleAction media_type r host name rq =
     (if length (trim_space (aq_idempotency_key rq)) > maxIdempotencyKeyBytes
      then writeActionRequestError 400 ''INVALID_IDEMPOTENCY_KEY'' ''Idempotency-Key exceeds the 128 byte limit.''
      else if media_type (aq_content_type rq) \<noteq> Some ''application/json''
      then writeActionRequestError 415 ''UNSUPPORTED_MEDIA_TYPE'' ''Content-Type must be application/json.''
      else if length (aq_body rq) > maxActionRequestBytes
      then writeActionRequestError 413 ''PAYLOAD_TOO_LARGE'' ''Request body exceeds the 64 KiB limit.''
      else if aq_broken rq then writeInvalidJSON
      else (let body = trim_space (aq_body rq) in
        if body = [] \<or> hd body \<noteq> CHR 0x7B \<or> \<not> rejectDuplicateJSONKeys body then writeInvalidJSON
        else (case parse_json body of
          Some (JObj [(key, v)]) \<Rightarrow>
            (let payload = only_member_text body in
             if key \<noteq> ''payload'' \<or> payload = [] \<or> payload = ''null'' \<or> hd payload \<noteq> CHR 0x7B then writeInvalidJSON
             else if length payload > maxActionPayloadBytes
             then writeActionRequestError 413 ''PAYLOAD_TOO_LARGE'' ''Action payload exceeds the 64 KiB limit.''
             else (case execute_action r host name payload of
                 Inl e \<Rightarrow> action_failure e
               | Inr result \<Rightarrow> (200, an_encoded result)))
        | _ \<Rightarrow> writeInvalidJSON)))"

text \<open>The remaining handlers. \<open>/capabilities\<close> always lists the default registry.\<close>

definition handleHealth :: http_response where
  "handleHealth = (200, json_text (JObj [(''status'', JStr ''ok'')]))"

definition capabilities_text :: "string list \<Rightarrow> string" where
  "capabilities_text actions = json_object [(''actions'', json_array (map quoted actions))]"

definition DefaultCapabilities :: "string list" where
  "DefaultCapabilities = (case DefaultRegistry id (\<lambda>_ _. True) of Inl e \<Rightarrow> [] | Inr r \<Rightarrow> Actions r)"

definition handleCapabilities :: http_response where
  "handleCapabilities = (200, capabilities_text DefaultCapabilities)"

record build_info =
  bd_name :: string
  bd_version :: string
  bd_commit :: string
  bd_date :: string

definition build_info_of :: "string \<Rightarrow> string \<Rightarrow> string \<Rightarrow> build_info" where
  "build_info_of version commit date = \<lparr>bd_name = ''Motekar Panel'', bd_version = version, bd_commit = commit, bd_date = date\<rparr>"

definition build_info_text :: "build_info \<Rightarrow> string" where
  "build_info_text b = bd_name b @ '' '' @ bd_version b @ '' ('' @ bd_commit b @ '', '' @ bd_date b @ '')''"

definition handleVersion :: "build_info \<Rightarrow> http_response" where
  "handleVersion b = (200, json_object [(''name'', quoted (bd_name b)), (''version'', quoted (bd_version b)),
     (''commit'', quoted (bd_commit b)), (''date'', quoted (bd_date b))])"

section \<open>The client\<close>

text \<open>What the HTTP transport reports of a request: it was not sent, it was sent and failed, the body
  of the response broke off, or a response.\<close>

datatype http_outcome = NotSent string | SentFailed string | BodyFailed nat string | Answer nat string

text \<open>\<open>json.Unmarshal\<close> into \<open>ActionResult\<close>: keys match a field without regard to case, the last one
  counts, null leaves a field alone. \<open>fold_key\<close> folds as \<open>encoding/json\<close> does, where only two letters
  beyond ASCII fold into it.\<close>

definition fold_key :: "string \<Rightarrow> string" where
  "fold_key k = map lower_byte (concat (map (\<lambda>r. if r = 383 then ''s'' else if r = 8490 then ''k'' else encode_rune r) (runes k)))"

definition last_member :: "string \<Rightarrow> (string \<times> json) list \<Rightarrow> json option" where
  "last_member name kvs = map_option snd (List.find (\<lambda>kv. fold_key (fst kv) = name \<and> snd kv \<noteq> JNull) (rev kvs))"

definition string_member :: "string \<Rightarrow> (string \<times> json) list \<Rightarrow> string option" where
  "string_member name kvs =
     (if \<exists>kv \<in> set kvs. fold_key (fst kv) = name \<and> (case snd kv of JStr s \<Rightarrow> False | JNull \<Rightarrow> False | _ \<Rightarrow> True) then None
      else (case last_member name kvs of Some (JStr s) \<Rightarrow> Some s | _ \<Rightarrow> Some []))"

text \<open>A number in an \<open>any\<close> becomes a float, which can be out of range (\<open>float_ok\<close>).\<close>

fun any_ok :: "(nat \<Rightarrow> string \<Rightarrow> bool) \<Rightarrow> json \<Rightarrow> bool" where
  "any_ok fl (JNum n) = fl 64 n"
| "any_ok fl (JArr vs) = (\<forall>v \<in> set vs. any_ok fl v)"
| "any_ok fl (JObj kvs) = (\<forall>kv \<in> set kvs. any_ok fl (snd kv))"
| "any_ok fl v = True"

definition unmarshal_log :: "json \<Rightarrow> action_log option" where
  "unmarshal_log v = (case v of
     JNull \<Rightarrow> Some \<lparr>al_level = [], al_message = []\<rparr>
   | JObj kvs \<Rightarrow> (case (string_member ''level'' kvs, string_member ''message'' kvs) of
       (Some l, Some m) \<Rightarrow> Some \<lparr>al_level = l, al_message = m\<rparr> | _ \<Rightarrow> None)
   | _ \<Rightarrow> None)"

definition unmarshal_logs :: "(string \<times> json) list \<Rightarrow> action_log list option" where
  "unmarshal_logs kvs = (case last_member ''logs'' kvs of
     None \<Rightarrow> Some [] | Some (JArr vs) \<Rightarrow> those (map unmarshal_log vs) | _ \<Rightarrow> None)"

text \<open>Repeated keys: a map gains the members of each object and is emptied by null; a struct takes the
  fields of each object.\<close>

definition unmarshal_data :: "(nat \<Rightarrow> string \<Rightarrow> bool) \<Rightarrow> (string \<times> json) list \<Rightarrow> (string \<times> json) list option" where
  "unmarshal_data fl kvs = foldl (\<lambda>acc kv. case acc of None \<Rightarrow> None | Some d \<Rightarrow>
       if fold_key (fst kv) \<noteq> ''data'' then Some d
       else (case snd kv of JNull \<Rightarrow> Some []
         | JObj ms \<Rightarrow> if any_ok fl (JObj ms) then Some (d @ ms) else None
         | _ \<Rightarrow> None)) (Some []) kvs"

definition struct_members :: "string \<Rightarrow> (string \<times> json) list \<Rightarrow> (string \<times> json) list option" where
  "struct_members name kvs = foldl (\<lambda>acc kv. case acc of None \<Rightarrow> None | Some d \<Rightarrow>
       if fold_key (fst kv) \<noteq> name then Some d
       else (case snd kv of JNull \<Rightarrow> Some d | JObj ms \<Rightarrow> Some (d @ ms) | _ \<Rightarrow> None)) (Some []) kvs"

definition unmarshal_result :: "(nat \<Rightarrow> string \<Rightarrow> bool) \<Rightarrow> string \<Rightarrow> action_result option" where
  "unmarshal_result fl encoded = (case parse_json encoded of
     Some JNull \<Rightarrow> Some empty_result
   | Some (JObj kvs) \<Rightarrow>
       (case (string_member ''action'' kvs, string_member ''status'' kvs, unmarshal_data fl kvs, unmarshal_logs kvs) of
          (Some a, Some s, Some d, Some ls) \<Rightarrow>
            Some \<lparr>an_action = a, an_status = s, an_data = d, an_logs = ls, an_encoded = []\<rparr>
        | _ \<Rightarrow> None)
   | _ \<Rightarrow> None)"

definition error_code :: "string \<Rightarrow> string" where
  "error_code encoded = (case parse_json encoded of
     Some (JObj kvs) \<Rightarrow> (case Option.bind (struct_members ''error'' kvs) (string_member ''code'') of
         None \<Rightarrow> ''HTTP_ERROR'' | Some c \<Rightarrow> if c = [] then ''HTTP_ERROR'' else c)
   | _ \<Rightarrow> ''HTTP_ERROR'')"

definition action_body :: "string \<Rightarrow> string" where
  "action_body payload = ''{'' @ [CHR 0x22] @ ''payload'' @ [CHR 0x22] @ '':'' @ payload @ ''}''"

definition protocol_error :: "string \<Rightarrow> err + 'a" where
  "protocol_error what = Inl (ProtocolError (Plain what))"

text \<open>\<open>send\<close> gets the path and the request.\<close>

definition ExecuteJob ::
  "(nat \<Rightarrow> string \<Rightarrow> bool) \<Rightarrow> (string \<Rightarrow> agent_request \<Rightarrow> http_outcome) \<Rightarrow> string \<Rightarrow> string \<Rightarrow> string \<Rightarrow> err + action_result" where
  "ExecuteJob fl send name0 payload0 key0 =
     (let name = trim_space name0; payload = trim_space payload0; key = trim_space key0 in
      if name = [] then protocol_error ''agent action name is required''
      else if payload = [] \<or> length payload > maxActionPayloadBytes \<or> hd payload \<noteq> CHR 0x7B \<or> \<not> json_valid payload
      then protocol_error ''invalid agent action payload''
      else if length key > maxIdempotencyKeyBytes then protocol_error ''invalid agent action idempotency key''
      else (case send (''/actions/'' @ PathEscape name)
             \<lparr>aq_idempotency_key = key, aq_content_type = ''application/json'', aq_body = action_body payload, aq_broken = False\<rparr> of
          NotSent e \<Rightarrow> Inl (Wrapped ''request agent action: '' (Plain e) [])
        | SentFailed e \<Rightarrow> Inl (UncertainActionError (Plain e))
        | BodyFailed status e \<Rightarrow> Inl (UncertainActionError (Plain e))
        | Answer status encoded \<Rightarrow>
            if length encoded > maxAgentResponseBytes then protocol_error ''agent action response exceeds size limit''
            else if status \<noteq> 200 then Inl (RemoteActionError status (error_code encoded))
            else (case unmarshal_result fl encoded of
                None \<Rightarrow> protocol_error ''agent returned malformed action result''
              | Some result \<Rightarrow>
                  if an_action result \<noteq> name \<or> an_status result \<noteq> ''ok''
                  then protocol_error ''agent returned an invalid action result''
                  else Inr result)))"

definition client_execute ::
  "(nat \<Rightarrow> string \<Rightarrow> bool) \<Rightarrow> (string \<Rightarrow> agent_request \<Rightarrow> http_outcome) \<Rightarrow> string \<Rightarrow> string \<Rightarrow> err + action_result" where
  "client_execute fl send name payload = ExecuteJob fl send name payload []"

text \<open>A health answer is taken to be one JSON value.\<close>

definition client_health :: "(string \<Rightarrow> http_outcome) \<Rightarrow> err option" where
  "client_health get = (case get ''/healthz'' of
     NotSent e \<Rightarrow> Some (Wrapped ''request agent /healthz: '' (Plain e) [])
   | SentFailed e \<Rightarrow> Some (Wrapped ''request agent /healthz: '' (Plain e) [])
   | BodyFailed status e \<Rightarrow>
       if status \<noteq> 200 then Some (Plain (''agent /healthz returned HTTP '' @ digits status))
       else Some (Wrapped ''decode agent /healthz response: '' (Plain e) [])
   | Answer status body \<Rightarrow>
       if status \<noteq> 200 then Some (Plain (''agent /healthz returned HTTP '' @ digits status))
       else (case parse_json body of
           Some (JObj kvs) \<Rightarrow> (case string_member ''status'' kvs of
               None \<Rightarrow> Some (Wrapped ''decode agent /healthz response: '' (Plain ''json: cannot unmarshal'') [])
             | Some s \<Rightarrow> if s = ''ok'' then None else Some (Plain (''agent health status is '' @ quoted s)))
         | Some JNull \<Rightarrow> Some (Plain (''agent health status is '' @ quoted []))
         | _ \<Rightarrow> Some (Wrapped ''decode agent /healthz response: '' (Plain ''invalid'') [])))"

section \<open>Client and server together\<close>

text \<open>\<open>url.PathUnescape\<close> of a well-formed segment.\<close>

fun path_unescape :: "string \<Rightarrow> string" where
  "path_unescape (c # a # b # s) =
     (if c = CHR 0x25
      then (case (hex_val a, hex_val b) of (Some x, Some y) \<Rightarrow> char_of (16 * x + y) # path_unescape s
            | _ \<Rightarrow> c # path_unescape (a # b # s))
      else c # path_unescape (a # b # s))"
| "path_unescape s = s"

text \<open>The mux: one segment that is no dot segment selects \<open>handleAction\<close>; the others end at a 404 page.\<close>

definition serve_action :: "(string \<Rightarrow> string option) \<Rightarrow> 'h registry \<Rightarrow> 'h \<Rightarrow> string \<Rightarrow> agent_request \<Rightarrow> http_outcome" where
  "serve_action media_type r host path rq =
     (let segment = drop 9 path in
      if has_prefix path ''/actions/'' \<and> segment \<noteq> [] \<and> CHR ''/'' \<notin> set segment \<and> segment \<noteq> ''.'' \<and> segment \<noteq> ''..''
      then (case handleAction media_type r host (path_unescape segment) rq of (status, body) \<Rightarrow> Answer status body)
      else Answer 404 (''404 page not found'' @ [CHR 0x0A]))"

definition panel_call ::
  "(rune \<Rightarrow> rune) \<Rightarrow> (nat \<Rightarrow> string \<Rightarrow> bool) \<Rightarrow> (string \<Rightarrow> string option) \<Rightarrow> agent_host \<Rightarrow> string \<Rightarrow> string \<Rightarrow> string
     \<Rightarrow> err + action_result" where
  "panel_call ul fl media_type host name payload key =
     rbind (DefaultRegistry ul fl) (\<lambda>r. ExecuteJob fl (serve_action media_type r host) name payload key)"

lemma upper_hex_val: "n < 16 \<Longrightarrow> hex_val (upper_hex n) = Some n"
proof -
  assume n: "n < 16"
  then have "(48 + n) mod 256 = 48 + n" "(55 + n) mod 256 = 55 + n" by simp_all
  then show ?thesis using n by (auto simp: upper_hex_def hex_val_def is_digit_def)
qed

lemma byte_less: "byte c < 256"
  by (rule nat_of_char_less_256)

lemma unescape_skip: "c \<noteq> CHR 0x25 \<Longrightarrow> path_unescape (c # s) = c # path_unescape s"
  by (cases s rule: path_unescape.cases) auto

lemma unescape_escape: "path_unescape (PathEscape s) = s"
proof (induction s)
  case Nil
  then show ?case by (simp add: PathEscape_def)
next
  case (Cons c s)
  have b: "byte c div 16 < 16" "byte c mod 16 < 16" using byte_less[of c] by (simp_all add: less_mult_imp_div_less)
  show ?case
  proof (cases "unreserved c \<or> c \<in> set ''$&+:=@''")
    case True
    then have "c \<noteq> CHR 0x25" by (auto simp: unreserved_def)
    then show ?thesis using True Cons by (simp add: PathEscape_def unescape_skip)
  next
    case False
    have "16 * (byte c div 16) + byte c mod 16 = byte c" by simp
    then show ?thesis using False Cons upper_hex_val[OF b(1)] upper_hex_val[OF b(2)]
      by (simp add: PathEscape_def percent_def)
  qed
qed

lemma default_registry:
  "DefaultRegistry ul fl = Inr
     [(''agent.health'', typed_handler fl EmptyPayload ''agent.health'' validateEmptyPayload healthAction),
      (''agent.capabilities'', typed_handler fl EmptyPayload ''agent.capabilities'' validateEmptyPayload capabilitiesAction),
      (''server.inventory'', typed_handler fl EmptyPayload ''server.inventory'' validateEmptyPayload (inventoryAction NewInventoryCollector))]"
proof -
  have "trim_space ''agent.health'' = ''agent.health''" "trim_space ''agent.capabilities'' = ''agent.capabilities''"
    "trim_space ''server.inventory'' = ''server.inventory''"
    by (rule trim_space_plain; simp add: plain_def)+
  then show ?thesis
    by (simp add: DefaultRegistry_def NewInventoryRegistry_def must_add_def DefineAction_def Register_def NewRegistry_def
        Let_def EmptyPayload_def)
qed

text \<open>A text before something that ends a value is scanned as it is alone.\<close>

lemma scan_string_append: "scan_string s = Some (x, r) \<Longrightarrow> scan_string (s @ t) = Some (x, r @ t)"
proof (induction s arbitrary: x r rule: scan_string.induct)
  case (2 c s)
  have h4: "hex4 s' \<noteq> None \<Longrightarrow> hex4 (s' @ t) = hex4 s' \<and> take 4 (s' @ t) = take 4 s' \<and> drop 4 (s' @ t) = drop 4 s' @ t" for s'
    by (auto simp: hex4_def split: list.splits)
  show ?case
  proof (cases "byte c = 92")
    case True
    then obtain e s' where s: "s = e # s'" using "2.prems" by (cases s) (auto split: if_splits)
    show ?thesis
    proof (cases "simple_escape e")
      case t: True
      then show ?thesis using "2.prems" "2.IH"(1)[OF _ _ True s t] True s by (auto split: if_splits)
    next
      case f: False
      then show ?thesis using "2.prems" "2.IH"(2)[OF _ _ True s f] h4[of s'] True s by (auto split: if_splits)
    qed
  next
    case False
    then show ?thesis using "2.prems" "2.IH"(3) by (auto split: if_splits)
  qed
qed simp

lemma next_token_ends:
  assumes "next_token c s = Some (k, r)" and "ends_value t"
  shows "next_token c (s @ t) = Some (k, r @ t)"
proof -
  have w: "drop n (s @ t) = drop n s @ t \<and> has_prefix (s @ t) p" if pre: "has_prefix s p" and len: "length p = n" for p n
  proof -
    obtain u where "s = p @ u" using pre unfolding has_prefix_append by blast
    then show ?thesis using len by (simp add: has_prefix_append)
  qed
  have n: "c \<notin> {CHR ''t'', CHR ''f'', CHR ''n''}" if "scan_number (c # s) = Some x" for x
    using that by (auto simp: scan_number_def scan_unsigned_def scan_int_def is_digit_def split: if_splits)
  show ?thesis
  proof (cases "byte c \<in> {123, 125, 91, 93, 58, 44}")
    case True
    then show ?thesis using assms(1) by (auto simp: next_token_def)
  next
    case punct: False
    show ?thesis
    proof (cases "byte c = 34")
      case True
      then show ?thesis using assms(1) scan_string_append by (fastforce simp: next_token_def)
    next
      case q: False
      consider "has_prefix (c # s) ''true''" | "has_prefix (c # s) ''false''" | "has_prefix (c # s) ''null''"
        | (num) "\<not> has_prefix (c # s) ''true''" "\<not> has_prefix (c # s) ''false''" "\<not> has_prefix (c # s) ''null''" by blast
      then show ?thesis
      proof cases
        case num
        then obtain d where d: "scan_number (c # s) = Some (d, r)" "k = TNum d"
          using assms(1) punct q by (auto simp: next_token_def)
        have "scan_number (c # s @ t) = Some (d, r @ t)" using scan_number_ends[OF assms(2) d(1)] by simp
        then show ?thesis using d n[OF d(1)] punct q by (simp add: next_token_def)
      qed (use assms(1) punct q w[of "''rue''" 3] w[of "''alse''" 4] w[of "''ull''" 3] in \<open>auto simp: next_token_def\<close>)
    qed
  qed
qed

lemma tokens_ends: "tokens s = Some ts \<Longrightarrow> ends_value t \<Longrightarrow> tokens (s @ t) = prepend ts (tokens t)"
proof (induction s arbitrary: ts rule: tokens.induct)
  case 1
  then show ?case by (cases "tokens t") (simp_all add: prepend_def)
next
  case (2 c s)
  show ?case
  proof (cases "json_space c")
    case True
    then show ?thesis using 2 by simp
  next
    case False
    then obtain k r us where k: "next_token c s = Some (k, r)" "tokens r = Some us" "ts = k # us"
      using "2.prems" by (auto split: option.splits)
    have "tokens (r @ t) = prepend us (tokens t)" using "2.IH"(2)[OF False k(1) refl k(2) "2.prems"(2)] .
    then show ?thesis using False next_token_ends[OF k(1) "2.prems"(2)] k(3)
      by (simp add: prepend_one prepend_prepend)
  qed
qed

text \<open>Only an empty pair of braces reads as the empty object: once there is anything else, the root
  becomes something else.\<close>

fun not_braces :: "pstate \<Rightarrow> bool" where
  "not_braces (PValue st) = (st \<noteq> [])"
| "not_braces (PObj0 st) = (st \<noteq> [])"
| "not_braces (PKey kvs st) = (st \<noteq> [] \<or> kvs \<noteq> [])"
| "not_braces (PObjNext kvs st) = (st \<noteq> [] \<or> kvs \<noteq> [])"
| "not_braces (PDone v) = (v \<noteq> JObj [])"
| "not_braces p = True"

lemma not_braces_complete: "st \<noteq> [] \<or> v \<noteq> JObj [] \<Longrightarrow> not_braces (complete v st)"
  by (cases "(v, st)" rule: complete.cases) auto

lemma not_braces_start: "start_value t st = Some q \<Longrightarrow> st \<noteq> [] \<or> t \<noteq> TOpenObj \<Longrightarrow> not_braces q"
  by (auto simp: start_value_def not_braces_complete split: token.splits if_splits)

lemma not_braces_step: "pstep p t = Some q \<Longrightarrow> not_braces p \<Longrightarrow> not_braces q"
  by (induction p t rule: pstep.induct)
    (auto simp: not_braces_complete not_braces_start split: token.splits if_splits)

lemma not_braces_steps: "psteps p ts = Some q \<Longrightarrow> not_braces p \<Longrightarrow> not_braces q"
  by (induction ts arbitrary: p) (auto split: option.splits dest: not_braces_step)

lemma empty_object_tokens:
  assumes "parse_json s = Some (JObj [])"
  shows "tokens s = Some [TOpenObj, TCloseObj]"
proof -
  obtain ts where ts: "tokens s = Some ts" "psteps (PValue []) ts = Some (PDone (JObj []))"
    using assms by (auto simp: parse_json_def parse_tokens_def split: option.splits pstate.splits)
  have no: "psteps q us \<noteq> Some (PDone (JObj []))" if "not_braces q" for q us
    using not_braces_steps[of q us] that by fastforce
  obtain t us where t: "ts = t # us" using ts(2) by (cases ts) auto
  have o: "t = TOpenObj"
  proof (rule ccontr)
    assume "t \<noteq> TOpenObj"
    then show False using ts(2) t no not_braces_start[of t "[]"] by (auto split: option.splits)
  qed
  have u: "psteps (PObj0 []) us = Some (PDone (JObj []))" using ts(2) t o by (simp add: start_value_def max_depth_def)
  then obtain t2 us2 where t2: "us = t2 # us2" by (cases us) auto
  have c: "t2 = TCloseObj" using u t2 no by (cases t2) auto
  then have "us2 = []" using u t2 by (cases us2) auto
  then show ?thesis using ts t t2 o c by simp
qed

text \<open>The body of the request.\<close>

lemma plain_ends: "trim_space (action_body p) = action_body p"
  by (rule trim_space_plain) (simp_all add: action_body_def plain_def)

lemma only_member_body: "trim_space p = p \<Longrightarrow> only_member_text (action_body p) = p"
  by (simp add: only_member_text_def action_body_def json_trim_left_def json_space_def simple_escape_def)

lemma braces_body:
  assumes "parse_json p = Some (JObj [])"
  shows "parse_json (action_body p) = Some (JObj [(''payload'', JObj [])])"
proof -
  have e: "ends_value ''}''" by (simp add: ends_value_def)
  have w: "tokens ''}'' = Some [TCloseObj]" by (simp add: json_space_def next_token_def)
  have "tokens (p @ ''}'') = Some [TOpenObj, TCloseObj, TCloseObj]"
    using tokens_ends[OF empty_object_tokens[OF assms] e] w by simp
  moreover have "tokens (CHR 0x22 # ''payload'' @ CHR 0x22 # t) = map_option ((#) (TStr ''payload'')) (tokens t)" for t
    by (simp add: json_space_def next_token_def simple_escape_def)
  ultimately have "tokens (action_body p) = Some [TOpenObj, TStr ''payload'', TColon, TOpenObj, TCloseObj, TCloseObj]"
    by (simp add: action_body_def tokens_punct prepend_one del: tokens.simps)
  moreover have "unquote ''payload'' = ''payload''" by (simp add: encode_rune_def norm_rune_def valid_rune_def char_of_eq)
  ultimately show ?thesis by (simp add: parse_json_def parse_tokens_def start_value_def max_depth_def)
qed

lemma empty_struct_names: "validateJSONFieldNames (KStruct []) v \<longleftrightarrow> v = JObj []"
proof (cases v)
  case (JObj kvs)
  then show ?thesis by (cases kvs) auto
qed auto

lemma decode_empty_payload:
  assumes "trim_space p = p" and "hd p = CHR 0x7B" and "p \<noteq> []"
  shows "decodeActionPayload fl EmptyPayload p = Inr x \<longleftrightarrow> parse_json p = Some (JObj []) \<and> x = VStruct []"
proof -
  have "p \<noteq> ''null''" using assms(2) by auto
  then show ?thesis using assms
    by (auto simp: decodeActionPayload_def EmptyPayload_def rejectDuplicateJSONKeys_def Let_def empty_struct_names
        simp del: validateJSONFieldNames.simps split: option.splits if_splits)
qed

text \<open>What the three actions answer.\<close>

definition allowlist :: "string list" where
  "allowlist = [''agent.health'', ''agent.capabilities'', ''server.inventory'']"

definition action_data :: "agent_host \<Rightarrow> string \<Rightarrow> (string \<times> json) list" where
  "action_data host name =
     (if name = ''agent.health'' then [(''status'', JStr ''ok'')]
      else if name = ''agent.capabilities''
      then [(''actions'', JArr [JStr ''agent.capabilities'', JStr ''agent.health'', JStr ''server.inventory''])]
      else inventory_data (inventory_collect NewInventoryCollector host))"

definition sent_result :: "agent_host \<Rightarrow> string \<Rightarrow> action_result" where
  "sent_result host name = empty_result\<lparr>an_action := name, an_status := ''ok'', an_data := action_data host name\<rparr>"

definition sendable :: "action_result \<Rightarrow> bool" where
  "sendable r = (encodable (JObj (an_data r)) \<and> length (result_text r) \<le> maxActionResultBytes)"

lemma encode_sent: "encodeActionResult (sent_result host name) =
    (if sendable (sent_result host name) then Inr (result_text (sent_result host name)) else Inl ErrInvalidResult)"
proof -
  have "trim_space ''ok'' = ''ok''" by (rule trim_space_plain; simp add: plain_def)
  then show ?thesis by (auto simp: encodeActionResult_def sent_result_def sendable_def empty_result_def)
qed

lemma actions_sorted: "Actions [(''agent.health'', h1), (''agent.capabilities'', h2), (''server.inventory'', h3)]
    = [''agent.capabilities'', ''agent.health'', ''server.inventory'']"
  by (simp add: Actions_def less_eq_char_def)

end
