(* ===== verification/AgentCalls.thy ===== *)
theory AgentCalls
  imports AgentRpc
begin

text \<open>
  A call of an agent action from the panel, through the client of \<open>transport.go\<close>, the handler of
  \<open>server.go\<close> and the registry of \<open>actions.go\<close>, and what comes back of it.
\<close>

section \<open>The agent's side\<close>

abbreviation default_actions :: "(nat \<Rightarrow> string \<Rightarrow> bool) \<Rightarrow> agent_host registry" where
  "default_actions fl \<equiv>
     [(''agent.health'', typed_handler fl EmptyPayload ''agent.health'' validateEmptyPayload healthAction),
      (''agent.capabilities'', typed_handler fl EmptyPayload ''agent.capabilities'' validateEmptyPayload capabilitiesAction),
      (''server.inventory'', typed_handler fl EmptyPayload ''server.inventory'' validateEmptyPayload (inventoryAction NewInventoryCollector))]"

lemma sent_name [simp]: "(sent_result host name)\<lparr>an_action := name\<rparr> = sent_result host name"
  by (simp add: sent_result_def)

lemma execute_default:
  assumes "trim_space p = p" "p \<noteq> []" "hd p = CHR 0x7B"
  shows "execute_action (default_actions fl) host name p = Inr res \<longleftrightarrow>
    name \<in> set allowlist \<and> parse_json p = Some (JObj []) \<and> sendable (sent_result host name)
    \<and> res = (sent_result host name)\<lparr>an_encoded := result_text (sent_result host name)\<rparr>"
proof -
  have h: "typed_handler fl EmptyPayload n validateEmptyPayload f \<lparr>av_actions = as, av_host = host\<rparr> p = Inr res \<longleftrightarrow>
      parse_json p = Some (JObj []) \<and> sendable (sent_result host n)
      \<and> res = (sent_result host n)\<lparr>an_encoded := result_text (sent_result host n)\<rparr>"
    if f: "f \<lparr>av_actions = as, av_host = host\<rparr> (VStruct []) = Inr (sent_result host n)" for n f as
    using decode_empty_payload[OF assms(1,3,2)] f
    by (auto simp: typed_handler_def rbind_eq_Inr validateEmptyPayload_def Let_def encode_sent split: if_splits)
  have 1: "healthAction env v = Inr (sent_result host ''agent.health'')" for env :: "agent_host agent_env" and v
    by (simp add: healthAction_def sent_result_def action_data_def)
  have 2: "capabilitiesAction \<lparr>av_actions = Actions (default_actions fl), av_host = host\<rparr> v = Inr (sent_result host ''agent.capabilities'')" for v
    by (simp add: capabilitiesAction_def sent_result_def action_data_def actions_sorted)
  have 3: "inventoryAction NewInventoryCollector \<lparr>av_actions = as, av_host = host\<rparr> v = Inr (sent_result host ''server.inventory'')" for as v
    by (simp add: inventoryAction_def sent_result_def action_data_def)
  show ?thesis
  proof (cases "name \<in> set allowlist")
    case True
    then consider "name = ''agent.health''" | "name = ''agent.capabilities''" | "name = ''server.inventory''"
      by (auto simp: allowlist_def)
    then show ?thesis
      by cases (simp_all add: execute_action_def allowlist_def h 1 2 3)
  next
    case False
    then show ?thesis by (auto simp: execute_action_def allowlist_def)
  qed
qed

definition call_request :: "string \<Rightarrow> string \<Rightarrow> agent_request" where
  "call_request p k = \<lparr>aq_idempotency_key = k, aq_content_type = ''application/json'', aq_body = action_body p, aq_broken = False\<rparr>"

lemma failure_not_ok: "fst (action_failure e) \<noteq> 200" "fst writeInvalidJSON \<noteq> 200" "fst (writeActionRequestError st c m) = st"
  by (simp_all add: action_failure_def writeInvalidJSON_def writeActionRequestError_def)

lemma handle_answers:
  assumes "trim_space p = p" "p \<noteq> []" "hd p = CHR 0x7B" "length p \<le> maxActionPayloadBytes"
    and "length (trim_space k) \<le> maxIdempotencyKeyBytes" "media_type ''application/json'' = Some ''application/json''"
  shows "handleAction media_type (default_actions fl) host name (call_request p k) = (200, b) \<longleftrightarrow>
    name \<in> set allowlist \<and> parse_json p = Some (JObj []) \<and> sendable (sent_result host name)
    \<and> b = result_text (sent_result host name)"
proof -
  let ?r = "default_actions fl"
  let ?call = "case execute_action ?r host name p of Inl e \<Rightarrow> action_failure e | Inr result \<Rightarrow> (200, an_encoded result)"
  have ok: "?call = (200, b) \<longleftrightarrow> name \<in> set allowlist \<and> parse_json p = Some (JObj []) \<and> sendable (sent_result host name)
      \<and> b = result_text (sent_result host name)"
  proof (cases "execute_action ?r host name p")
    case (Inl e)
    then have "action_failure e \<noteq> (200, b)" using failure_not_ok(1)[of e] by auto
    then show ?thesis using execute_default[OF assms(1-3), of fl host name] Inl by auto
  next
    case (Inr res)
    then have "name \<in> set allowlist \<and> parse_json p = Some (JObj []) \<and> sendable (sent_result host name)
        \<and> res = (sent_result host name)\<lparr>an_encoded := result_text (sent_result host name)\<rparr>"
      using execute_default[OF assms(1-3), of fl host name res] by blast
    then show ?thesis using Inr by auto
  qed
  have len: "length (aq_body (call_request p k)) \<le> maxActionRequestBytes"
    using assms(4) by (simp add: call_request_def action_body_def maxActionRequestBytes_def)
  have nn: "p \<noteq> ''null''" using assms(3) by auto
  let ?body = "action_body p"
  have hb: "?body \<noteq> []" "hd ?body = CHR 0x7B" by (simp_all add: action_body_def)
  have pay: "only_member_text ?body = p" by (rule only_member_body[OF assms(1)])
  have unfolded: "handleAction media_type ?r host name (call_request p k) =
     (if \<not> rejectDuplicateJSONKeys ?body then writeInvalidJSON
      else (case parse_json ?body of
          Some (JObj [(key, v)]) \<Rightarrow> if key \<noteq> ''payload'' then writeInvalidJSON else ?call
        | _ \<Rightarrow> writeInvalidJSON))"
    using assms(2,3,4,5,6) len nn hb
    by (simp add: handleAction_def call_request_def plain_ends pay Let_def split: option.split json.split list.split)
  have nw: "writeInvalidJSON \<noteq> (200, b)" using failure_not_ok(2) by (metis fst_conv)
  show ?thesis
  proof
    assume h: "handleAction media_type ?r host name (call_request p k) = (200, b)"
    then have "?call = (200, b)" unfolding unfolded
      using nw by (auto split: if_splits option.splits json.splits list.splits)
    then show "name \<in> set allowlist \<and> parse_json p = Some (JObj []) \<and> sendable (sent_result host name)
      \<and> b = result_text (sent_result host name)" unfolding ok .
  next
    assume c: "name \<in> set allowlist \<and> parse_json p = Some (JObj []) \<and> sendable (sent_result host name)
      \<and> b = result_text (sent_result host name)"
    then have "parse_json ?body = Some (JObj [(''payload'', JObj [])])" using braces_body by blast
    then show "handleAction media_type ?r host name (call_request p k) = (200, b)"
      using c ok unfolding unfolded by (simp add: rejectDuplicateJSONKeys_def)
  qed
qed

section \<open>The panel's side\<close>

definition data_norm :: "(string \<times> json) list \<Rightarrow> (string \<times> json) list" where
  "data_norm d = (case json_norm (JObj d) of JObj ms \<Rightarrow> ms | _ \<Rightarrow> [])"

lemma json_norm_data: "json_norm (JObj d) = JObj (data_norm d)"
  by (simp add: data_norm_def)

definition received_result :: "agent_host \<Rightarrow> string \<Rightarrow> action_result" where
  "received_result host name = empty_result\<lparr>an_action := name, an_status := ''ok'', an_data := data_norm (action_data host name)\<rparr>"

lemma runes_back: "ascii s \<Longrightarrow> of_runes (runes s) = s"
  by (simp add: runes_ascii of_runes_bytes)

lemma allowlist_ascii: "name \<in> set allowlist \<Longrightarrow> ascii name"
  by (auto simp: allowlist_def ascii_def)

lemma inventory_ok: "encodable (JObj (inventory_data i)) \<Longrightarrow> json_ok 2 (JObj (inventory_data i))"
proof -
  have strs: "json_ok (Suc 0) (json_strings xs)" for xs
    using json_ok.intros(5)[of "map JStr (the xs)" 0]
    by (cases xs) (auto simp: json_strings_def intro: json_ok.intros)
  have os: "json_ok (Suc 0) (JObj [(a, JStr x), (b, JStr y), (c, JStr z)])" for a b c x y z
    using json_ok.intros(6)[of "[(a, JStr x), (b, JStr y), (c, JStr z)]" 0] by (auto intro: json_ok.intros)
  assume e: "encodable (JObj (inventory_data i))"
  have "\<forall>kv \<in> set (inventory_data i). json_ok (Suc 0) (snd kv)"
    using e by (auto simp: inventory_data_def strs os intro: json_ok.intros)
  then have "json_ok (Suc (Suc 0)) (JObj (inventory_data i))" by (rule json_ok.intros)
  then show ?thesis by (simp add: numeral_2_eq_2)
qed

lemma action_data_ok:
  assumes "encodable (JObj (action_data host name))"
  shows "json_ok 2 (JObj (action_data host name))"
proof -
  have arr: "json_ok (Suc 0) (JArr (map JStr xs))" for xs
    using json_ok.intros(5)[of "map JStr xs" 0] by (auto intro: json_ok.intros)
  have one: "json_ok (Suc (Suc 0)) (JObj [(k, v)])" if "json_ok (Suc 0) v" for k v
    by (intro json_ok.intros) (use that in simp)
  consider "name = ''agent.health''" | "name = ''agent.capabilities''"
    | "name \<noteq> ''agent.health''" "name \<noteq> ''agent.capabilities''" by blast
  then show ?thesis
  proof cases
    case 1
    then show ?thesis using one[OF json_ok.intros(3)] by (simp add: action_data_def numeral_2_eq_2)
  next
    case 2
    then show ?thesis
      using one[OF arr[of "[''agent.capabilities'', ''agent.health'', ''server.inventory'']"], of "''actions''"]
      by (simp add: action_data_def numeral_2_eq_2)
  next
    case 3
    then show ?thesis using assms inventory_ok by (simp add: action_data_def del: encodable.simps)
  qed
qed

lemma fold_ascii: "ascii s \<Longrightarrow> fold_key s = map lower_byte s"
proof -
  assume a: "ascii s"
  have e: "map (\<lambda>r. if r = 383 then ''s'' else if r = 8490 then ''k'' else encode_rune r) (map byte s) = map encode_rune (map byte s)"
    using a by (auto simp: ascii_def)
  have "concat (map encode_rune (map byte s)) = s" using of_runes_bytes[OF a] by (simp add: of_runes_def)
  then show ?thesis unfolding fold_key_def runes_ascii[OF a] e by (rule arg_cong)
qed

lemma result_text_parses:
  assumes "ascii name" and "encodable (JObj (action_data host name))"
  shows "parse_json (result_text (sent_result host name)) = Some (JObj
     [(''action'', JStr name), (''status'', JStr ''ok''), (''data'', JObj (data_norm (action_data host name)))])"
proof -
  let ?d = "action_data host name"
  have ne: "?d \<noteq> []" by (simp add: action_data_def inventory_data_def)
  let ?ms = "[(''action'', quoted name, JStr (of_runes (runes name))), (''status'', quoted ''ok'', JStr (of_runes (runes ''ok''))),
      (''data'', json_text (JObj ?d), json_norm (JObj ?d))]"
  have "reads_as 2 (json_text (JObj ?d)) (json_norm (JObj ?d))"
    using json_text_reads[OF action_data_ok[OF assms(2)]] .
  then have "\<forall>(k, p, v) \<in> set ?ms. reads_as 2 p v"
    using reads_as_string by (auto simp del: runes.simps json_text.simps json_norm.simps)
  from reads_as_object[OF this] have r: "reads_as 3 (json_object (map (\<lambda>(k, p, v). (k, p)) ?ms)) (JObj (map (\<lambda>(k, p, v). (key_norm k, v)) ?ms))"
    by simp
  have t: "json_object (map (\<lambda>(k, p, v). (k, p)) ?ms) = result_text (sent_result host name)"
    using ne by (simp add: result_text_def sent_result_def empty_result_def)
  have "key_norm ''action'' = ''action''" "key_norm ''status'' = ''status''" "key_norm ''data'' = ''data''"
      "of_runes (runes ''ok'') = ''ok''"
    unfolding key_norm_def by (rule runes_back; simp add: ascii_def)+
  then show ?thesis using reads_as_parse[OF r] unfolding t unfolding json_norm_data
    by (simp add: max_depth_def runes_back[OF assms(1)])
qed

lemma client_reads:
  assumes "ascii name" and "encodable (JObj (action_data host name))"
  shows "unmarshal_result fl (result_text (sent_result host name)) =
    (if any_ok fl (JObj (data_norm (action_data host name))) then Some (received_result host name) else None)"
proof -
  have k: "fold_key ''action'' = ''action''" "fold_key ''status'' = ''status''" "fold_key ''data'' = ''data''"
    by (simp_all add: fold_ascii ascii_def lower_byte_def)
  show ?thesis unfolding unmarshal_result_def result_text_parses[OF assms]
    by (simp add: string_member_def last_member_def unmarshal_data_def unmarshal_logs_def k received_result_def empty_result_def)
qed

section \<open>The call\<close>

lemma path_segment:
  assumes "name \<in> set allowlist"
  shows "serve_action media_type r host (''/actions/'' @ PathEscape name) rq =
    (case handleAction media_type r host name rq of (status, body) \<Rightarrow> Answer status body)"
proof -
  have "PathEscape name = name"
    using assms by (auto simp: allowlist_def PathEscape_def unreserved_def)
  then show ?thesis using assms unescape_escape[of name]
    by (auto simp: serve_action_def Let_def allowlist_def)
qed

lemma drop_actions: "drop 9 (''/actions/'' @ s) = s"
  by simp

text \<open>What passes the checks of the client, and what the server answers to it.\<close>

definition valid_call :: "string \<Rightarrow> string \<Rightarrow> string \<Rightarrow> bool" where
  "valid_call n p k = (n \<noteq> [] \<and> p \<noteq> [] \<and> length p \<le> maxActionPayloadBytes \<and> hd p = CHR 0x7B \<and> json_valid p
     \<and> length k \<le> maxIdempotencyKeyBytes)"

definition sent :: "agent_host \<Rightarrow> string \<Rightarrow> string \<Rightarrow> bool" where
  "sent host n p = (n \<in> set allowlist \<and> parse_json p = Some (JObj []) \<and> sendable (sent_result host n))"

lemma request_answered:
  assumes "media_type ''application/json'' = Some ''application/json''" and "valid_call n p k"
    and "trim_space p = p" and "trim_space k = k"
  shows "serve_action media_type (default_actions fl) host (''/actions/'' @ PathEscape n) (call_request p k) = Answer 200 b
    \<longleftrightarrow> sent host n p \<and> b = result_text (sent_result host n)"
    (is "?send = _ \<longleftrightarrow> ?sent \<and> ?b")
proof -
  have h: "handleAction media_type (default_actions fl) host n (call_request p k) = (200, b) \<longleftrightarrow> ?sent \<and> ?b"
    using handle_answers[of p k media_type fl host n b] assms by (simp add: valid_call_def sent_def)
  show ?thesis
  proof
    assume "?send = Answer 200 b"
    then have "handleAction media_type (default_actions fl) host n (call_request p k) = (200, b)"
      by (auto simp: serve_action_def Let_def unescape_escape split: if_splits prod.splits)
    then show "?sent \<and> ?b" using h by simp
  next
    assume c: "?sent \<and> ?b"
    then have "n \<in> set allowlist" by (simp add: sent_def)
    from path_segment[OF this, of media_type _ host] show "?send = Answer 200 b" using h c by (auto split: prod.splits)
  qed
qed

text \<open>What the client makes of the answer.\<close>

lemma answer_received:
  assumes "sent host n p"
  shows "length (result_text (sent_result host n)) \<le> maxAgentResponseBytes"
    and "unmarshal_result fl (result_text (sent_result host n)) =
      (if any_ok fl (JObj (data_norm (action_data host n))) then Some (received_result host n) else None)"
proof -
  have "sendable (sent_result host n)" and n: "n \<in> set allowlist" using assms by (simp_all add: sent_def)
  then have fits: "length (result_text (sent_result host n)) \<le> maxAgentResponseBytes \<and> encodable (JObj (an_data (sent_result host n)))"
    by (simp add: sendable_def maxActionResultBytes_def maxAgentResponseBytes_def)
  then show "length (result_text (sent_result host n)) \<le> maxAgentResponseBytes" by simp
  have "encodable (JObj (action_data host n))" using fits by (simp add: sent_result_def)
  then show "unmarshal_result fl (result_text (sent_result host n)) =
      (if any_ok fl (JObj (data_norm (action_data host n))) then Some (received_result host n) else None)"
    using client_reads[OF allowlist_ascii] n by blast
qed

lemma panel_call_iff:
  assumes "media_type ''application/json'' = Some ''application/json''"
  shows "panel_call ul fl media_type host name payload key = Inr res \<longleftrightarrow>
    (let n = trim_space name; p = trim_space payload in
       n \<in> set allowlist \<and> p \<noteq> [] \<and> hd p = CHR 0x7B \<and> parse_json p = Some (JObj [])
       \<and> length p \<le> maxActionPayloadBytes \<and> length (trim_space key) \<le> maxIdempotencyKeyBytes
       \<and> sendable (sent_result host n) \<and> any_ok fl (JObj (data_norm (action_data host n)))
       \<and> res = received_result host n)"
proof -
  define n p k where "n = trim_space name" and "p = trim_space payload" and "k = trim_space key"
  have t: "trim_space p = p" "trim_space k = k" by (simp_all add: p_def k_def)
  let ?call = "panel_call ul fl media_type host name payload key"
  let ?send = "serve_action media_type (default_actions fl) host (''/actions/'' @ PathEscape n) (call_request p k)"
  let ?ok = "any_ok fl (JObj (data_norm (action_data host n)))"
  have call: "?call = Inr res \<longleftrightarrow> valid_call n p k \<and> (\<exists>b. ?send = Answer 200 b \<and> length b \<le> maxAgentResponseBytes
      \<and> unmarshal_result fl b = Some res \<and> an_action res = n \<and> an_status res = ''ok'')"
    unfolding panel_call_def default_registry rbind_Inr ExecuteJob_def call_request_def valid_call_def
    by (auto simp: protocol_error_def Let_def n_def[symmetric] p_def[symmetric] k_def[symmetric]
        split: http_outcome.splits option.splits if_splits)
  have rec: "an_action (received_result host n) = n" "an_status (received_result host n) = ''ok''"
    by (simp_all add: received_result_def)
  have answered: "(\<exists>b. ?send = Answer 200 b \<and> length b \<le> maxAgentResponseBytes
      \<and> unmarshal_result fl b = Some res \<and> an_action res = n \<and> an_status res = ''ok'')
    \<longleftrightarrow> sent host n p \<and> ?ok \<and> res = received_result host n" if v: "valid_call n p k"
  proof (cases "sent host n p")
    case True
    have s: "?send = Answer 200 b \<longleftrightarrow> b = result_text (sent_result host n)" for b
      using request_answered[of media_type n p k fl host b] assms v t True by simp
    show ?thesis unfolding s using True answer_received(1)[OF True] answer_received(2)[OF True, of fl] rec by (cases ?ok) auto
  next
    case False
    then have "?send \<noteq> Answer 200 b" for b
      using request_answered[of media_type n p k fl host b] assms v t by simp
    then show ?thesis using False by blast
  qed
  have ne: "n \<noteq> []" if "n \<in> set allowlist" using that by (auto simp: allowlist_def)
  have "?call = Inr res \<longleftrightarrow> valid_call n p k \<and> sent host n p \<and> ?ok \<and> res = received_result host n"
    unfolding call using answered by blast
  also have "\<dots> \<longleftrightarrow> n \<in> set allowlist \<and> p \<noteq> [] \<and> hd p = CHR 0x7B \<and> parse_json p = Some (JObj [])
       \<and> length p \<le> maxActionPayloadBytes \<and> length k \<le> maxIdempotencyKeyBytes
       \<and> sendable (sent_result host n) \<and> any_ok fl (JObj (data_norm (action_data host n))) \<and> res = received_result host n"
    using ne by (auto simp: json_valid_def valid_call_def sent_def)
  finally show ?thesis unfolding Let_def n_def p_def k_def .
qed

text \<open>C11. A call over the socket runs nothing but the actions on the list. It succeeds exactly when
  the name is on the list, the payload is one empty JSON object within its bound, the key is within
  its bound, and the result can be encoded, fits, and is in range for the panel; then it is what the
  named action found on the host, as the panel's JSON reader sees it. Everything else is an error.\<close>

theorem agent_call_exact:
  assumes "media_type ''application/json'' = Some ''application/json''"
  shows "panel_call ul fl media_type host name payload key = Inr res \<longleftrightarrow>
    (let n = trim_space name; p = trim_space payload in
       n \<in> set allowlist \<and> p \<noteq> [] \<and> hd p = CHR 0x7B \<and> parse_json p = Some (JObj [])
       \<and> length p \<le> maxActionPayloadBytes \<and> length (trim_space key) \<le> maxIdempotencyKeyBytes
       \<and> sendable (sent_result host n) \<and> any_ok fl (JObj (data_norm (action_data host n)))
       \<and> res = received_result host n)"
  by (rule panel_call_iff) (rule assms)

definition bare_host :: agent_host where
  "bare_host = \<lparr>gh_files = (\<lambda>_. Inl Canceled), gh_is_dir = (\<lambda>_. False), gh_read_dir = (\<lambda>_. Inl Canceled),
     gh_statfs = (\<lambda>_. Inl Canceled), gh_num_cpu = 2, gh_interfaces = Inr [], gh_parse_float = (\<lambda>_. None), gh_float_int = (\<lambda>_. 0)\<rparr>"

lemma health_sendable: "sendable (sent_result host ''agent.health'')"
  by (simp add: sendable_def sent_result_def empty_result_def action_data_def result_text_def json_object_def quoted_def
      escape_rune_def encode_rune_def norm_rune_def valid_rune_def rune_error_def maxActionResultBytes_def)

lemma health_received: "an_data (received_result host ''agent.health'') = [(''status'', JStr ''ok'')]"
proof -
  have "of_runes (runes ''status'') = ''status''" "of_runes (runes ''ok'') = ''ok''" by (rule runes_back; simp add: ascii_def)+
  then show ?thesis by (simp add: received_result_def data_norm_def action_data_def del: runes.simps)
qed

theorem agent_call_exact_witness:
  "\<exists>res. panel_call id (\<lambda>_ _. True) Some bare_host ''agent.health'' ''{ }'' ''k'' = Inr res
     \<and> an_data res = [(''status'', JStr ''ok'')]"
proof -
  have t: "trim_space ''agent.health'' = ''agent.health''" "trim_space ''{ }'' = ''{ }''" "trim_space ''k'' = ''k''"
    by (rule trim_space_plain; simp add: plain_def)+
  have p: "parse_json ''{ }'' = Some (JObj [])" by (simp add: json_eval)
  have "panel_call id (\<lambda>_ _. True) Some bare_host ''agent.health'' ''{ }'' ''k'' = Inr (received_result bare_host ''agent.health'')"
    unfolding agent_call_exact[where media_type = Some, OF refl] t Let_def
    using p health_sendable
    by (simp add: allowlist_def maxActionPayloadBytes_def maxIdempotencyKeyBytes_def data_norm_def action_data_def)
  then show ?thesis using health_received by blast
qed

end
