(* ===== verification/AgentSocket.thy ===== *)
theory AgentSocket
  imports GoPath
begin

text \<open>
  \<open>transport.go\<close>, \<open>ListenUnix\<close>: creating the agent's socket where no other user can replace it, and
  never taking it from a running agent. The host is its files, the locks and listeners that exist
  on it, and the errors its calls report; the loop over the ancestors of the directory is a partial
  function, which is proved to return.
\<close>

section \<open>The host\<close>

text \<open>What \<open>os.Lstat\<close> tells of a file: its kind, owner and permission bits. A symbolic link says
  whether it leads to a directory.\<close>

datatype file_kind = Directory | Socket | Symlink bool | OtherFile

record file_info =
  fl_kind :: file_kind
  fl_uid :: nat
  fl_perm :: nat
  fl_sticky :: bool

type_synonym file_table = "string \<rightharpoonup> file_info"

text \<open>The state: the files, the lock files on which a process holds a lock, and the sockets some
  process listens on. The rest are the answers of the kernel: \<open>kh_mkdir_all\<close> gives the files after
  the missing directories of a path have been made with the mode; \<open>kh_lstat_error\<close> is an error other
  than a missing file; \<open>kh_dial_fails\<close> holds of a listening socket that does not take a connection in
  time.\<close>

record socket_host =
  kh_files :: file_table
  kh_locks :: "string set"
  kh_listening :: "string set"
  kh_euid :: nat
  kh_mkdir_all :: "string \<Rightarrow> nat \<Rightarrow> file_table \<Rightarrow> string + file_table"
  kh_lstat_error :: "string \<Rightarrow> string option"
  kh_eval_symlinks :: "file_table \<Rightarrow> string \<Rightarrow> string + string"
  kh_abs :: "string \<Rightarrow> string + string"
  kh_open_error :: "string \<Rightarrow> string option"
  kh_flock_error :: "string \<Rightarrow> string option"
  kh_dial_fails :: "string \<Rightarrow> bool"
  kh_remove_error :: "string \<Rightarrow> string option"
  kh_listen_error :: "string \<Rightarrow> string option"
  kh_listen_perm :: nat
  kh_chmod_error :: "string \<Rightarrow> string option"
  kh_close_error :: "string \<Rightarrow> string option"

text \<open>\<open>os.Lstat\<close>: \<open>None\<close> in the result is a missing file.\<close>

definition lstat :: "socket_host \<Rightarrow> string \<Rightarrow> string + file_info option" where
  "lstat h p = (case kh_lstat_error h p of Some e \<Rightarrow> Inl e | None \<Rightarrow> Inr (kh_files h p))"

definition missing :: string where "missing = ''no such file or directory''"

definition lstat_err :: "socket_host \<Rightarrow> string \<Rightarrow> string + file_info" where
  "lstat_err h p = (case lstat h p of Inl e \<Rightarrow> Inl e | Inr None \<Rightarrow> Inl missing | Inr (Some i) \<Rightarrow> Inr i)"

text \<open>\<open>Mode().Perm()&0o022 != 0\<close>: the write bit of the group or of the others.\<close>

definition shared_write :: "nat \<Rightarrow> bool" where
  "shared_write perm = (odd (perm div 2) \<or> odd (perm div 16))"

text \<open>\<open>%q\<close> of a path without characters to escape.\<close>

definition qpath :: "string \<Rightarrow> string" where
  "qpath p = CHR 0x22 # p @ [CHR 0x22]"

section \<open>The ancestors\<close>

definition ancestor_problem :: "socket_host \<Rightarrow> string \<Rightarrow> err option" where
  "ancestor_problem h current = (case lstat_err h current of
     Inl e \<Rightarrow> Some (Wrapped (''inspect agent socket ancestor '' @ qpath current @ '': '') (Plain e) [])
   | Inr info \<Rightarrow>
       if fl_kind info \<noteq> Directory
       then Some (Plain (''agent socket ancestor '' @ qpath current @ '' must be a real directory''))
       else if fl_uid info \<noteq> 0 \<and> fl_uid info \<noteq> kh_euid h
       then Some (Plain (''agent socket ancestor '' @ qpath current @ '' must be owned by root or the agent user''))
       else if shared_write (fl_perm info) \<and> \<not> (fl_uid info = 0 \<and> fl_sticky info)
       then Some (Plain (''agent socket ancestor '' @ qpath current @ '' has unsafe write permissions''))
       else None)"

partial_function (option) validateSocketAncestors :: "socket_host \<Rightarrow> string \<Rightarrow> err option option" where
  "validateSocketAncestors h current = (case ancestor_problem h current of
     Some e \<Rightarrow> Some (Some e)
   | None \<Rightarrow> if path_dir current = current then Some None else validateSocketAncestors h (path_dir current))"

section \<open>A path has finitely many ancestors\<close>

definition weight :: "string list \<Rightarrow> nat" where
  "weight es = sum_list (map (\<lambda>e. Suc (length e)) es)"

lemma weight_simps [simp]:
  "weight [] = 0" "weight (e # es) = Suc (length e) + weight es" "weight (es @ fs) = weight es + weight fs"
  "weight (rev es) = weight es"
  by (simp_all add: weight_def rev_map[symmetric])

lemma weight_clean: "weight (clean_elements rooted stack es) \<le> weight stack + weight es"
proof (induction rooted stack es rule: clean_elements.induct)
  case (2 rooted stack e es)
  consider (skip) "e = [] \<or> e = ''.''" | (up) "e = ''..''" | (down) "e \<noteq> []" "e \<noteq> ''.''" "e \<noteq> ''..''" by blast
  then show ?case
  proof cases
    case skip
    then show ?thesis using "2.IH"(1) by auto
  next
    case up
    then have n: "\<not> (e = [] \<or> e = ''.'')" by auto
    show ?thesis
    proof (cases stack)
      case Nil
      then show ?thesis using "2.IH"(2)[OF n up Nil] up by (cases rooted) simp_all
    next
      case (Cons inner below)
      then show ?thesis using "2.IH"(3)[OF n up Cons] up by (cases "inner = ''..''") simp_all
    qed
  next
    case down
    then show ?thesis using "2.IH"(4) by simp
  qed
qed simp

lemma weight_split: "weight (split_on c s) = Suc (length s)"
proof (induction s)
  case (Cons a s)
  then show ?case by (cases "split_on c s") auto
qed simp

lemma length_join: "es \<noteq> [] \<Longrightarrow> Suc (length (join [c] es)) = weight es"
  by (induction "[c]" es rule: join.induct) auto

lemma clean_skips: "clean_elements rooted stack ([] # es) = clean_elements rooted stack es"
  by simp

lemma length_clean: "s \<noteq> [] \<Longrightarrow> length (path_clean s) \<le> length s"
proof -
  assume s: "s \<noteq> []"
  let ?es = "path_elements s"
  have "(if is_abs s then 1 else 0) + weight ?es \<le> Suc (length s)"
  proof (cases "is_abs s")
    case True
    then obtain t where t: "s = CHR ''/'' # t" by (cases s) (auto simp: is_abs_def)
    have "weight ?es \<le> weight (split_on CHR ''/'' t)"
      using weight_clean[of True "[]" "split_on CHR ''/'' t"] True t by (simp add: path_elements_def)
    then show ?thesis using t weight_split[of "CHR ''/''" t] True by simp
  next
    case False
    then show ?thesis using weight_clean[of False "[]" "split_on CHR ''/'' s"] weight_split[of "CHR ''/''" s]
      by (simp add: path_elements_def)
  qed
  then show ?thesis using s length_join[of ?es "CHR ''/''"] by (cases "?es = []") (auto simp: path_clean_def Let_def Suc_le_eq)
qed

lemma split_no_sep: "e \<in> set (split_on c s) \<Longrightarrow> c \<notin> set e"
proof (induction s arbitrary: e)
  case (Cons a s)
  show ?case
  proof (cases "a = c")
    case True
    then show ?thesis using Cons by auto
  next
    case False
    then show ?thesis using Cons by (cases "split_on c s") auto
  qed
qed simp

lemma clean_elements_from:
  "e \<in> set (clean_elements rooted stack es) \<Longrightarrow>
     e \<in> set stack \<or> e = ''..'' \<or> (e \<in> set es \<and> e \<noteq> [])"
proof (induction rooted stack es rule: clean_elements.induct)
  case (2 rooted stack x es)
  consider (skip) "x = [] \<or> x = ''.''" | (up) "x = ''..''" | (down) "x \<noteq> []" "x \<noteq> ''.''" "x \<noteq> ''..''" by blast
  then show ?case
  proof cases
    case skip
    then show ?thesis using 2 by auto
  next
    case up
    then have n: "\<not> (x = [] \<or> x = ''.'')" by auto
    show ?thesis
    proof (cases stack)
      case Nil
      then show ?thesis using "2.IH"(2)[OF n up Nil] "2.prems" up by (cases rooted) auto
    next
      case (Cons inner below)
      then show ?thesis using "2.IH"(3)[OF n up Cons] "2.prems" up by (cases "inner = ''..''") auto
    qed
  next
    case down
    then show ?thesis using 2 by auto
  qed
qed simp

lemma elements_plain: "e \<in> set (path_elements s) \<Longrightarrow> e \<noteq> [] \<and> CHR ''/'' \<notin> set e"
  using clean_elements_from[of e "is_abs s" "[]" "split_on CHR ''/'' s"] split_no_sep[of e]
  by (auto simp: path_elements_def)

lemma last_join: "es \<noteq> [] \<Longrightarrow> \<forall>e \<in> set es. e \<noteq> [] \<Longrightarrow> join sep es \<noteq> [] \<and> last (join sep es) = last (last es)"
  by (induction sep es rule: join.induct) auto

lemma clean_end: "path_clean s = ''/'' \<or> last (path_clean s) \<noteq> CHR ''/''"
proof (cases "path_elements s = []")
  case True
  then show ?thesis by (simp add: path_clean_def Let_def)
next
  case False
  let ?j = "join ''/'' (path_elements s)"
  have l: "?j \<noteq> []" "last ?j = last (last (path_elements s))"
    using last_join[OF False] elements_plain by auto
  have "last (path_elements s) \<in> set (path_elements s)" using False by simp
  then have "last (last (path_elements s)) \<noteq> CHR ''/''" using elements_plain by (metis last_in_set)
  then show ?thesis using l by (auto simp: path_clean_def Let_def)
qed

lemma path_clean_ne: "path_clean s \<noteq> []"
  by (simp add: path_clean_def Let_def)

definition path_measure :: "string \<Rightarrow> nat" where
  "path_measure p = (if p = ''.'' then 0 else Suc (2 * length p + (if p \<noteq> [] \<and> last p = CHR ''/'' then 1 else 0)))"

lemma upto_slash_end: "p \<noteq> [] \<Longrightarrow> last p = CHR ''/'' \<Longrightarrow> upto_slash p = p"
  unfolding upto_slash_def by (cases p rule: rev_cases) auto

lemma upto_slash_less: "p \<noteq> [] \<Longrightarrow> last p \<noteq> CHR ''/'' \<Longrightarrow> length (upto_slash p) < length p"
proof -
  assume p: "p \<noteq> []" "last p \<noteq> CHR ''/''"
  then obtain q c where q: "p = q @ [c]" "c \<noteq> CHR ''/''" by (cases p rule: rev_cases) auto
  then have "length (upto_slash p) \<le> length q"
    by (simp add: upto_slash_def) (metis length_dropWhile_le length_rev)
  then show ?thesis using q by simp
qed

lemma path_dir_smaller:
  assumes "path_dir p \<noteq> p"
  shows "path_measure (path_dir p) < path_measure p"
proof (cases "path_dir p = ''.''")
  case True
  then show ?thesis using assms by (auto simp: path_measure_def)
next
  case dot: False
  have u: "upto_slash p \<noteq> []" using dot by (auto simp: path_dir_def path_clean_def path_elements_def is_abs_def)
  then have p: "p \<noteq> []" by (auto simp: upto_slash_def)
  have pd: "p \<noteq> ''.''" using u by (auto simp: upto_slash_def)
  have d: "length (path_dir p) \<le> length (upto_slash p)" unfolding path_dir_def by (rule length_clean[OF u])
  have e: "path_dir p = ''/'' \<or> last (path_dir p) \<noteq> CHR ''/''" unfolding path_dir_def by (rule clean_end)
  show ?thesis
  proof (cases "last p = CHR ''/''")
    case True
    then have "upto_slash p = p" using p by (rule upto_slash_end[rotated])
    moreover have "length p \<ge> 2" if "path_dir p = ''/''"
    proof (rule ccontr)
      assume "\<not> length p \<ge> 2"
      then have "length p = 1" using p by (cases p; cases "tl p") auto
      then have "p = ''/''" using True by (cases p) auto
      then show False using that assms by simp
    qed
    ultimately show ?thesis using d e dot pd p True by (auto simp: path_measure_def)
  next
    case False
    then have "length (upto_slash p) < length p" using upto_slash_less p by blast
    then show ?thesis using d e dot pd p False by (auto simp: path_measure_def)
  qed
qed

section \<open>The loop returns\<close>

text \<open>The directory and everything above it.\<close>

inductive at_or_above :: "string \<Rightarrow> string \<Rightarrow> bool" where
  here: "at_or_above p p"
| above: "at_or_above (path_dir p) q \<Longrightarrow> at_or_above p q"

lemma at_or_above_unfold: "at_or_above p q \<longleftrightarrow> q = p \<or> at_or_above (path_dir p) q"
  by (auto intro: at_or_above.intros elim: at_or_above.cases)

lemma at_top: "path_dir p = p \<Longrightarrow> at_or_above p q \<longleftrightarrow> q = p"
proof
  assume "at_or_above p q" "path_dir p = p"
  then show "q = p" by (induction rule: at_or_above.induct) auto
qed (simp add: at_or_above.here)

lemma ancestors_total:
  "\<exists>r. validateSocketAncestors h dir = Some r
     \<and> (r = None \<longleftrightarrow> (\<forall>q. at_or_above dir q \<longrightarrow> ancestor_problem h q = None))
     \<and> (\<forall>e. r = Some e \<longrightarrow> (\<exists>q. at_or_above dir q \<and> ancestor_problem h q = Some e))"
proof (induction "path_measure dir" arbitrary: dir rule: less_induct)
  case less
  show ?case
  proof (cases "ancestor_problem h dir")
    case (Some e)
    then have "validateSocketAncestors h dir = Some (Some e)" by (simp add: validateSocketAncestors.simps)
    then show ?thesis using Some at_or_above.here[of dir] by auto
  next
    case None
    show ?thesis
    proof (cases "path_dir dir = dir")
      case True
      then have "validateSocketAncestors h dir = Some None" using None by (simp add: validateSocketAncestors.simps)
      then show ?thesis using None at_top[OF True] by auto
    next
      case False
      obtain r where r: "validateSocketAncestors h (path_dir dir) = Some r"
          "r = None \<longleftrightarrow> (\<forall>q. at_or_above (path_dir dir) q \<longrightarrow> ancestor_problem h q = None)"
          "\<forall>e. r = Some e \<longrightarrow> (\<exists>q. at_or_above (path_dir dir) q \<and> ancestor_problem h q = Some e)"
        using less[OF path_dir_smaller[OF False]] by blast
      have "validateSocketAncestors h dir = Some r"
        using None False r(1) by (simp add: validateSocketAncestors.simps[of h dir])
      then show ?thesis using r(2,3) None at_or_above_unfold[of dir] by auto
    qed
  qed
qed

text \<open>Which directory the walk stops at.\<close>

lemma ancestor_problem_None:
  "ancestor_problem h p = None \<longleftrightarrow> (\<exists>info. lstat_err h p = Inr info \<and> fl_kind info = Directory
     \<and> (fl_uid info = 0 \<or> fl_uid info = kh_euid h)
     \<and> (even (fl_perm info div 2) \<and> even (fl_perm info div 16) \<or> fl_uid info = 0 \<and> fl_sticky info))"
  by (cases "lstat_err h p") (auto simp: ancestor_problem_def shared_write_def)

lemma ancestors_first:
  "\<exists>r. validateSocketAncestors h dir = Some r \<and> (case r of
     None \<Rightarrow> (\<forall>n. ancestor_problem h ((path_dir ^^ n) dir) = None)
   | Some e \<Rightarrow> (\<exists>n. ancestor_problem h ((path_dir ^^ n) dir) = Some e
        \<and> list_all (\<lambda>m. ancestor_problem h ((path_dir ^^ m) dir) = None) [0..<n]))"
proof (induction "path_measure dir" arbitrary: dir rule: less_induct)
  case less
  show ?case
  proof (cases "ancestor_problem h dir")
    case (Some e)
    then have "validateSocketAncestors h dir = Some (Some e)" by (simp add: validateSocketAncestors.simps)
    then show ?thesis using Some by (intro exI[of _ "Some e"]) (auto intro!: exI[of _ 0])
  next
    case None
    show ?thesis
    proof (cases "path_dir dir = dir")
      case True
      then have "(path_dir ^^ n) dir = dir" for n by (induction n) simp_all
      moreover have "validateSocketAncestors h dir = Some None" using None True by (simp add: validateSocketAncestors.simps)
      ultimately show ?thesis using None by (intro exI[of _ None]) simp
    next
      case False
      have up: "(path_dir ^^ n) (path_dir dir) = (path_dir ^^ Suc n) dir" for n
        by (simp add: funpow_swap1)
      obtain r where r: "validateSocketAncestors h (path_dir dir) = Some r" and c: "case r of
           None \<Rightarrow> (\<forall>n. ancestor_problem h ((path_dir ^^ n) (path_dir dir)) = None)
         | Some e \<Rightarrow> (\<exists>n. ancestor_problem h ((path_dir ^^ n) (path_dir dir)) = Some e
            \<and> list_all (\<lambda>m. ancestor_problem h ((path_dir ^^ m) (path_dir dir)) = None) [0..<n])"
        using less[OF path_dir_smaller[OF False]] by blast
      have v: "validateSocketAncestors h dir = Some r"
        using None False r by (simp add: validateSocketAncestors.simps[of h dir])
      show ?thesis
      proof (cases r)
        case n: None
        have "ancestor_problem h ((path_dir ^^ n) dir) = None" for n
          using c n None up by (cases n) simp_all
        then show ?thesis using v n by simp
      next
        case (Some e)
        then obtain n where n: "ancestor_problem h ((path_dir ^^ Suc n) dir) = Some e"
            "list_all (\<lambda>m. ancestor_problem h ((path_dir ^^ Suc m) dir) = None) [0..<n]"
          using c unfolding up by auto
        have "ancestor_problem h ((path_dir ^^ m) dir) = None" if "m < Suc n" for m
          using that n(2) None by (cases m) (auto simp: list_all_iff)
        then have "list_all (\<lambda>m. ancestor_problem h ((path_dir ^^ m) dir) = None) [0..<Suc n]"
          by (simp add: list_all_iff del: upt_Suc)
        then show ?thesis using v Some n(1) by (intro exI[of _ r] conjI) (auto intro!: exI[of _ "Suc n"])
      qed
    qed
  qed
qed

text \<open>C40. The walk from the socket's directory to the root always comes to an end, whatever path it
  starts from. It reports no problem exactly when the directory and every directory above it can be
  inspected, is a real directory, is owned by root or the agent, and is not writable by its group or by
  others unless it is root's and sticky. Else it reports the problem of the first directory on the way
  up that is not so: all below it are safe, and what it says is what is wrong with that one.\<close>

theorem ancestors_walk_returns:
  "\<exists>r. validateSocketAncestors h dir = Some r
   \<and> (let safe = (\<lambda>p. case lstat_err h p of Inl e \<Rightarrow> False
            | Inr info \<Rightarrow> fl_kind info = Directory \<and> (fl_uid info = 0 \<or> fl_uid info = kh_euid h)
                \<and> (even (fl_perm info div 2) \<and> even (fl_perm info div 16) \<or> fl_uid info = 0 \<and> fl_sticky info)) in
      case r of
        None \<Rightarrow> (\<forall>n. safe ((path_dir ^^ n) dir))
      | Some e \<Rightarrow> (\<exists>n. let p = (path_dir ^^ n) dir in
          list_all safe (map (\<lambda>m. (path_dir ^^ m) dir) [0..<n]) \<and> \<not> safe p
          \<and> e = (case lstat_err h p of
              Inl x \<Rightarrow> Wrapped (''inspect agent socket ancestor '' @ qpath p @ '': '') (Plain x) []
            | Inr info \<Rightarrow> Plain (''agent socket ancestor '' @ qpath p @
                (if fl_kind info \<noteq> Directory then '' must be a real directory''
                 else if fl_uid info \<noteq> 0 \<and> fl_uid info \<noteq> kh_euid h then '' must be owned by root or the agent user''
                 else '' has unsafe write permissions'')))))"
proof -
  let ?safe = "\<lambda>p. case lstat_err h p of Inl e \<Rightarrow> False
            | Inr info \<Rightarrow> fl_kind info = Directory \<and> (fl_uid info = 0 \<or> fl_uid info = kh_euid h)
                \<and> (even (fl_perm info div 2) \<and> even (fl_perm info div 16) \<or> fl_uid info = 0 \<and> fl_sticky info)"
  have s: "ancestor_problem h p = None \<longleftrightarrow> ?safe p" for p
    by (auto simp: ancestor_problem_None split: sum.split)
  let ?says = "\<lambda>p. (case lstat_err h p of
              Inl x \<Rightarrow> Wrapped (''inspect agent socket ancestor '' @ qpath p @ '': '') (Plain x) []
            | Inr info \<Rightarrow> Plain (''agent socket ancestor '' @ qpath p @
                (if fl_kind info \<noteq> Directory then '' must be a real directory''
                 else if fl_uid info \<noteq> 0 \<and> fl_uid info \<noteq> kh_euid h then '' must be owned by root or the agent user''
                 else '' has unsafe write permissions'')))"
  have e: "e = ?says p" if "ancestor_problem h p = Some e" for p e
    using that by (auto simp: ancestor_problem_def split: sum.splits if_splits)
  obtain r where r: "validateSocketAncestors h dir = Some r" and c: "case r of
     None \<Rightarrow> (\<forall>n. ancestor_problem h ((path_dir ^^ n) dir) = None)
   | Some e \<Rightarrow> (\<exists>n. ancestor_problem h ((path_dir ^^ n) dir) = Some e
        \<and> list_all (\<lambda>m. ancestor_problem h ((path_dir ^^ m) dir) = None) [0..<n])"
    using ancestors_first by blast
  show ?thesis
  proof (cases r)
    case None
    then show ?thesis using r c unfolding s by (intro exI[of _ r]) simp
  next
    case (Some x)
    then obtain n where n: "ancestor_problem h ((path_dir ^^ n) dir) = Some x"
        "list_all (\<lambda>m. ancestor_problem h ((path_dir ^^ m) dir) = None) [0..<n]" using c by auto
    have "\<not> ?safe ((path_dir ^^ n) dir)" using n(1) s[of "(path_dir ^^ n) dir"] by simp
    moreover have "list_all ?safe (map (\<lambda>m. (path_dir ^^ m) dir) [0..<n])"
      using n(2) unfolding s by (simp add: list_all_iff)
    ultimately have "\<exists>n. let p = (path_dir ^^ n) dir in
          list_all ?safe (map (\<lambda>m. (path_dir ^^ m) dir) [0..<n]) \<and> \<not> ?safe p \<and> x = ?says p"
      using e[OF n(1)] unfolding Let_def by (intro exI[of _ n] conjI)
    then show ?thesis using r unfolding Some by (intro exI[of _ "Some x"]) (simp only: option.case Let_def)
  qed
qed

section \<open>Listening\<close>

text \<open>The listener: its socket, its lock, and what its first \<open>Close\<close> returned.\<close>

record lockedListener =
  ll_path :: string
  ll_lock :: string
  ll_closed :: "string option option"

text \<open>\<open>syscall.Open\<close> with \<open>O_CREAT\<close> and \<open>O_NOFOLLOW\<close> makes a missing file and refuses a symbolic link
  and what cannot be opened for writing; \<open>flock\<close> without waiting refuses a lock that another
  descriptor holds. A file made for the lock stays when the lock is refused.\<close>

definition open_lock :: "socket_host \<Rightarrow> string \<Rightarrow> string + socket_host" where
  "open_lock h p = (case kh_open_error h p of
     Some e \<Rightarrow> Inl e
   | None \<Rightarrow> (case kh_files h p of
       None \<Rightarrow> Inr (h\<lparr>kh_files := (kh_files h)(p \<mapsto>
         \<lparr>fl_kind = OtherFile, fl_uid = kh_euid h, fl_perm = 384, fl_sticky = False\<rparr>)\<rparr>)
     | Some i \<Rightarrow> (case fl_kind i of
         Symlink d \<Rightarrow> Inl ''too many levels of symbolic links''
       | Directory \<Rightarrow> Inl ''is a directory''
       | Socket \<Rightarrow> Inl ''no such device or address''
       | OtherFile \<Rightarrow> Inr h)))"

definition acquireSocketLock :: "socket_host \<Rightarrow> string \<Rightarrow> socket_host \<times> (err + string)" where
  "acquireSocketLock h p = (case open_lock h p of
     Inl e \<Rightarrow> (h, Inl (Wrapped ''open agent socket lock: '' (Plain e) []))
   | Inr h' \<Rightarrow>
       if p \<in> kh_locks h' then (h', Inl ErrSocketInUse)
       else case kh_flock_error h' p of
         Some e \<Rightarrow> (h', Inl (Wrapped ''lock agent socket: '' (Plain e) []))
       | None \<Rightarrow> (h'\<lparr>kh_locks := insert p (kh_locks h')\<rparr>, Inr p))"

definition releaseSocketLock :: "socket_host \<Rightarrow> string \<Rightarrow> socket_host" where
  "releaseSocketLock h lock = h\<lparr>kh_locks := kh_locks h - {lock}\<rparr>"

definition dial :: "socket_host \<Rightarrow> string \<Rightarrow> bool" where
  "dial h p = (p \<in> kh_listening h \<and> \<not> kh_dial_fails h p)"

text \<open>Removing a socket takes its name away; who listens on it is then out of reach.\<close>

definition unlink :: "socket_host \<Rightarrow> string \<Rightarrow> socket_host" where
  "unlink h p = h\<lparr>kh_files := (kh_files h)(p := None), kh_listening := kh_listening h - {p}\<rparr>"

definition os_remove :: "socket_host \<Rightarrow> string \<Rightarrow> string + socket_host" where
  "os_remove h p = (case kh_remove_error h p of Some e \<Rightarrow> Inl e | None \<Rightarrow>
     if kh_files h p = None then Inl missing else Inr (unlink h p))"

definition net_listen :: "socket_host \<Rightarrow> string \<Rightarrow> string + socket_host" where
  "net_listen h p = (case kh_listen_error h p of Some e \<Rightarrow> Inl e | None \<Rightarrow>
     if kh_files h p \<noteq> None then Inl ''address already in use''
     else Inr (h\<lparr>kh_files := (kh_files h)(p \<mapsto>
       \<lparr>fl_kind = Socket, fl_uid = kh_euid h, fl_perm = kh_listen_perm h, fl_sticky = False\<rparr>),
       kh_listening := insert p (kh_listening h)\<rparr>))"

definition os_chmod :: "socket_host \<Rightarrow> string \<Rightarrow> nat \<Rightarrow> string + socket_host" where
  "os_chmod h p perm = (case kh_chmod_error h p of Some e \<Rightarrow> Inl e | None \<Rightarrow>
     (case kh_files h p of None \<Rightarrow> Inl missing
      | Some i \<Rightarrow> Inr (h\<lparr>kh_files := (kh_files h)(p \<mapsto> i\<lparr>fl_perm := perm, fl_sticky := False\<rparr>)\<rparr>)))"

text \<open>\<open>Close\<close> of the wrapped listener removes its socket as well.\<close>

definition close_socket :: "socket_host \<Rightarrow> string \<Rightarrow> socket_host \<times> string option" where
  "close_socket h p = (unlink h p, kh_close_error h p)"

text \<open>The checks of the directory, up to the path the socket gets.\<close>

definition socket_directory :: "socket_host \<Rightarrow> string \<Rightarrow> socket_host \<times> (err + string) option" where
  "socket_directory h socketPath = (let dir = path_dir socketPath in
     case kh_mkdir_all h dir 488 (kh_files h) of
       Inl e \<Rightarrow> (h, Some (Inl (Wrapped ''create agent socket directory: '' (Plain e) [])))
     | Inr files \<Rightarrow> let h = h\<lparr>kh_files := files\<rparr> in (h,
       case lstat_err h dir of
         Inl e \<Rightarrow> Some (Inl (Wrapped ''inspect agent socket directory: '' (Plain e) []))
       | Inr info \<Rightarrow>
         if fl_kind info \<noteq> Directory
         then Some (Inl (Plain (''agent socket directory '' @ qpath dir @ '' must be a real directory'')))
         else if fl_uid info \<noteq> kh_euid h
         then Some (Inl (Plain (''agent socket directory '' @ qpath dir @ '' must be owned by the agent user'')))
         else if shared_write (fl_perm info)
         then Some (Inl (Plain (''agent socket directory '' @ qpath dir @ '' must not be writable by group or others'')))
         else case kh_eval_symlinks h (kh_files h) dir of
           Inl e \<Rightarrow> Some (Inl (Wrapped ''resolve agent socket directory: '' (Plain e) []))
         | Inr resolved \<Rightarrow> (case kh_abs h resolved of
             Inl e \<Rightarrow> Some (Inl (Wrapped ''resolve absolute agent socket directory: '' (Plain e) []))
           | Inr resolvedDir \<Rightarrow> (case validateSocketAncestors h resolvedDir of
               None \<Rightarrow> None
             | Some (Some e) \<Rightarrow> Some (Inl e)
             | Some None \<Rightarrow> Some (Inr (path_join [resolvedDir, path_base socketPath]))))))"

text \<open>What happens under the lock; the socket's path after the directory was resolved.\<close>

definition clear_stale :: "socket_host \<Rightarrow> string \<Rightarrow> err + socket_host" where
  "clear_stale h p = (case lstat h p of
     Inr (Some info) \<Rightarrow>
       if fl_kind info \<noteq> Socket
       then Inl (Plain (''agent socket path '' @ qpath p @ '' exists and is not a socket''))
       else if dial h p then Inl ErrSocketInUse
       else (case os_remove h p of
           Inl e \<Rightarrow> Inl (Wrapped ''remove stale agent socket: '' (Plain e) [])
         | Inr h' \<Rightarrow> Inr h')
   | Inr None \<Rightarrow> Inr h
   | Inl e \<Rightarrow> Inl (Wrapped ''inspect agent socket path: '' (Plain e) []))"

definition open_socket :: "socket_host \<Rightarrow> string \<Rightarrow> socket_host \<times> err option" where
  "open_socket h p = (case net_listen h p of
     Inl e \<Rightarrow> (h, Some (Wrapped ''listen on agent socket: '' (Plain e) []))
   | Inr h' \<Rightarrow> (case os_chmod h' p 432 of
       Inl e \<Rightarrow>
         let h1 = fst (close_socket h' p);
             h2 = (case os_remove h1 p of Inl _ \<Rightarrow> h1 | Inr h'' \<Rightarrow> h'')
         in (h2, Some (Wrapped ''set agent socket permissions: '' (Plain e) []))
     | Inr h'' \<Rightarrow> (h'', None)))"

definition listen_locked :: "socket_host \<Rightarrow> string \<Rightarrow> socket_host \<times> err option" where
  "listen_locked h p = (case clear_stale h p of
     Inl e \<Rightarrow> (h, Some e)
   | Inr h' \<Rightarrow> open_socket h' p)"

definition ListenUnix :: "socket_host \<Rightarrow> string \<Rightarrow> socket_host \<times> (err + lockedListener) option" where
  "ListenUnix h socketPath = (let socketPath = trim_space socketPath in
     if socketPath = [] then (h, Some (Inl (Plain ''agent socket path is required'')))
     else case socket_directory h socketPath of
       (h1, None) \<Rightarrow> (h1, None)
     | (h1, Some (Inl e)) \<Rightarrow> (h1, Some (Inl e))
     | (h1, Some (Inr p)) \<Rightarrow> (case acquireSocketLock h1 (p @ ''.lock'') of
         (h2, Inl e) \<Rightarrow> (h2, Some (Inl e))
       | (h2, Inr lock) \<Rightarrow> (case listen_locked h2 p of
           (h3, Some e) \<Rightarrow> (releaseSocketLock h3 lock, Some (Inl e))
         | (h3, None) \<Rightarrow> (h3, Some (Inr \<lparr>ll_path = p, ll_lock = lock, ll_closed = None\<rparr>)))))"

definition listener_close :: "socket_host \<Rightarrow> lockedListener \<Rightarrow> socket_host \<times> lockedListener \<times> string option" where
  "listener_close h l = (case ll_closed l of
     Some e \<Rightarrow> (h, l, e)
   | None \<Rightarrow> (case close_socket h (ll_path l) of
       (h', e) \<Rightarrow> (releaseSocketLock h' (ll_lock l), l\<lparr>ll_closed := Some e\<rparr>, e)))"

section \<open>No running agent loses its socket\<close>

text \<open>Every socket in use has the lock of its agent beside it.\<close>

definition locked :: "socket_host \<Rightarrow> bool" where
  "locked h = (\<forall>p \<in> kh_listening h. p @ ''.lock'' \<in> kh_locks h)"

lemma locked_free: "locked h \<Longrightarrow> p @ ''.lock'' \<notin> kh_locks h \<Longrightarrow> p \<notin> kh_listening h"
  by (auto simp: locked_def)

lemma directory_keeps:
  assumes "socket_directory h p = (h', r)"
  obtains files where "h' = h\<lparr>kh_files := files\<rparr>" "r = None \<Longrightarrow> False"
    "\<And>q. r = Some (Inr q) \<Longrightarrow> \<exists>dir. kh_mkdir_all h (path_dir p) 488 (kh_files h) = Inr files \<and>
       q = path_join [dir, path_base p] \<and> (\<forall>d. at_or_above dir d \<longrightarrow> ancestor_problem h' d = None)"
proof (cases "kh_mkdir_all h (path_dir p) 488 (kh_files h)")
  case (Inl e)
  then show ?thesis using assms that[of "kh_files h"] by (auto simp: socket_directory_def Let_def)
next
  case (Inr files)
  let ?h = "h\<lparr>kh_files := files\<rparr>"
  have h': "h' = ?h" using assms Inr by (auto simp: socket_directory_def Let_def)
  have n: "(validateSocketAncestors ?h d = None) = False" for d using ancestors_total[of ?h d] by auto
  have c: "r = None \<Longrightarrow> False"
    using assms Inr by (auto simp: socket_directory_def Let_def n split: sum.splits if_splits option.splits)
  have q: "\<exists>dir. q = path_join [dir, path_base p] \<and> validateSocketAncestors ?h dir = Some None" if "r = Some (Inr q)" for q
    using assms that
    by (auto simp: socket_directory_def Let_def Inr simp del: path_join.simps split: sum.split_asm if_split_asm option.split_asm)
  show ?thesis
  proof (rule that[of files])
    fix q assume "r = Some (Inr q)"
    then obtain dir where d: "q = path_join [dir, path_base p]" "validateSocketAncestors ?h dir = Some None" using q by blast
    have "\<forall>d. at_or_above dir d \<longrightarrow> ancestor_problem ?h d = None" using ancestors_total[of ?h dir] d(2) by auto
    then show "\<exists>dir. kh_mkdir_all h (path_dir p) 488 (kh_files h) = Inr files \<and> q = path_join [dir, path_base p] \<and>
        (\<forall>d. at_or_above dir d \<longrightarrow> ancestor_problem h' d = None)" using d(1) Inr h' by blast
  qed (use h' c in auto)
qed

lemma lock_acquired:
  assumes "acquireSocketLock h k = (h', r)"
  shows "kh_listening h' = kh_listening h" "r = Inl e \<Longrightarrow> kh_locks h' = kh_locks h"
    "r = Inr l \<Longrightarrow> l = k \<and> k \<notin> kh_locks h \<and> kh_locks h' = insert k (kh_locks h)"
  using assms
  by (auto simp: acquireSocketLock_def open_lock_def split: sum.splits if_splits option.splits file_kind.splits)

lemma unlink_keeps: "p \<notin> kh_listening h \<Longrightarrow> kh_listening (unlink h p) = kh_listening h"
    "kh_locks (unlink h p) = kh_locks h"
  by (auto simp: unlink_def)

lemma remove_keeps:
  "os_remove h p = Inr h' \<Longrightarrow> p \<notin> kh_listening h \<Longrightarrow> kh_listening h' = kh_listening h \<and> kh_locks h' = kh_locks h"
  by (auto simp: os_remove_def unlink_keeps split: option.splits if_splits)

lemma clear_keeps:
  "clear_stale h p = Inr h' \<Longrightarrow> p \<notin> kh_listening h \<Longrightarrow> kh_listening h' = kh_listening h \<and> kh_locks h' = kh_locks h"
  by (auto simp: clear_stale_def remove_keeps split: sum.splits option.splits if_splits)

definition usable_socket :: "socket_host \<Rightarrow> string \<Rightarrow> bool" where
  "usable_socket h p = (case kh_files h p of None \<Rightarrow> False | Some i \<Rightarrow> fl_kind i = Socket \<and> fl_perm i = 432)"

lemma open_keeps:
  assumes "open_socket h p = (h', r)" "p \<notin> kh_listening h"
  shows "kh_locks h' = kh_locks h" "r = Some e \<Longrightarrow> kh_listening h' = kh_listening h"
    "r = None \<Longrightarrow> kh_listening h' = insert p (kh_listening h) \<and> usable_socket h' p"
  using assms
  by (auto simp: open_socket_def net_listen_def os_chmod_def close_socket_def unlink_def os_remove_def usable_socket_def
        Let_def split: sum.splits option.splits if_splits)

lemma listen_keeps:
  assumes "listen_locked h p = (h', r)" "p \<notin> kh_listening h"
  shows "kh_locks h' = kh_locks h" "r = Some e \<Longrightarrow> kh_listening h' = kh_listening h"
    "r = None \<Longrightarrow> kh_listening h' = insert p (kh_listening h) \<and> usable_socket h' p"
proof -
  show "kh_locks h' = kh_locks h" "r = Some e \<Longrightarrow> kh_listening h' = kh_listening h"
    "r = None \<Longrightarrow> kh_listening h' = insert p (kh_listening h) \<and> usable_socket h' p"
    using assms clear_keeps[of h p] open_keeps[of _ p h' r]
    by (auto simp: listen_locked_def split: sum.splits)
qed

lemma listen_unix_outcome:
  assumes "locked h"
  shows "\<exists>h' r. ListenUnix h s = (h', Some r) \<and> locked h' \<and>
    (case r of
       Inl e \<Rightarrow> kh_listening h' = kh_listening h \<and> kh_locks h' = kh_locks h
     | Inr l \<Rightarrow> let p = ll_path l in
         p \<notin> kh_listening h \<and> kh_listening h' = insert p (kh_listening h) \<and>
         p @ ''.lock'' \<notin> kh_locks h \<and> kh_locks h' = insert (p @ ''.lock'') (kh_locks h) \<and>
         usable_socket h' p \<and>
         (\<exists>files dir. kh_mkdir_all h (path_dir (trim_space s)) 488 (kh_files h) = Inr files \<and>
            p = path_join [dir, path_base (trim_space s)] \<and>
            (\<forall>d. at_or_above dir d \<longrightarrow> ancestor_problem (h\<lparr>kh_files := files\<rparr>) d = None)) \<and>
         (case listener_close h' l of (h'', l', e) \<Rightarrow>
            kh_listening h'' = kh_listening h \<and> kh_locks h'' = kh_locks h \<and>
            listener_close h'' l' = (h'', l', e)))"
proof (cases "trim_space s = []")
  case True
  then show ?thesis using assms by (simp add: ListenUnix_def)
next
  case ne: False
  let ?s = "trim_space s"
  obtain h1 d where d: "socket_directory h ?s = (h1, d)" by fastforce
  obtain files where f: "h1 = h\<lparr>kh_files := files\<rparr>" "d \<noteq> None"
      "\<And>q. d = Some (Inr q) \<Longrightarrow> \<exists>dir. kh_mkdir_all h (path_dir ?s) 488 (kh_files h) = Inr files \<and>
         q = path_join [dir, path_base ?s] \<and> (\<forall>a. at_or_above dir a \<longrightarrow> ancestor_problem h1 a = None)"
    using directory_keeps[OF d] by metis
  show ?thesis
  proof (cases "\<exists>e. d = Some (Inl e)")
    case True
    then show ?thesis using ne d f(1) assms by (auto simp: ListenUnix_def locked_def)
  next
    case False
    then obtain p where p: "d = Some (Inr p)" using f(2) by (metis option.exhaust sum.exhaust)
    obtain h2 l where l: "acquireSocketLock h1 (p @ ''.lock'') = (h2, l)" by fastforce
    show ?thesis
    proof (cases l)
      case (Inl e)
      then show ?thesis using ne d p l lock_acquired[OF l] f(1) assms by (auto simp: ListenUnix_def locked_def)
    next
      case (Inr k)
      have a: "k = p @ ''.lock''" "p @ ''.lock'' \<notin> kh_locks h" "kh_locks h2 = insert (p @ ''.lock'') (kh_locks h)"
          "kh_listening h2 = kh_listening h"
        using lock_acquired(3)[OF l Inr] lock_acquired(1)[OF l] f(1) by auto
      have free: "p \<notin> kh_listening h" using locked_free[OF assms a(2)] .
      obtain h3 r where r: "listen_locked h2 p = (h3, r)" by fastforce
      note k = listen_keeps[OF r, unfolded a(4), OF free]
      show ?thesis
      proof (cases r)
        case None
        have res: "ListenUnix h s = (h3, Some (Inr \<lparr>ll_path = p, ll_lock = k, ll_closed = None\<rparr>))"
          using ne d p l Inr r None by (simp add: ListenUnix_def)
        have "locked h3" using assms k(1) k(3)[OF None] a(3) by (auto simp: locked_def)
        moreover have "kh_listening (unlink h3 p) = kh_listening h" using k(3)[OF None] free by (auto simp: unlink_def)
        moreover have "kh_locks (unlink h3 p) - {p @ ''.lock''} = kh_locks h" using k(1) a(2,3) by (auto simp: unlink_def)
        ultimately show ?thesis
          using res free a k(1) k(3)[OF None] f(3)[OF p] f(1)
          by (auto simp: Let_def listener_close_def close_socket_def releaseSocketLock_def)
      next
        case (Some e)
        then show ?thesis using ne d p l Inr r k(1) k(2)[OF Some] a assms
          by (auto simp: ListenUnix_def releaseSocketLock_def locked_def)
      qed
    qed
  qed
qed

text \<open>C13. The agent's socket. On a host where every listening agent holds the lock beside its socket,
  starting one more keeps it so, and always returns: with an error, which leaves everyone listening
  and every lock as they were, whatever failed; or with a listener whose path no one listened on,
  whose lock no one held and is now held, that is a socket with mode 0660, in a directory all of
  whose ancestors were safe. Closing it gives both back, and closing it again changes nothing.\<close>

theorem listen_unix_safe:
  assumes "locked h"
  shows "\<exists>h' r. ListenUnix h s = (h', Some r) \<and> locked h' \<and>
    (case r of
       Inl e \<Rightarrow> kh_listening h' = kh_listening h \<and> kh_locks h' = kh_locks h
     | Inr l \<Rightarrow> let p = ll_path l in
         p \<notin> kh_listening h \<and> kh_listening h' = insert p (kh_listening h) \<and>
         p @ ''.lock'' \<notin> kh_locks h \<and> kh_locks h' = insert (p @ ''.lock'') (kh_locks h) \<and>
         usable_socket h' p \<and>
         (\<exists>files dir. kh_mkdir_all h (path_dir (trim_space s)) 488 (kh_files h) = Inr files \<and>
            p = path_join [dir, path_base (trim_space s)] \<and>
            (\<forall>d. at_or_above dir d \<longrightarrow> ancestor_problem (h\<lparr>kh_files := files\<rparr>) d = None)) \<and>
         (case listener_close h' l of (h'', l', e) \<Rightarrow>
            kh_listening h'' = kh_listening h \<and> kh_locks h'' = kh_locks h \<and>
            listener_close h'' l' = (h'', l', e)))"
  by (rule listen_unix_outcome[OF assms])

text \<open>A host on which another agent listens on \<open>/run/a.sock\<close>.\<close>

definition demo_dir :: file_info where
  "demo_dir = \<lparr>fl_kind = Directory, fl_uid = 0, fl_perm = 493, fl_sticky = False\<rparr>"

definition demo_sockets :: socket_host where
  "demo_sockets = \<lparr>kh_files = [''/'' \<mapsto> demo_dir, ''/run'' \<mapsto> demo_dir,
       ''/run/a.sock'' \<mapsto> \<lparr>fl_kind = Socket, fl_uid = 0, fl_perm = 432, fl_sticky = False\<rparr>],
     kh_locks = {''/run/a.sock.lock''}, kh_listening = {''/run/a.sock''}, kh_euid = 0,
     kh_mkdir_all = (\<lambda>p perm fs. Inr fs), kh_lstat_error = (\<lambda>p. None), kh_eval_symlinks = (\<lambda>fs p. Inr p),
     kh_abs = Inr, kh_open_error = (\<lambda>p. None), kh_flock_error = (\<lambda>p. None), kh_dial_fails = (\<lambda>p. True),
     kh_remove_error = (\<lambda>p. None), kh_listen_error = (\<lambda>p. None), kh_listen_perm = 493,
     kh_chmod_error = (\<lambda>p. None), kh_close_error = (\<lambda>p. None)\<rparr>"

theorem listen_unix_safe_witness:
  "\<exists>h' r. ListenUnix demo_sockets '' /run/b.sock'' = (h', Some r) \<and> locked h' \<and>
     kh_listening demo_sockets \<subseteq> kh_listening h'"
proof -
  have "locked demo_sockets" by (simp add: locked_def demo_sockets_def)
  from listen_unix_safe[OF this, of "'' /run/b.sock''"] show ?thesis
    by (elim exE conjE) (auto simp: Let_def split: sum.splits)
qed

end
