(* ===== verification/Web.thy ===== *)
theory Web
  imports AgentRpc Session LoginLimiter Rbac JobStore Settings
begin

text \<open>
  \<open>internal/server\<close>: the panel's web server. A handler is a function from the state of the process
  (the database, the three limiters, the audit errors reported) to a response and the next state. A
  page made from a template is the template with its data; rendering cannot fail on them. The
  library's \<open>url.Parse\<close>, \<open>mime.ParseMediaType\<close> and \<open>net.ParseIP\<close> are parameters.
\<close>

section \<open>Requests\<close>

text \<open>\<open>parse_url\<close> gives scheme and host; \<open>None\<close> is an error.\<close>

record web_library =
  parse_url :: "string \<Rightarrow> (string \<times> string) option"
  media_type :: "string \<Rightarrow> string option"
  is_ip :: "string \<Rightarrow> bool"
  lower_table :: "rune \<Rightarrow> rune"

text \<open>The path as it was escaped, the headers as \<open>Header.Get\<close> gives them, the cookies in order, the
  bytes of the body that arrive, and whether reading it breaks off there.\<close>

record web_request =
  wq_method :: string
  wq_path :: string
  wq_query :: string
  wq_host :: string
  wq_remote_addr :: string
  wq_header :: "string \<Rightarrow> string"
  wq_cookies :: "(string \<times> string) list"
  wq_body :: string
  wq_broken :: bool

text \<open>\<open>url.ParseQuery\<close>: the pairs that parse, and whether all did.\<close>

fun query_unescape :: "string \<Rightarrow> string option" where
  "query_unescape [] = Some []"
| "query_unescape (c # s) =
     (if c = CHR 0x25
      then (case s of
          a # b # t \<Rightarrow> (case (hex_val a, hex_val b) of
              (Some x, Some y) \<Rightarrow> map_option (\<lambda>r. char_of (16 * x + y) # r) (query_unescape t)
            | _ \<Rightarrow> None)
        | _ \<Rightarrow> None)
      else map_option (\<lambda>r. (if c = CHR ''+'' then CHR '' '' else c) # r) (query_unescape s))"

definition query_pair :: "string \<Rightarrow> (string \<times> string) option" where
  "query_pair part = (case (case cut CHR ''='' part of Some kv \<Rightarrow> kv | None \<Rightarrow> (part, [])) of
     (k, v) \<Rightarrow> (case (query_unescape k, query_unescape v) of
       (Some k', Some v') \<Rightarrow> Some (k', v') | _ \<Rightarrow> None))"

fun query_parts :: "string list \<Rightarrow> (string \<times> string) list \<times> bool" where
  "query_parts [] = ([], True)"
| "query_parts (part # parts) = (case query_parts parts of (pairs, fine) \<Rightarrow>
     if CHR '';'' \<in> set part then (pairs, False)
     else if part = [] then (pairs, fine)
     else (case query_pair part of Some kv \<Rightarrow> (kv # pairs, fine) | None \<Rightarrow> (pairs, False)))"

definition parse_query :: "string \<Rightarrow> (string \<times> string) list \<times> bool" where
  "parse_query q = query_parts (split_on CHR ''&'' q)"

text \<open>\<open>Values.Get\<close>.\<close>

definition form_get :: "string \<Rightarrow> (string \<times> string) list \<Rightarrow> string" where
  "form_get k kvs = (case map_of kvs k of Some v \<Rightarrow> v | None \<Rightarrow> [])"

text \<open>\<open>ParseForm\<close> of a POST whose body is limited: \<open>PostForm\<close>, or \<open>None\<close> for an error.\<close>

definition form_type :: string where "form_type = ''application/x-www-form-urlencoded''"

definition parse_form :: "web_library \<Rightarrow> nat \<Rightarrow> web_request \<Rightarrow> (string \<times> string) list option" where
  "parse_form lib limit rq =
     (let ct = wq_header rq ''Content-Type'' in
      case media_type lib (if ct = [] then ''application/octet-stream'' else ct) of
        None \<Rightarrow> None
      | Some m \<Rightarrow>
          if m = form_type
          then (if length (wq_body rq) > limit \<or> wq_broken rq then None
                else (case parse_query (wq_body rq) of (pairs, fine) \<Rightarrow>
                  if fine \<and> snd (parse_query (wq_query rq)) then Some pairs else None))
          else if snd (parse_query (wq_query rq)) then Some [] else None)"

text \<open>\<open>Request.Cookie\<close>.\<close>

definition cookie :: "string \<Rightarrow> web_request \<Rightarrow> string option" where
  "cookie name rq = map_of (wq_cookies rq) name"

text \<open>\<open>net.SplitHostPort\<close>: the host.\<close>

definition last_colon :: "string \<Rightarrow> (string \<times> string) option" where
  "last_colon s = (case cut CHR '':'' (rev s) of None \<Rightarrow> None | Some (b, a) \<Rightarrow> Some (rev a, rev b))"

definition split_host_port :: "string \<Rightarrow> string option" where
  "split_host_port hp = (case last_colon hp of
     None \<Rightarrow> None
   | Some (before, port) \<Rightarrow>
       if hd hp = CHR ''[''
       then (case cut CHR '']'' (tl hp) of
           None \<Rightarrow> None
         | Some (host, rest) \<Rightarrow>
             if rest = CHR '':'' # port \<and> CHR ''['' \<notin> set host \<and> CHR ''['' \<notin> set rest \<and> CHR '']'' \<notin> set rest
             then Some host else None)
       else if CHR '':'' \<in> set before \<or> CHR ''['' \<in> set hp \<or> CHR '']'' \<in> set hp then None
       else Some before)"

definition requestIPAddress :: "web_library \<Rightarrow> string \<Rightarrow> string" where
  "requestIPAddress lib remoteAddr =
     (let host = (case split_host_port remoteAddr of Some h \<Rightarrow> h | None \<Rightarrow> remoteAddr) in
      if \<not> is_ip lib host then [] else host)"

text \<open>\<open>strings.ToValidUTF8\<close> with the empty replacement.\<close>

function to_valid :: "string \<Rightarrow> string" where
  "to_valid [] = []"
| "to_valid (a # s) = (let (r, n) = decode_rune (a # s) in
     (if n = 1 \<and> byte a \<ge> 128 then [] else a # take (n - 1) s) @ to_valid (drop (n - 1) s))"
  by pat_completeness auto
termination by (relation "measure length") auto

definition maxUserAgentRunes :: nat where "maxUserAgentRunes = 512"

definition requestUserAgent :: "web_request \<Rightarrow> string" where
  "requestUserAgent rq = of_runes (take maxUserAgentRunes (runes (to_valid (wq_header rq ''User-Agent''))))"

section \<open>Responses\<close>

record server_inventory =
  iv_agent_status :: string
  iv_agent_message :: string
  iv_os :: string
  iv_kernel :: string
  iv_cpu_cores :: int
  iv_ram_total :: int
  iv_ram_available :: int
  iv_swap :: int
  iv_disk_free :: int
  iv_load1 :: string
  iv_load5 :: string
  iv_load15 :: string
  iv_uptime :: int
  iv_ip_addresses :: "string list"
  iv_services :: "string list"
  iv_web_server :: string
  iv_has_systemd :: bool

datatype page =
    EmptyPage
  | Text string
  | Json json
  | VersionJson build_info
  | AuditJson "audit_event list"
  | HomePage
  | LoginPage
  | AuditPage "audit_event list"
  | JobsPage "job list" "status \<Rightarrow> nat"
  | JobPage job "job_log list" string
  | InventoryPage server_inventory
  | MovedPage string
  | JobStyles
  | InventoryStyles

text \<open>A \<open>Set-Cookie\<close> of the session: its name, its path \<open>/\<close>, \<open>HttpOnly\<close> and \<open>SameSite=Lax\<close> are the same
  in all of them.\<close>

record session_cookie =
  ck_value :: string
  ck_expires :: time
  ck_max_age :: int
  ck_secure :: bool

record web_response =
  rs_status :: nat
  rs_headers :: "(string \<times> string) list"
  rs_cookies :: "session_cookie list"
  rs_page :: page

definition set_header :: "string \<Rightarrow> string \<Rightarrow> web_response \<Rightarrow> web_response" where
  "set_header k v rs = rs\<lparr>rs_headers := AList.update k v (rs_headers rs)\<rparr>"

definition header :: "web_response \<Rightarrow> string \<Rightarrow> string option" where
  "header rs = map_of (rs_headers rs)"

definition new_response :: web_response where
  "new_response = \<lparr>rs_status = 200, rs_headers = [], rs_cookies = [], rs_page = EmptyPage\<rparr>"

definition single_quoted :: "string \<Rightarrow> string" where
  "single_quoted s = CHR 0x27 # s @ [CHR 0x27]"

definition setAuthResponseHeaders :: "bool \<Rightarrow> web_response \<Rightarrow> web_response" where
  "setAuthResponseHeaders secure rs =
     (let rs = set_header ''Cache-Control'' ''no-store'' rs;
          rs = set_header ''Content-Security-Policy''
                 (''default-src '' @ single_quoted ''self'' @ ''; frame-ancestors '' @ single_quoted ''none'' @ ''; base-uri '' @ single_quoted ''none''
                  @ ''; form-action '' @ single_quoted ''self'') rs;
          rs = set_header ''X-Content-Type-Options'' ''nosniff'' rs;
          rs = set_header ''X-Frame-Options'' ''DENY'' rs in
      if secure then set_header ''Strict-Transport-Security'' ''max-age=31536000'' rs else rs)"

text \<open>\<open>http.Error\<close>, \<open>writeJSON\<close>, \<open>http.Redirect\<close> of a POST to a clean path.\<close>

definition http_error :: "string \<Rightarrow> nat \<Rightarrow> web_response \<Rightarrow> web_response" where
  "http_error msg code rs =
     (set_header ''X-Content-Type-Options'' ''nosniff'' (set_header ''Content-Type'' ''text/plain; charset=utf-8'' rs))
       \<lparr>rs_status := code, rs_page := Text (msg @ [CHR 0x0A])\<rparr>"

definition web_writeJSON :: "nat \<Rightarrow> page \<Rightarrow> web_response \<Rightarrow> web_response" where
  "web_writeJSON code v rs =
     (set_header ''Content-Type'' ''application/json; charset=utf-8'' rs)\<lparr>rs_status := code, rs_page := v\<rparr>"

definition write_html :: "page \<Rightarrow> web_response \<Rightarrow> web_response" where
  "write_html v rs = (set_header ''Content-Type'' ''text/html; charset=utf-8'' rs)\<lparr>rs_page := v\<rparr>"

definition redirect :: "string \<Rightarrow> web_response \<Rightarrow> web_response" where
  "redirect url rs = (set_header ''Location'' url rs)\<lparr>rs_status := 303\<rparr>"

definition writeAuthorizationError :: "nat \<Rightarrow> string \<Rightarrow> string \<Rightarrow> web_response \<Rightarrow> web_response" where
  "writeAuthorizationError status code message =
     web_writeJSON status (Json (JObj [(''error'', JObj [(''code'', JStr code), (''message'', JStr message)])]))"

section \<open>The server\<close>

record session_authenticator =
  sa_login :: "login_input \<Rightarrow> login_session prog"
  sa_logout :: "logout_input \<Rightarrow> unit prog"
  sa_validate :: "string \<Rightarrow> session_principal prog"

record job_service =
  jv_list_recent :: "int \<Rightarrow> job list prog"
  jv_get :: "string \<Rightarrow> job prog"
  jv_list_logs :: "string \<Rightarrow> int \<Rightarrow> job_log list prog"
  jv_retry :: "string \<Rightarrow> mutation \<Rightarrow> unit prog"
  jv_cancel :: "string \<Rightarrow> mutation \<Rightarrow> unit prog"

text \<open>An interface left \<open>nil\<close> is \<open>None\<close>; of \<open>AuditError\<close> it counts whether there is one. \<open>New\<close> replaces
  a missing \<open>Ready\<close>.\<close>

record web_config =
  wc_version :: build_info
  wc_ready :: "unit prog option"
  wc_sessions :: "session_authenticator option"
  wc_authorization :: "(string \<Rightarrow> string \<Rightarrow> unit prog) option"
  wc_audit_events :: "(int \<Rightarrow> audit_event list prog) option"
  wc_audit_recorder :: "(audit_event \<Rightarrow> audit_event prog) option"
  wc_audit_error :: bool
  wc_jobs :: "job_service option"
  wc_inventory :: "server_inventory prog option"
  wc_secure_cookies :: bool

text \<open>What changes while the server runs.\<close>

record web_state =
  wt_world :: world
  wt_login_limiter :: login_limiter
  wt_source_limiter :: login_limiter
  wt_audit_limiter :: login_limiter
  wt_reported :: "err list"

definition new_server :: "web_config \<Rightarrow> world \<Rightarrow> web_config \<times> web_state" where
  "new_server cfg w =
     (cfg\<lparr>wc_ready := (case wc_ready cfg of None \<Rightarrow> Some (retp ()) | Some r \<Rightarrow> Some r)\<rparr>,
      \<lparr>wt_world = w, wt_login_limiter = newLoginLimiter loginAttemptLimit,
       wt_source_limiter = newLoginLimiter loginSourceAttemptLimit,
       wt_audit_limiter = newLoginLimiter loginAuditAttemptLimit, wt_reported = []\<rparr>)"

text \<open>What the clock says at each place of a request that reads it, and the order in which the maps of
  the limiters are visited.\<close>

record moment =
  mo_source :: "string list \<times> time"
  mo_login :: "string list \<times> time"
  mo_audit :: "string list \<times> time"
  mo_now :: time

type_synonym web_handler = "web_state \<Rightarrow> web_response \<times> web_state"

text \<open>A call of the database, and what is made of its answer.\<close>

definition on_world :: "'a prog \<Rightarrow> (err + 'a \<Rightarrow> web_handler) \<Rightarrow> web_handler" where
  "on_world p k st = (case p (wt_world st) of (res, w) \<Rightarrow> k res (st\<lparr>wt_world := w\<rparr>))"

definition answer :: "web_response \<Rightarrow> web_handler" where
  "answer rs st = (rs, st)"

section \<open>Signing in and out\<close>

definition SessionCookieName :: string where "SessionCookieName = ''motekar_session''"
definition maxLoginBodyBytes :: nat where "maxLoginBodyBytes = 8192"
definition maxEmailBytes :: nat where "maxEmailBytes = 320"
definition maxPasswordBytes :: nat where "maxPasswordBytes = 1024"

definition authRequestIsSameOrigin :: "web_library \<Rightarrow> bool \<Rightarrow> web_request \<Rightarrow> bool" where
  "authRequestIsSameOrigin lib secure rq =
     (let fetchSite = to_lower (lower_table lib) (trim_space (wq_header rq ''Sec-Fetch-Site'')) in
      if fetchSite \<noteq> [] \<and> fetchSite \<noteq> ''same-origin'' \<and> fetchSite \<noteq> ''none'' then False
      else (let origin = trim_space (wq_header rq ''Origin'');
                source = (if origin = [] then trim_space (wq_header rq ''Referer'') else origin) in
        if source = [] then False
        else (case parse_url lib source of
            None \<Rightarrow> False
          | Some (scheme, host) \<Rightarrow>
              host = wq_host rq \<and> scheme = (if secure then ''https'' else ''http''))))"

definition recordLoginRejection ::
  "web_library \<Rightarrow> web_config \<Rightarrow> moment \<Rightarrow> web_request \<Rightarrow> string \<Rightarrow> web_state \<Rightarrow> web_state" where
  "recordLoginRejection lib cfg mo rq reason st = (case wc_audit_recorder cfg of
     None \<Rightarrow> st
   | Some record_event \<Rightarrow>
       (let ipAddress = requestIPAddress lib (wq_remote_addr rq) in
        case Allow (fst (mo_audit mo)) (snd (mo_audit mo)) ipAddress (wt_audit_limiter st) of
          (False, l) \<Rightarrow> st\<lparr>wt_audit_limiter := l\<rparr>
        | (True, l) \<Rightarrow>
            (case record_event (event_literal [] ActionLoginRejected ''authentication'' ''login'' ipAddress
                 (requestUserAgent rq) [(''reason'', reason)]) (wt_world st) of
               (res, w) \<Rightarrow> (let st = st\<lparr>wt_audit_limiter := l, wt_world := w\<rparr> in
                 case res of
                   Inl e \<Rightarrow> if wc_audit_error cfg then st\<lparr>wt_reported := wt_reported st @ [e]\<rparr> else st
                 | Inr _ \<Rightarrow> st))))"

definition reject_login ::
  "web_library \<Rightarrow> web_config \<Rightarrow> moment \<Rightarrow> web_request \<Rightarrow> string \<Rightarrow> string \<Rightarrow> nat \<Rightarrow> web_response \<Rightarrow> web_handler" where
  "reject_login lib cfg mo rq reason msg code rs st =
     (http_error msg code rs, recordLoginRejection lib cfg mo rq reason st)"

text \<open>Seconds of a duration, truncated toward zero.\<close>

definition whole_seconds :: "duration \<Rightarrow> int" where
  "whole_seconds d = (if d < 0 then - ((- d) div seconds 1) else d div seconds 1)"

definition handleLoginForm :: "web_config \<Rightarrow> web_handler" where
  "handleLoginForm cfg = answer (write_html LoginPage (setAuthResponseHeaders (wc_secure_cookies cfg) new_response))"

text \<open>\<open>s.sourceLimiter.Allow(..) && s.loginLimiter.Allow(..)\<close>; the second is asked only if the first
  agrees.\<close>

definition login_allowed :: "moment \<Rightarrow> string \<Rightarrow> string \<Rightarrow> web_state \<Rightarrow> bool \<times> web_state" where
  "login_allowed mo ipAddress limiterKey st =
     (case Allow (fst (mo_source mo)) (snd (mo_source mo)) ipAddress (wt_source_limiter st) of
        (False, l) \<Rightarrow> (False, st\<lparr>wt_source_limiter := l\<rparr>)
      | (True, l) \<Rightarrow>
          (case Allow (fst (mo_login mo)) (snd (mo_login mo)) limiterKey (wt_login_limiter st) of
             (b, l') \<Rightarrow> (b, st\<lparr>wt_source_limiter := l, wt_login_limiter := l'\<rparr>)))"

definition login_key :: "web_library \<Rightarrow> string \<Rightarrow> string \<Rightarrow> string" where
  "login_key lib ipAddress email = ipAddress @ [CHR 0x00] @ to_lower (lower_table lib) (trim_space email)"

text \<open>What a login form asks for, or why it is turned away before it counts as an attempt.\<close>

definition login_form :: "web_library \<Rightarrow> web_config \<Rightarrow> web_request \<Rightarrow> (string \<times> string \<times> nat) + (string \<times> string)" where
  "login_form lib cfg rq =
     (if \<not> authRequestIsSameOrigin lib (wc_secure_cookies cfg) rq then Inl (''cross_origin'', ''Forbidden.'', 403)
      else if media_type lib (wq_header rq ''Content-Type'') \<noteq> Some form_type
      then Inl (''malformed_request'', ''Invalid email or password.'', 401)
      else (case parse_form lib maxLoginBodyBytes rq of
          None \<Rightarrow> Inl (''malformed_request'', ''Invalid email or password.'', 401)
        | Some form \<Rightarrow>
            (let email = form_get ''email'' form; password = form_get ''password'' form in
             if email = [] \<or> password = [] \<or> length email > maxEmailBytes \<or> length password > maxPasswordBytes
             then Inl (''invalid_credentials'', ''Invalid email or password.'', 401)
             else Inr (email, password))))"

definition handleLogin ::
  "web_library \<Rightarrow> web_config \<Rightarrow> session_authenticator \<Rightarrow> moment \<Rightarrow> web_request \<Rightarrow> web_handler" where
  "handleLogin lib cfg sessions mo rq st =
     (let rs = setAuthResponseHeaders (wc_secure_cookies cfg) new_response;
          ipAddress = requestIPAddress lib (wq_remote_addr rq) in
      case login_form lib cfg rq of
        Inl (reason, msg, code) \<Rightarrow> reject_login lib cfg mo rq reason msg code rs st
      | Inr (email, password) \<Rightarrow>
          (let limiterKey = login_key lib ipAddress email in
           case login_allowed mo ipAddress limiterKey st of
             (False, st) \<Rightarrow> reject_login lib cfg mo rq ''rate_limited'' ''Too many login attempts.'' 429 rs st
           | (True, st) \<Rightarrow>
               on_world (sa_login sessions \<lparr>li_email = email, li_password = password,
                   li_ip_address = ipAddress, li_user_agent = requestUserAgent rq\<rparr>)
                 (\<lambda>res st. case res of
                    Inl e \<Rightarrow> answer (if err_is e ErrInvalidCredentials
                       then http_error ''Invalid email or password.'' 401 rs
                       else http_error ''Unable to sign in.'' 500 rs) st
                  | Inr session \<Rightarrow>
                      answer (redirect ''/'' (rs\<lparr>rs_cookies := rs_cookies rs @
                          [\<lparr>ck_value = lo_token session, ck_expires = lo_expires_at session,
                            ck_max_age = whole_seconds (lo_expires_at session - mo_now mo),
                            ck_secure = wc_secure_cookies cfg\<rparr>]\<rparr>))
                        (st\<lparr>wt_login_limiter := Reset limiterKey (wt_login_limiter st)\<rparr>)) st))"

text \<open>\<open>time.Unix(1, 0)\<close>, counted from the zero time.\<close>

definition long_ago :: time where "long_ago = 62135596801 * seconds 1"

definition handleLogout :: "web_library \<Rightarrow> web_config \<Rightarrow> session_authenticator \<Rightarrow> web_request \<Rightarrow> web_handler" where
  "handleLogout lib cfg sessions rq =
     (let rs = setAuthResponseHeaders (wc_secure_cookies cfg) new_response in
      if \<not> authRequestIsSameOrigin lib (wc_secure_cookies cfg) rq then answer (http_error ''Forbidden.'' 403 rs)
      else on_world (sa_logout sessions
          \<lparr>lt_token = (case cookie SessionCookieName rq of Some v \<Rightarrow> v | None \<Rightarrow> []),
           lt_ip_address = requestIPAddress lib (wq_remote_addr rq), lt_user_agent = requestUserAgent rq\<rparr>)
        (\<lambda>res. case res of
           Inl e \<Rightarrow> answer (http_error ''Unable to sign out.'' 500 rs)
         | Inr _ \<Rightarrow> answer (redirect ''/login'' (rs\<lparr>rs_cookies := rs_cookies rs @
               [\<lparr>ck_value = [], ck_expires = long_ago, ck_max_age = - 1, ck_secure = wc_secure_cookies cfg\<rparr>]\<rparr>))))"

end
