(* ===== verification/WebServer.thy ===== *)
theory WebServer
  imports Web
begin

text \<open>
  The pages of \<open>internal/server\<close>, the guard in front of them (\<open>authorization.go\<close>), and the mux with
  its routes (\<open>server.go\<close>).
\<close>

section \<open>The guard\<close>

text \<open>\<open>RequirePermission\<close>: the handler gets the principal that the session stands for.\<close>

definition RequirePermission ::
  "web_config \<Rightarrow> string \<Rightarrow> (session_principal \<Rightarrow> web_handler) \<Rightarrow> web_request \<Rightarrow> web_handler" where
  "RequirePermission cfg perm handler rq =
     (let rs = setAuthResponseHeaders (wc_secure_cookies cfg) new_response;
          internal = answer (writeAuthorizationError 500 ''internal_error'' ''Unable to authorize request.'' rs);
          unauthenticated = answer (writeAuthorizationError 401 ''unauthenticated'' ''Authentication required.'' rs) in
      case (wc_sessions cfg, wc_authorization cfg) of
        (Some sessions, Some authorize) \<Rightarrow>
          if trim_space perm = [] then internal
          else (case cookie SessionCookieName rq of
              None \<Rightarrow> unauthenticated
            | Some token \<Rightarrow>
                if trim_space token = [] then unauthenticated
                else on_world (sa_validate sessions token) (\<lambda>res. case res of
                    Inl e \<Rightarrow> if err_is e ErrInvalidSession then unauthenticated else internal
                  | Inr who \<Rightarrow>
                      on_world (authorize (sp_user_id who) perm) (\<lambda>res. case res of
                          Inl e \<Rightarrow> if err_is e ErrForbidden
                            then answer (writeAuthorizationError 403 ''forbidden'' ''Permission denied.'' rs)
                            else internal
                        | Inr _ \<Rightarrow> handler who)))
      | _ \<Rightarrow> internal)"

section \<open>Pages\<close>

definition page_headers :: "web_config \<Rightarrow> web_response" where
  "page_headers cfg = setAuthResponseHeaders (wc_secure_cookies cfg) new_response"

definition handleHome :: "web_config \<Rightarrow> web_handler" where
  "handleHome cfg = answer (write_html HomePage (page_headers cfg))"

definition maxRecentAuditEvents :: int where "maxRecentAuditEvents = MaxRecentEvents"

definition listRecentAuditEvents :: "web_config \<Rightarrow> audit_event list prog" where
  "listRecentAuditEvents cfg = (case wc_audit_events cfg of
     None \<Rightarrow> failp (Plain ''audit event reader is unavailable'')
   | Some list_recent \<Rightarrow> list_recent maxRecentAuditEvents)"

definition handleAuditEventsAPI :: "web_config \<Rightarrow> web_handler" where
  "handleAuditEventsAPI cfg = on_world (listRecentAuditEvents cfg) (\<lambda>res. answer (case res of
     Inl e \<Rightarrow> writeAuthorizationError 500 ''internal_error'' ''Unable to list audit events.'' (page_headers cfg)
   | Inr events \<Rightarrow> web_writeJSON 200 (AuditJson events) (page_headers cfg)))"

definition handleAuditEventsHTML :: "web_config \<Rightarrow> web_handler" where
  "handleAuditEventsHTML cfg = on_world (listRecentAuditEvents cfg) (\<lambda>res. answer (case res of
     Inl e \<Rightarrow> writeAuthorizationError 500 ''internal_error'' ''Unable to list audit events.'' (page_headers cfg)
   | Inr events \<Rightarrow> write_html (AuditPage events) (page_headers cfg)))"

definition maxRecentJobs :: int where "maxRecentJobs = 100"
definition maxJobLogs :: int where "maxJobLogs = 500"
definition maxJobMutationBodyBytes :: nat where "maxJobMutationBodyBytes = 1024"

definition status_counts :: "job list \<Rightarrow> status \<Rightarrow> nat" where
  "status_counts listed s = length (filter (\<lambda>j. j_status j = s) listed)"

definition handleJobs :: "web_config \<Rightarrow> web_handler" where
  "handleJobs cfg = (case wc_jobs cfg of
     None \<Rightarrow> answer (http_error ''Unable to list jobs.'' 500 (page_headers cfg))
   | Some jobs \<Rightarrow> on_world (jv_list_recent jobs maxRecentJobs) (\<lambda>res. answer (case res of
       Inl e \<Rightarrow> http_error ''Unable to list jobs.'' 500 (page_headers cfg)
     | Inr listed \<Rightarrow> write_html (JobsPage listed (status_counts listed)) (page_headers cfg))))"

definition writeJobReadError :: "err \<Rightarrow> web_response \<Rightarrow> web_response" where
  "writeJobReadError e = (if err_is e ErrJobNotFound then http_error ''Job not found.'' 404
     else http_error ''Unable to inspect job.'' 500)"

definition job_notice :: "web_request \<Rightarrow> string" where
  "job_notice rq = (let notice = form_get ''notice'' (fst (parse_query (wq_query rq))) in
     if notice = ''retried'' then ''Job queued for another attempt.''
     else if notice = ''cancelled'' then ''Queued job cancelled.''
     else [])"

definition handleJobDetail :: "web_config \<Rightarrow> string \<Rightarrow> web_request \<Rightarrow> web_handler" where
  "handleJobDetail cfg i rq = (case wc_jobs cfg of
     None \<Rightarrow> answer (http_error ''Unable to inspect job.'' 500 (page_headers cfg))
   | Some jobs \<Rightarrow> on_world (jv_get jobs i) (\<lambda>res. case res of
       Inl e \<Rightarrow> answer (writeJobReadError e (page_headers cfg))
     | Inr job \<Rightarrow> on_world (jv_list_logs jobs i maxJobLogs) (\<lambda>res. answer (case res of
         Inl e \<Rightarrow> writeJobReadError e (page_headers cfg)
       | Inr logs \<Rightarrow> write_html (JobPage job logs (job_notice rq)) (page_headers cfg)))))"

definition mutation_failure :: "err \<Rightarrow> web_response \<Rightarrow> web_response" where
  "mutation_failure e = (if err_is e ErrJobNotFound then http_error ''Job not found.'' 404
     else if err_is e ErrInvalidTransition then http_error ''Job state changed; refresh before trying again.'' 409
     else http_error ''Unable to update job.'' 500)"

text \<open>The principal comes from the context the guard made, so it is always there.\<close>

definition handleJobMutation ::
  "web_library \<Rightarrow> web_config \<Rightarrow> bool \<Rightarrow> string \<Rightarrow> web_request \<Rightarrow> session_principal \<Rightarrow> web_handler" where
  "handleJobMutation lib cfg is_retry i rq who = (case wc_jobs cfg of
     None \<Rightarrow> answer (http_error ''Unable to update job.'' 500 (page_headers cfg))
   | Some jobs \<Rightarrow>
       if \<not> authRequestIsSameOrigin lib (wc_secure_cookies cfg) rq
       then answer (http_error ''Forbidden.'' 403 (page_headers cfg))
       else if parse_form lib maxJobMutationBodyBytes rq \<noteq> Some []
       then answer (http_error ''Invalid request.'' 400 (page_headers cfg))
       else (let m = \<lparr>mu_actor_user_id = sp_user_id who,
                      mu_ip_address = requestIPAddress lib (wq_remote_addr rq),
                      mu_user_agent = requestUserAgent rq\<rparr> in
         on_world ((if is_retry then jv_retry jobs else jv_cancel jobs) i m) (\<lambda>res. answer (case res of
           Inl e \<Rightarrow> mutation_failure e (page_headers cfg)
         | Inr _ \<Rightarrow> redirect (''/jobs/'' @ i @ ''?notice='' @ (if is_retry then ''retried'' else ''cancelled''))
             (page_headers cfg)))))"

definition handleJobRetry where "handleJobRetry lib cfg = handleJobMutation lib cfg True"
definition handleJobCancel where "handleJobCancel lib cfg = handleJobMutation lib cfg False"

definition handleInventory :: "web_config \<Rightarrow> web_handler" where
  "handleInventory cfg = (case wc_inventory cfg of
     None \<Rightarrow> answer (http_error ''Unable to load server inventory.'' 500 (page_headers cfg))
   | Some fetch \<Rightarrow> on_world fetch (\<lambda>res. answer (case res of
       Inl e \<Rightarrow> http_error ''Unable to load server inventory.'' 500 (page_headers cfg)
     | Inr view \<Rightarrow> write_html (InventoryPage view) (page_headers cfg))))"

section \<open>Public pages\<close>

definition style_sheet :: "page \<Rightarrow> web_response" where
  "style_sheet p = (set_header ''X-Content-Type-Options'' ''nosniff''
     (set_header ''Cache-Control'' ''public, max-age=3600''
     (set_header ''Content-Type'' ''text/css; charset=utf-8'' new_response)))\<lparr>rs_page := p\<rparr>"

definition handleJobStyles :: web_handler where "handleJobStyles = answer (style_sheet JobStyles)"

definition handleInventoryStyles :: web_handler where "handleInventoryStyles = answer (style_sheet InventoryStyles)"

definition web_handleHealth :: web_handler where
  "web_handleHealth = answer (web_writeJSON 200 (Json (JObj [(''status'', JStr ''ok'')])) new_response)"

definition handleReady :: "web_config \<Rightarrow> web_handler" where
  "handleReady cfg = on_world (case wc_ready cfg of None \<Rightarrow> retp () | Some r \<Rightarrow> r) (\<lambda>res. answer (case res of
     Inl e \<Rightarrow> web_writeJSON 503
       (Json (JObj [(''error'', JStr (err_msg e)), (''status'', JStr ''not_ready'')])) new_response
   | Inr _ \<Rightarrow> web_writeJSON 200 (Json (JObj [(''status'', JStr ''ready'')])) new_response))"

definition web_handleVersion :: "web_config \<Rightarrow> web_handler" where
  "web_handleVersion cfg = answer (web_writeJSON 200 (VersionJson (wc_version cfg)) new_response)"

section \<open>Routes\<close>

datatype protected_page = Home | AuditHTML | AuditAPI | JobList | JobDetail string | JobRetry string | JobCancel string
  | InventoryView

datatype public_page = JobCss | InventoryCss | Favicon | Healthz | Readyz | Version | LoginForm | LoginPost | LogoutPost

datatype web_route = Guarded protected_page | Public public_page | Moved string | BadMethod string

text \<open>The permission a page asks for.\<close>

fun page_permission :: "protected_page \<Rightarrow> string" where
  "page_permission Home = PermissionWebsitesManage"
| "page_permission AuditHTML = PermissionAuditRead"
| "page_permission AuditAPI = PermissionAuditRead"
| "page_permission JobList = PermissionJobsManage"
| "page_permission (JobDetail i) = PermissionJobsManage"
| "page_permission (JobRetry i) = PermissionJobsManage"
| "page_permission (JobCancel i) = PermissionJobsManage"
| "page_permission InventoryView = PermissionSettingsManage"

text \<open>The mux cleans the escaped path and splits it into segments, each unescaped; a closing slash is
  a segment \<open>/\<close>, which no wildcard matches.\<close>

definition mux_clean :: "string \<Rightarrow> string" where
  "mux_clean p = (if p = [] then ''/''
     else (let q = (if hd p = CHR ''/'' then p else CHR ''/'' # p); c = path_clean q in
       if last q = CHR ''/'' \<and> c \<noteq> ''/'' then c @ ''/'' else c))"

definition segments :: "string \<Rightarrow> string list" where
  "segments p = (let parts = split_on CHR ''/'' (tl p) in
     map path_unescape (if last parts = [] then butlast parts @ [''/''] else parts))"

definition get_route :: "bool \<Rightarrow> string list \<Rightarrow> web_route" where
  "get_route with_sessions segs =
     (if segs = [''audit-events''] then Guarded AuditHTML
      else if segs = [''api'', ''audit-events''] then Guarded AuditAPI
      else if segs = [''jobs''] then Guarded JobList
      else if length segs = 2 \<and> hd segs = ''jobs'' \<and> segs ! 1 \<noteq> ''/'' then Guarded (JobDetail (segs ! 1))
      else if segs = [''inventory''] then Guarded InventoryView
      else if segs = [''assets'', ''jobs.css''] then Public JobCss
      else if segs = [''assets'', ''inventory.css''] then Public InventoryCss
      else if segs = [''favicon.ico''] then Public Favicon
      else if segs = [''healthz''] then Public Healthz
      else if segs = [''readyz''] then Public Readyz
      else if segs = [''version''] then Public Version
      else if with_sessions \<and> segs = [''login''] then Public LoginForm
      else Guarded Home)"

definition post_route :: "bool \<Rightarrow> string list \<Rightarrow> web_route option" where
  "post_route with_sessions segs =
     (if length segs = 3 \<and> hd segs = ''jobs'' \<and> segs ! 2 = ''retry'' then Some (Guarded (JobRetry (segs ! 1)))
      else if length segs = 3 \<and> hd segs = ''jobs'' \<and> segs ! 2 = ''cancel'' then Some (Guarded (JobCancel (segs ! 1)))
      else if with_sessions \<and> segs = [''login''] then Some (Public LoginPost)
      else if with_sessions \<and> segs = [''logout''] then Some (Public LogoutPost)
      else None)"

text \<open>\<open>GET /\<close> matches every path, so nothing is answered 404; a path without a pattern for the method
  is answered 405.\<close>

definition route :: "bool \<Rightarrow> string \<Rightarrow> string \<Rightarrow> web_route" where
  "route with_sessions meth escaped =
     (let path = (if meth = ''CONNECT'' then escaped else mux_clean escaped); segs = segments path;
          posts = post_route with_sessions segs in
      if path \<noteq> escaped then Moved path
      else if meth = ''GET'' \<or> meth = ''HEAD'' then get_route with_sessions segs
      else if meth = ''POST'' \<and> posts \<noteq> None then the posts
      else BadMethod (if posts = None then ''GET, HEAD'' else ''GET, HEAD, POST''))"

definition protected_handler ::
  "web_library \<Rightarrow> web_config \<Rightarrow> protected_page \<Rightarrow> web_request \<Rightarrow> session_principal \<Rightarrow> web_handler" where
  "protected_handler lib cfg page rq who = (case page of
     Home \<Rightarrow> handleHome cfg
   | AuditHTML \<Rightarrow> handleAuditEventsHTML cfg
   | AuditAPI \<Rightarrow> handleAuditEventsAPI cfg
   | JobList \<Rightarrow> handleJobs cfg
   | JobDetail i \<Rightarrow> handleJobDetail cfg i rq
   | JobRetry i \<Rightarrow> handleJobRetry lib cfg i rq who
   | JobCancel i \<Rightarrow> handleJobCancel lib cfg i rq who
   | InventoryView \<Rightarrow> handleInventory cfg)"

definition public_handler ::
  "web_library \<Rightarrow> web_config \<Rightarrow> moment \<Rightarrow> public_page \<Rightarrow> web_request \<Rightarrow> web_handler" where
  "public_handler lib cfg mo page rq = (case page of
     JobCss \<Rightarrow> handleJobStyles
   | InventoryCss \<Rightarrow> handleInventoryStyles
   | Favicon \<Rightarrow> answer (new_response\<lparr>rs_status := 204\<rparr>)
   | Healthz \<Rightarrow> web_handleHealth
   | Readyz \<Rightarrow> handleReady cfg
   | Version \<Rightarrow> web_handleVersion cfg
   | LoginForm \<Rightarrow> handleLoginForm cfg
   | LoginPost \<Rightarrow> (case wc_sessions cfg of Some s \<Rightarrow> handleLogin lib cfg s mo rq | None \<Rightarrow> answer new_response)
   | LogoutPost \<Rightarrow> (case wc_sessions cfg of Some s \<Rightarrow> handleLogout lib cfg s rq | None \<Rightarrow> answer new_response))"

text \<open>\<open>Handler\<close>: one request. A moved path keeps the query.\<close>

definition web_serve :: "web_library \<Rightarrow> web_config \<Rightarrow> moment \<Rightarrow> web_request \<Rightarrow> web_handler" where
  "web_serve lib cfg mo rq = (case route (wc_sessions cfg \<noteq> None) (wq_method rq) (wq_path rq) of
     Guarded page \<Rightarrow> RequirePermission cfg (page_permission page) (protected_handler lib cfg page rq) rq
   | Public page \<Rightarrow> public_handler lib cfg mo page rq
   | Moved path \<Rightarrow>
       (let url = path @ (if wq_query rq = [] then [] else CHR ''?'' # wq_query rq);
            rs = (set_header ''Location'' url new_response)\<lparr>rs_status := 301\<rparr> in
        answer (if wq_method rq = ''GET'' \<or> wq_method rq = ''HEAD'' then write_html (MovedPage url) rs else rs))
   | BadMethod allowed \<Rightarrow> answer (http_error ''Method Not Allowed'' 405 (set_header ''Allow'' allowed new_response)))"

end
