(* ===== verification/Panel.thy ===== *)
theory Panel
  imports WebServer JobWorker Bootstrap Migrations Config
begin

text \<open>
  \<open>cmd/motekar-panel\<close>: the panel's commands, the server it assembles from the SQL services and the
  agent, and \<open>internal/database/postgres.go\<close>. The environment, the standard input, what the agent
  answers and what opening the database says are parameters.
\<close>

section \<open>The inventory page's data (\<open>inventory_fetcher.go\<close>)\<close>

text \<open>A value of the agent's data is JSON; in a map the last value of a key counts. \<open>float_int\<close> is the
  conversion of a number to \<open>int\<close> by way of \<open>float64\<close>.\<close>

definition data_member :: "(string \<times> json) list \<Rightarrow> string \<Rightarrow> json option" where
  "data_member d = map_of (rev d)"

definition toInt :: "(string \<Rightarrow> int) \<Rightarrow> json option \<Rightarrow> int" where
  "toInt float_int v = (case v of Some (JNum n) \<Rightarrow> float_int n | _ \<Rightarrow> 0)"

definition toFloat :: "json option \<Rightarrow> string" where
  "toFloat v = (case v of Some (JNum n) \<Rightarrow> n | _ \<Rightarrow> ''0'')"

definition toText :: "json option \<Rightarrow> string" where
  "toText v = (case v of Some (JStr s) \<Rightarrow> s | _ \<Rightarrow> [])"

definition toStringSlice :: "json option \<Rightarrow> string list" where
  "toStringSlice v = (case v of
     Some (JArr items) \<Rightarrow> filter (\<lambda>s. s \<noteq> []) (map (\<lambda>i. toText (Some i)) items)
   | _ \<Rightarrow> [])"

definition inventoryAgentMessage :: "err \<Rightarrow> string" where
  "inventoryAgentMessage e =
     (case List.find (\<lambda>x. case x of RemoteActionError _ _ \<Rightarrow> True | _ \<Rightarrow> False) (err_chain e) of
        Some (RemoteActionError status code) \<Rightarrow>
          ''The local agent rejected the inventory request (HTTP '' @ digits status @ '', '' @ code @ '').''
      | _ \<Rightarrow> err_msg e)"

definition empty_view :: server_inventory where
  "empty_view = \<lparr>iv_agent_status = [], iv_agent_message = [], iv_os = [], iv_kernel = [], iv_cpu_cores = 0,
     iv_ram_total = 0, iv_ram_available = 0, iv_swap = 0, iv_disk_free = 0, iv_load1 = ''0'', iv_load5 = ''0'',
     iv_load15 = ''0'', iv_uptime = 0, iv_ip_addresses = [], iv_services = [], iv_web_server = [],
     iv_has_systemd = False\<rparr>"

definition os_text :: "(string \<times> json) list \<Rightarrow> string" where
  "os_text d = (case data_member d ''os'' of
     Some (JObj os) \<Rightarrow> join '' '' (filter (\<lambda>s. s \<noteq> [])
       [toText (data_member os ''name''), toText (data_member os ''id''), toText (data_member os ''versionId'')])
   | _ \<Rightarrow> [])"

definition inventory_view :: "(string \<Rightarrow> int) \<Rightarrow> (string \<times> json) list \<Rightarrow> server_inventory" where
  "inventory_view float_int d = \<lparr>iv_agent_status = ''online'', iv_agent_message = [],
     iv_os = os_text d,
     iv_kernel = toText (data_member d ''kernel''),
     iv_cpu_cores = toInt float_int (data_member d ''cpuCores''),
     iv_ram_total = toInt float_int (data_member d ''ramTotalMB''),
     iv_ram_available = toInt float_int (data_member d ''ramAvailableMB''),
     iv_swap = toInt float_int (data_member d ''swapMB''),
     iv_disk_free = toInt float_int (data_member d ''diskFreeGB''),
     iv_load1 = toFloat (data_member d ''load1''),
     iv_load5 = toFloat (data_member d ''load5''),
     iv_load15 = toFloat (data_member d ''load15''),
     iv_uptime = toInt float_int (data_member d ''uptimeSeconds''),
     iv_ip_addresses = toStringSlice (data_member d ''ipAddresses''),
     iv_services = toStringSlice (data_member d ''services''),
     iv_web_server = [],
     iv_has_systemd = (data_member d ''hasSystemd'' = Some (JBool True))\<rparr>"

text \<open>\<open>settingsWebServerReader.Selected\<close> hides the error.\<close>

definition reader_selected :: "web_server prog \<Rightarrow> string prog" where
  "reader_selected selected = trying selected (\<lambda>res. case res of
     Inl e \<Rightarrow> retp [] | Inr s \<Rightarrow> retp (web_server_text s))"

definition Fetch ::
  "(string \<Rightarrow> int) \<Rightarrow> (string \<Rightarrow> string \<Rightarrow> err + action_result) \<Rightarrow> string prog option \<Rightarrow> server_inventory prog" where
  "Fetch float_int execute webServer = (case execute ''server.inventory'' ''{}'' of
     Inl e \<Rightarrow> retp (empty_view\<lparr>iv_agent_status := ''unavailable'', iv_agent_message := inventoryAgentMessage e\<rparr>)
   | Inr result \<Rightarrow> (let view = inventory_view float_int (an_data result) in
       case webServer of
         None \<Rightarrow> retp view
       | Some selected \<Rightarrow> trying selected (\<lambda>res. case res of
           Inr s \<Rightarrow> retp (if s \<noteq> [] then view\<lparr>iv_web_server := s\<rparr> else view)
         | Inl e \<Rightarrow> retp view)))"

section \<open>The server (\<open>main.go\<close>)\<close>

text \<open>What the clocks, the generators and the agent deliver during one request. The audit writers of
  the session store, of the job store and of the login handler each draw for themselves.\<close>

record panel_draws =
  pd_lower :: "rune \<Rightarrow> rune"
  pd_kdf :: kdf
  pd_pg :: pg
  pd_now :: time
  pd_session_id :: "err + string"
  pd_token_random :: "err + string"
  pd_password_slot :: "err option"
  pd_session_audit :: "time \<times> (err + string)"
  pd_reject_audit :: "time \<times> (err + string)"
  pd_job_audit :: "time \<times> (err + string)"
  pd_ping :: "err option"
  pd_health :: "err option"
  pd_agent :: "string \<Rightarrow> string \<Rightarrow> err + action_result"
  pd_float_int :: "string \<Rightarrow> int"

definition panel_sessions :: "panel_draws \<Rightarrow> session_authenticator" where
  "panel_sessions d =
     (let s = sql_session_service (pd_pg d) (pd_now d) (pd_session_id d) (newSessionToken (pd_token_random d))
            (fst (pd_session_audit d)) (snd (pd_session_audit d)) in
      \<lparr>sa_login = Login (pd_lower d) (pd_kdf d) s (pd_password_slot d), sa_logout = Logout s, sa_validate = Validate s\<rparr>)"

definition panel_jobs :: "panel_draws \<Rightarrow> job_service" where
  "panel_jobs d = \<lparr>jv_list_recent = store_list_recent, jv_get = store_get (pd_pg d),
     jv_list_logs = store_list_logs (pd_pg d),
     jv_retry = store_retry (pd_pg d) (fst (pd_job_audit d)) (snd (pd_job_audit d)),
     jv_cancel = store_cancel (pd_pg d) (fst (pd_job_audit d)) (snd (pd_job_audit d))\<rparr>"

definition panel_ready :: "panel_draws \<Rightarrow> unit prog" where
  "panel_ready d = (case pd_ping d of
     Some e \<Rightarrow> failp (Wrapped ''database unavailable: '' e [])
   | None \<Rightarrow> (case pd_health d of Some e \<Rightarrow> failp e | None \<Rightarrow> retp ()))"

definition panel_web :: "build_info \<Rightarrow> bool \<Rightarrow> panel_draws \<Rightarrow> web_config" where
  "panel_web version secure d = \<lparr>wc_version = version,
     wc_ready = Some (panel_ready d),
     wc_sessions = Some (panel_sessions d),
     wc_authorization = Some (Authorize (sql_has_permission (pd_pg d))),
     wc_audit_events = Some audit_list_recent,
     wc_audit_recorder = Some (audit_record (audit_write (pd_pg d)) (fst (pd_reject_audit d)) (snd (pd_reject_audit d))),
     wc_audit_error = True,
     wc_jobs = Some (panel_jobs d),
     wc_inventory = Some (Fetch (pd_float_int d) (pd_agent d)
       (Some (reader_selected (Selected (pd_lower d) (NewWebServerService sql_setting_store))))),
     wc_secure_cookies = secure\<rparr>"

lemma panel_web_sel [simp]:
  "wc_version (panel_web version secure d) = version"
  "wc_ready (panel_web version secure d) = Some (panel_ready d)"
  "wc_sessions (panel_web version secure d) = Some (panel_sessions d)"
  "wc_authorization (panel_web version secure d) = Some (Authorize (sql_has_permission (pd_pg d)))"
  "wc_audit_events (panel_web version secure d) = Some audit_list_recent"
  "wc_audit_recorder (panel_web version secure d) =
     Some (audit_record (audit_write (pd_pg d)) (fst (pd_reject_audit d)) (snd (pd_reject_audit d)))"
  "wc_audit_error (panel_web version secure d)"
  "wc_jobs (panel_web version secure d) = Some (panel_jobs d)"
  "wc_secure_cookies (panel_web version secure d) = secure"
  by (simp_all add: panel_web_def)

text \<open>The shutdown of \<open>serve\<close>: why it stops, what \<open>Shutdown\<close> returned, and how the worker ended: in time,
  after the actions were cancelled, or not at all. The result is the joined error, \<open>None\<close> for nil.\<close>

datatype stop_cause = ServerFailed err | WorkerEnded "err option" | Signalled

datatype worker_end = EndsInTime "err option" | EndsCancelled "err option" | Hangs

definition join_errors :: "err option \<Rightarrow> err option \<Rightarrow> err option" where
  "join_errors a b = (case (a, b) of
     (None, e) \<Rightarrow> e | (e, None) \<Rightarrow> e | (Some x, Some y) \<Rightarrow> Some (Joined x y))"

definition serve_result :: "stop_cause \<Rightarrow> err option \<Rightarrow> worker_end \<Rightarrow> err option" where
  "serve_result cause shutdownErr worker =
     (let runtimeErr = (case cause of ServerFailed e \<Rightarrow> Some e | WorkerEnded e \<Rightarrow> e | Signalled \<Rightarrow> None);
          runtimeErr = (case cause of WorkerEnded e \<Rightarrow> runtimeErr
            | _ \<Rightarrow> (case worker of
                EndsInTime e \<Rightarrow> join_errors runtimeErr e
              | EndsCancelled e \<Rightarrow> join_errors runtimeErr e
              | Hangs \<Rightarrow> join_errors runtimeErr (Some (Plain ''job worker shutdown timed out'')))) in
      join_errors runtimeErr shutdownErr)"

text \<open>\<open>serve\<close>: nothing is started unless the settings load and the database answers. \<open>connect\<close> is the
  error of opening the database or of the ping (\<open>postgres.go\<close>).\<close>

definition OpenPostgres :: "(string \<Rightarrow> err option) \<Rightarrow> string \<Rightarrow> err + unit" where
  "OpenPostgres connect url =
     (if url = [] then Inl (Plain ''MOTEKAR_DATABASE_URL is required'')
      else case connect url of Some e \<Rightarrow> Inl e | None \<Rightarrow> Inr ())"

definition panel_serve ::
  "(rune \<Rightarrow> rune) \<Rightarrow> (string \<Rightarrow> string) \<Rightarrow> (string \<Rightarrow> err option) \<Rightarrow> stop_cause \<Rightarrow> err option \<Rightarrow> worker_end \<Rightarrow> err option" where
  "panel_serve ul getenv connect cause shutdownErr worker =
     (case rbind (loadPanel ul getenv) (\<lambda>cfg. OpenPostgres connect (pc_database_url cfg)) of
        Inl e \<Rightarrow> Some e
      | Inr _ \<Rightarrow> serve_result cause shutdownErr worker)"

section \<open>Commands\<close>

datatype panel_command = BootstrapCmd "string list" | ServeCmd | MigrateCmd "string list" | VersionCmd

definition panel_run :: "string list \<Rightarrow> err + panel_command" where
  "panel_run args =
     (let command = (case args of [] \<Rightarrow> ''serve'' | c # _ \<Rightarrow> c) in
      if command = ''bootstrap'' then Inr (BootstrapCmd (tl args))
      else if command = ''serve'' then Inr ServeCmd
      else if command = ''migrate'' then Inr (MigrateCmd (tl args))
      else if command = ''version'' then Inr VersionCmd
      else Inl (Plain (''unknown command '' @ quoted command)))"

definition applied_line :: "migration \<Rightarrow> string" where
  "applied_line m = ''applied '' @ six_digits (mg_version m) @ ''_'' @ mg_name m"

text \<open>\<open>dir_fs\<close> is the directory at a path, \<open>embedded\<close> the one in the binary. The result are the lines
  printed, and the error if there is one.\<close>

definition migrate ::
  "(rune \<Rightarrow> rune) \<Rightarrow> (string \<Rightarrow> string) \<Rightarrow> (string \<Rightarrow> err option) \<Rightarrow> (string \<Rightarrow> err + dir_entry list) \<Rightarrow> err + dir_entry list
     \<Rightarrow> (string \<Rightarrow> tables \<Rightarrow> err + tables) \<Rightarrow> string list \<Rightarrow> string list prog" where
  "migrate ul getenv connect dir_fs embedded exec args w =
     (let subcommand = (case args of [] \<Rightarrow> ''up'' | c # _ \<Rightarrow> c) in
      if subcommand \<noteq> ''up'' then (Inl (Plain (''unknown migrate command '' @ quoted subcommand)), w)
      else case rbind (loadPanel ul getenv) (\<lambda>cfg. rbind (OpenPostgres connect (pc_database_url cfg)) (\<lambda>_.
               LoadMigrations (if pc_migrations_dir cfg = [] then embedded
                               else dir_fs (path_clean (pc_migrations_dir cfg))))) of
          Inl e \<Rightarrow> (Inl e, w)
        | Inr pending \<Rightarrow> (case Up (sql_migration_store exec) pending w of
            ((did, Some e), w') \<Rightarrow> (Inl e, w')
          | ((did, None), w') \<Rightarrow>
              (Inr (if did = [] then [''no migrations to apply''] else map applied_line did), w')))"

record bootstrap_admin_options =
  bo_email :: string
  bo_display_name :: string
  bo_password_stdin :: bool

definition bootstrap_flags :: flag_set where
  "bootstrap_flags = [''email'' \<mapsto> FString [], ''display-name'' \<mapsto> FString [], ''password-stdin'' \<mapsto> FBool False]"

definition parseBootstrapAdminOptions :: "string list \<Rightarrow> err + bootstrap_admin_options" where
  "parseBootstrapAdminOptions args = (case parse_flags bootstrap_flags args of
     Inl e \<Rightarrow> Inl e
   | Inr (fs, rest) \<Rightarrow>
       (let options = \<lparr>bo_email = flag_string fs ''email'', bo_display_name = flag_string fs ''display-name'',
              bo_password_stdin = flag_bool fs ''password-stdin''\<rparr> in
        if rest \<noteq> [] then Inl (Plain (''unexpected bootstrap admin arguments: '' @ join '' '' rest))
        else if bo_email options = [] then Inl (Plain ''bootstrap admin email is required'')
        else if bo_display_name options = [] then Inl (Plain ''bootstrap admin display name is required'')
        else if \<not> bo_password_stdin options
        then Inl (Plain ''bootstrap admin password must be provided with --password-stdin'')
        else Inr options))"

definition line_ends :: string where "line_ends = [CHR 0x0D, CHR 0x0A]"

definition readBootstrapPassword :: "err + string \<Rightarrow> bootstrap_admin_options \<Rightarrow> err + string" where
  "readBootstrapPassword stdin options =
     (if \<not> bo_password_stdin options
      then Inl (Plain ''bootstrap admin password must be provided with --password-stdin'')
      else rbind stdin (\<lambda>raw. let password = trim_right_set raw line_ends in
        if password = [] then Inl (Plain ''bootstrap admin password cannot be empty'') else Inr password))"

definition runBootstrapAdmin ::
  "string list \<Rightarrow> err + string \<Rightarrow> (bootstrap_input \<Rightarrow> bootstrap_admin prog) \<Rightarrow> string list prog" where
  "runBootstrapAdmin args stdin create =
     (case rbind (parseBootstrapAdminOptions args) (\<lambda>options.
             rbind (readBootstrapPassword stdin options) (\<lambda>password. Inr
               \<lparr>bi_email = bo_email options, bi_display_name = bo_display_name options, bi_password = password\<rparr>)) of
        Inl e \<Rightarrow> failp e
      | Inr input \<Rightarrow> bindp (create input) (\<lambda>admin. retp [''created first admin: '' @ ba_email admin]))"

definition createBootstrapAdmin ::
  "(rune \<Rightarrow> rune) \<Rightarrow> (string \<Rightarrow> string) \<Rightarrow> (string \<Rightarrow> err option) \<Rightarrow> (bootstrap_input \<Rightarrow> bootstrap_admin prog)
     \<Rightarrow> bootstrap_input \<Rightarrow> bootstrap_admin prog" where
  "createBootstrapAdmin ul getenv connect create_first input =
     (case rbind (loadPanel ul getenv) (\<lambda>cfg. OpenPostgres connect (pc_database_url cfg)) of
        Inl e \<Rightarrow> failp e
      | Inr _ \<Rightarrow> create_first input)"

definition panel_bootstrap ::
  "string list \<Rightarrow> err + string \<Rightarrow> (bootstrap_input \<Rightarrow> bootstrap_admin prog) \<Rightarrow> string list prog" where
  "panel_bootstrap args stdin create =
     (if args = [] \<or> hd args \<noteq> ''admin''
      then failp (Plain ''usage: motekar-panel bootstrap admin --email <email> --display-name <name> --password-stdin'')
      else runBootstrapAdmin (tl args) stdin create)"

end
