(* ===== verification/WebGuard.thy ===== *)
theory WebGuard
  imports Panel
begin

text \<open>
  The guard in front of the pages: the contract between it and the session and permission services,
  and that a protected page is answered only for a live session of a user with the page's permission.
\<close>

section \<open>Calls that only read\<close>

definition reads :: "'a prog \<Rightarrow> bool" where
  "reads p = (\<forall>w. w_tables (snd (p w)) = w_tables w)"

lemma readsD: "reads p \<Longrightarrow> p w = (r, w') \<Longrightarrow> w_tables w' = w_tables w"
  unfolding reads_def by (metis snd_conv)

lemma reads_query: "reads (query f)"
  by (simp add: reads_def)

lemma reads_retp: "reads (retp a)"
  by (simp add: reads_def retp_def)

lemma reads_failp: "reads (failp e)"
  by (simp add: reads_def failp_def)

lemma reads_bindp: "reads m \<Longrightarrow> (\<And>a. reads (f a)) \<Longrightarrow> reads (bindp m f)"
  unfolding reads_def bindp_def by (auto split: prod.split sum.split) (metis snd_conv)+

lemma reads_trying: "reads m \<Longrightarrow> (\<And>r. reads (k r)) \<Longrightarrow> reads (trying m k)"
  unfolding reads_def trying_def by (auto split: prod.split) (metis snd_conv)

lemmas reads_intros = reads_query reads_retp reads_failp reads_bindp reads_trying

lemma store_reads:
  "reads (store_list_recent n)" "reads (store_get pg i)" "reads (store_list_logs pg i n)" "reads (audit_list_recent n)"
  unfolding store_list_recent_def store_get_def store_list_logs_def audit_list_recent_def
  by (auto intro!: reads_intros split: option.split)

lemma selected_reads: "reads (reader_selected (Selected ul (NewWebServerService sql_setting_store)))"
  unfolding reader_selected_def Selected_def NewWebServerService_def sql_setting_store_def sql_setting_get_def
  by (auto intro!: reads_intros split: sum.split option.split)

lemma fetch_reads: "(case s of None \<Rightarrow> True | Some p \<Rightarrow> reads p) \<Longrightarrow> reads (Fetch fi call s)"
  unfolding Fetch_def Let_def by (auto intro!: reads_intros split: sum.split option.split)

lemma validate_reads: "reads (Validate (sql_session_service pg now newid newtok anow anewid) token)"
  unfolding Validate_def sql_session_service_sel sql_session_store_sel sql_find_active_session_def
  by (auto intro!: reads_intros split: sum.split list.split)

lemma authorize_reads: "reads (Authorize (sql_has_permission pg) u p)"
  unfolding reads_def
proof
  fix w
  obtain r w' where a: "Authorize (sql_has_permission pg) u p w = (r, w')" by fastforce
  then show "w_tables (snd (Authorize (sql_has_permission pg) u p w)) = w_tables w"
    using sql_checker.authorize_ok[of pg u p w w'] sql_checker.authorize_denied[of pg u p w _ w'] by (cases r) auto
qed

section \<open>Handlers that change nothing\<close>

definition same_state :: "web_state \<Rightarrow> web_state \<Rightarrow> bool" where
  "same_state st st' = (\<exists>w. st' = st\<lparr>wt_world := w\<rparr> \<and> w_tables w = w_tables (wt_world st))"

definition harmless :: "web_handler \<Rightarrow> bool" where
  "harmless h = (\<forall>st. same_state st (snd (h st)) \<and> rs_cookies (fst (h st)) = [])"

lemma same_state_refl: "same_state st st"
  unfolding same_state_def by (rule exI[of _ "wt_world st"]) simp

lemma same_state_trans: "same_state a b \<Longrightarrow> same_state b c \<Longrightarrow> same_state a c"
  unfolding same_state_def by force

lemma same_world: "w_tables w = w_tables (wt_world st) \<Longrightarrow> same_state st (st\<lparr>wt_world := w\<rparr>)"
  unfolding same_state_def by blast

lemma harmless_answer: "rs_cookies rs = [] \<Longrightarrow> harmless (answer rs)"
  by (simp add: harmless_def answer_def same_state_refl)

lemma harmless_on_world:
  assumes "reads p" and "\<And>r. harmless (k r)"
  shows "harmless (on_world p k)"
  unfolding harmless_def
proof
  fix st :: web_state
  obtain r w where p: "p (wt_world st) = (r, w)" by fastforce
  then have "same_state st (st\<lparr>wt_world := w\<rparr>)" by (intro same_world readsD[OF assms(1)])
  moreover have "same_state (st\<lparr>wt_world := w\<rparr>) (snd (k r (st\<lparr>wt_world := w\<rparr>)))"
      "rs_cookies (fst (k r (st\<lparr>wt_world := w\<rparr>))) = []"
    using assms(2)[of r] by (simp_all add: harmless_def)
  ultimately show "same_state st (snd (on_world p k st)) \<and> rs_cookies (fst (on_world p k st)) = []"
    using p by (auto simp: on_world_def intro: same_state_trans)
qed

text \<open>No response but those of login and logout has a cookie.\<close>

lemma no_cookies [simp]:
  "rs_cookies new_response = []" "rs_cookies (set_header k v rs) = rs_cookies rs"
  "rs_cookies (setAuthResponseHeaders secure rs) = rs_cookies rs"
  "rs_cookies (http_error msg code rs) = rs_cookies rs" "rs_cookies (web_writeJSON code p rs) = rs_cookies rs"
  "rs_cookies (write_html p rs) = rs_cookies rs" "rs_cookies (redirect url rs) = rs_cookies rs"
  "rs_cookies (writeAuthorizationError code c m rs) = rs_cookies rs"
  "rs_cookies (page_headers cfg) = []" "rs_cookies (writeJobReadError e rs) = rs_cookies rs"
  "rs_cookies (mutation_failure e rs) = rs_cookies rs" "rs_cookies (style_sheet p) = []"
  by (simp_all add: new_response_def set_header_def setAuthResponseHeaders_def Let_def http_error_def web_writeJSON_def
      write_html_def redirect_def writeAuthorizationError_def page_headers_def writeJobReadError_def mutation_failure_def
      style_sheet_def)

lemmas harmless_intros = harmless_answer harmless_on_world

lemma guard_harmless:
  assumes "\<And>s t. wc_sessions cfg = Some s \<Longrightarrow> reads (sa_validate s t)"
    and "\<And>a u p. wc_authorization cfg = Some a \<Longrightarrow> reads (a u p)" and "\<And>p. harmless (h p)"
  shows "harmless (RequirePermission cfg perm h rq)"
  unfolding RequirePermission_def Let_def using assms
  by (auto intro!: harmless_intros split: option.split sum.split)

lemma panel_reads:
  "reads (sa_validate (panel_sessions d) t)" "reads (panel_ready d)"
  unfolding panel_sessions_def panel_ready_def Let_def
  by (auto intro!: reads_intros validate_reads split: option.split)

text \<open>The pages that only show something.\<close>

fun shows_only :: "protected_page \<Rightarrow> bool" where
  "shows_only (JobRetry i) = False"
| "shows_only (JobCancel i) = False"
| "shows_only page = True"

lemma showing_harmless:
  assumes "shows_only page \<or> \<not> authRequestIsSameOrigin lib secure rq"
  shows "harmless (protected_handler lib (panel_web v secure d) page rq p)"
proof -
  have f: "reads (Fetch fi call (Some (reader_selected (Selected ul (NewWebServerService sql_setting_store)))))" for fi call ul
    by (rule fetch_reads) (simp add: selected_reads)
  show ?thesis using assms f
    unfolding protected_handler_def handleHome_def handleAuditEventsHTML_def handleAuditEventsAPI_def handleJobs_def
      handleJobDetail_def handleJobRetry_def handleJobCancel_def handleJobMutation_def handleInventory_def listRecentAuditEvents_def
    by (cases page) (auto simp: panel_jobs_def panel_web_def intro!: harmless_intros store_reads split: sum.split)
qed

section \<open>Protected pages\<close>

text \<open>A session that counts: a row under the hash of the token, not over, of an active user.\<close>

definition live_session :: "tables \<Rightarrow> time \<Rightarrow> string \<Rightarrow> session_principal \<Rightarrow> bool" where
  "live_session t now token p = (\<exists>r \<in> set (t_sessions t). sr_token_hash r = hashSessionToken token
     \<and> now < sr_expires_at r \<and> sp_user_id p = sr_user_id r
     \<and> (\<exists>u \<in> set (t_users t). ur_id u = sr_user_id r \<and> ur_is_active u))"

definition refusal :: "bool \<Rightarrow> web_response \<Rightarrow> bool" where
  "refusal secure rs = (\<exists>(status, code, message) \<in> {(500, ''internal_error'', ''Unable to authorize request.''),
     (401, ''unauthenticated'', ''Authentication required.''), (403, ''forbidden'', ''Permission denied.'')}.
     rs = writeAuthorizationError status code message (setAuthResponseHeaders secure new_response))"

text \<open>The contract between the guard and the two services it asks: they only read, a principal is one of
  a live session, and a permission granted is one held.\<close>

locale guarded_site =
  fixes validate :: "string \<Rightarrow> session_principal prog" and live :: "tables \<Rightarrow> string \<Rightarrow> session_principal \<Rightarrow> bool"
    and authorize :: "string \<Rightarrow> string \<Rightarrow> unit prog" and holds :: "tables \<Rightarrow> string \<Rightarrow> string \<Rightarrow> bool"
  assumes validate_reads: "reads (validate token)"
    and validate_live: "validate token w = (Inr p, w') \<Longrightarrow> live (w_tables w) token p"
    and authorize_reads: "reads (authorize u perm)"
    and authorize_holds: "authorize u perm w = (Inr (), w') \<Longrightarrow> holds (w_tables w) u perm"
begin

lemma guard_cases:
  assumes "wc_sessions cfg = Some s" and "sa_validate s = validate" and "wc_authorization cfg = Some authorize"
    and "RequirePermission cfg perm handler rq st = (rs, st')"
  obtains (refused) "refusal (wc_secure_cookies cfg) rs" "same_state st st'"
    | (passed) token p st1 where "cookie SessionCookieName rq = Some token"
        "live (w_tables (wt_world st)) token p" "holds (w_tables (wt_world st)) (sp_user_id p) perm"
        "same_state st st1" "handler p st1 = (rs, st')"
proof -
  let ?rs = "setAuthResponseHeaders (wc_secure_cookies cfg) new_response"
  have no: "refusal (wc_secure_cookies cfg) (writeAuthorizationError 500 ''internal_error'' ''Unable to authorize request.'' ?rs)"
    "refusal (wc_secure_cookies cfg) (writeAuthorizationError 401 ''unauthenticated'' ''Authentication required.'' ?rs)"
    "refusal (wc_secure_cookies cfg) (writeAuthorizationError 403 ''forbidden'' ''Permission denied.'' ?rs)"
    by (simp_all add: refusal_def)
  show thesis
  proof (cases "trim_space perm \<noteq> [] \<and> (\<exists>token. cookie SessionCookieName rq = Some token \<and> trim_space token \<noteq> [])")
    case False
    then have "refusal (wc_secure_cookies cfg) rs" "st' = st"
      using assms no by (auto simp: RequirePermission_def Let_def answer_def split: option.splits if_splits)
    then show thesis using refused same_state_refl by blast
  next
    case True
    then obtain token where t: "cookie SessionCookieName rq = Some token" "trim_space token \<noteq> []" by blast
    obtain r1 w1 where v: "validate token (wt_world st) = (r1, w1)" by fastforce
    have w1: "w_tables w1 = w_tables (wt_world st)" using readsD[OF validate_reads v] .
    show thesis
    proof (cases r1)
      case (Inl e)
      then have "refusal (wc_secure_cookies cfg) rs" "st' = st\<lparr>wt_world := w1\<rparr>"
        using assms no t True v by (auto simp: RequirePermission_def Let_def answer_def on_world_def split: if_splits)
      then show thesis using refused same_world[OF w1] by blast
    next
      case (Inr p)
      obtain r2 w2 where a: "authorize (sp_user_id p) perm w1 = (r2, w2)" by fastforce
      have w2: "w_tables w2 = w_tables (wt_world st)" using readsD[OF authorize_reads a] w1 by simp
      show thesis
      proof (cases r2)
        case (Inl e)
        then have "refusal (wc_secure_cookies cfg) rs" "st' = st\<lparr>wt_world := w2\<rparr>"
          using assms no t True v Inr a by (auto simp: RequirePermission_def Let_def answer_def on_world_def split: if_splits)
        then show thesis using refused same_world[OF w2] by blast
      next
        case (Inr u)
        then have "handler p (st\<lparr>wt_world := w2\<rparr>) = (rs, st')"
          using assms t True v \<open>r1 = Inr p\<close> a by (simp add: RequirePermission_def Let_def on_world_def)
        moreover have "holds (w_tables (wt_world st)) (sp_user_id p) perm"
          using authorize_holds[of "sp_user_id p" perm w1 w2] a Inr w1 by simp
        moreover have "live (w_tables (wt_world st)) token p"
          using validate_live[of token "wt_world st" p w1] v \<open>r1 = Inr p\<close> by simp
        ultimately show thesis using passed[OF t(1)] same_world[OF w2] by blast
      qed
    qed
  qed
qed

end

interpretation panel_site: guarded_site
  "Validate (sql_session_service pg now newid newtok anow anewid)" "\<lambda>t. live_session t now"
  "Authorize (sql_has_permission pg)" "holds_permission pg" for pg now newid newtok anow anewid
proof unfold_locales
  fix token w p w'
  assume "Validate (sql_session_service pg now newid newtok anow anewid) token w = (Inr p, w')"
  then show "live_session (w_tables w) now token p" using validate_Inr by (fastforce simp: live_session_def)
next
  fix u perm w w'
  assume "Authorize (sql_has_permission pg) u perm w = (Inr (), w')"
  then show "holds_permission pg (w_tables w) u perm" using sql_checker.authorize_ok by blast
qed (rule validate_reads authorize_reads)+

lemma page_permission_plain: "trim_space (page_permission page) = page_permission page \<and> page_permission page \<noteq> []"
proof -
  have "page_permission page \<noteq> [] \<and> plain (hd (page_permission page)) \<and> plain (last (page_permission page))"
    by (cases page) (simp_all add: permission_codes plain_def)
  then show ?thesis using trim_space_plain by blast
qed

text \<open>On a working database nobody with the permission is turned away.\<close>

lemma validate_works:
  assumes "all_done w" and "trim_space token \<noteq> []" and "active_session (w_tables w) (hashSessionToken token) now = p # ps"
  obtains w' where "Validate (sql_session_service pg now newid newtok anow anewid) token w = (Inr p, w')"
    "all_done w'" "w_tables w' = w_tables w"
proof -
  obtain rep w1 where t: "take_reply w = (rep, w1)" by fastforce
  then have d: "rep = Done" "all_done w1" "w_tables w1 = w_tables w"
    using assms(1) take_reply_all_done[OF t] take_reply_tables[OF t] by simp_all
  then have "Validate (sql_session_service pg now newid newtok anow anewid) token w = (Inr p, w1)"
    using assms(2,3) t
    by (simp add: Validate_def trying_def sql_find_active_session_def bindp_def query_def retp_def)
  then show thesis using d(2,3) by (rule that)
qed

lemma authorize_works:
  assumes "all_done w" and "holds_permission pg (w_tables w) u perm" and "trim_space u \<noteq> []" and "trim_space perm \<noteq> []"
  obtains w' where "Authorize (sql_has_permission pg) u perm w = (Inr (), w')" "w_tables w' = w_tables w"
proof -
  obtain rep w1 where t: "take_reply w = (rep, w1)" by fastforce
  then have d: "rep = Done" "w_tables w1 = w_tables w"
    using assms(1) take_reply_all_done[OF t] take_reply_tables[OF t] by simp_all
  obtain x where "x \<in> set (t_users (w_tables w))" "uuid_in pg u = Some (ur_id x)" "grants (w_tables w) x perm"
    using assms(2) by (auto simp: holds_permission_def)
  then have "sql_has_permission pg u perm w = (Inr True, w1)"
    using t d by (auto simp: sql_has_permission_def query_def)
  then have "Authorize (sql_has_permission pg) u perm w = (Inr (), w1)"
    using assms(3,4) by (simp add: Authorize_def bindp_def wrap_err_def retp_def)
  then show thesis using d(2) by (rule that)
qed

lemma protected_page:
  assumes "route True (wq_method rq) (wq_path rq) = Guarded page"
    and "web_serve lib (panel_web v secure d) mo rq st = (rs, st')"
  shows "(refusal secure rs \<and> same_state st st')
     \<or> (\<exists>token p st1. cookie SessionCookieName rq = Some token
          \<and> live_session (w_tables (wt_world st)) (pd_now d) token p
          \<and> holds_permission (pd_pg d) (w_tables (wt_world st)) (sp_user_id p) (page_permission page)
          \<and> same_state st st1 \<and> protected_handler lib (panel_web v secure d) page rq p st1 = (rs, st'))"
    and "shows_only page \<Longrightarrow> same_state st st' \<and> rs_cookies rs = []"
    and "all_done (wt_world st) \<Longrightarrow> cookie SessionCookieName rq = Some token \<Longrightarrow> trim_space token \<noteq> [] \<Longrightarrow>
      active_session (w_tables (wt_world st)) (hashSessionToken token) (pd_now d) = p # ps \<Longrightarrow>
      holds_permission (pd_pg d) (w_tables (wt_world st)) (sp_user_id p) (page_permission page) \<Longrightarrow>
      trim_space (sp_user_id p) \<noteq> [] \<Longrightarrow>
      \<exists>st1. same_state st st1 \<and> protected_handler lib (panel_web v secure d) page rq p st1 = (rs, st')"
proof -
  let ?cfg = "panel_web v secure d"
  have g: "RequirePermission ?cfg (page_permission page) (protected_handler lib ?cfg page rq) rq st = (rs, st')"
    using assms by (simp add: web_serve_def)
  note guard = panel_site.guard_cases[OF panel_web_sel(3) _ panel_web_sel(4) g]
  have sess: "sa_validate (panel_sessions d) = Validate (sql_session_service (pd_pg d) (pd_now d) (pd_session_id d)
      (newSessionToken (pd_token_random d)) (fst (pd_session_audit d)) (snd (pd_session_audit d)))"
    by (simp add: panel_sessions_def Let_def)
  show "(refusal secure rs \<and> same_state st st')
     \<or> (\<exists>token p st1. cookie SessionCookieName rq = Some token
          \<and> live_session (w_tables (wt_world st)) (pd_now d) token p
          \<and> holds_permission (pd_pg d) (w_tables (wt_world st)) (sp_user_id p) (page_permission page)
          \<and> same_state st st1 \<and> protected_handler lib (panel_web v secure d) page rq p st1 = (rs, st'))"
    by (rule guard[OF sess]) auto
  show "same_state st st' \<and> rs_cookies rs = []" if "shows_only page"
  proof -
    have "harmless (RequirePermission ?cfg (page_permission page) (protected_handler lib ?cfg page rq) rq)"
      using panel_reads authorize_reads that by (intro guard_harmless showing_harmless) auto
    then show ?thesis using g by (metis harmless_def fst_conv snd_conv)
  qed
  assume w: "all_done (wt_world st)" and c: "cookie SessionCookieName rq = Some token" "trim_space token \<noteq> []"
    and a: "active_session (w_tables (wt_world st)) (hashSessionToken token) (pd_now d) = p # ps"
    and h: "holds_permission (pd_pg d) (w_tables (wt_world st)) (sp_user_id p) (page_permission page)"
    and i: "trim_space (sp_user_id p) \<noteq> []"
  obtain w1 where w1: "sa_validate (panel_sessions d) token (wt_world st) = (Inr p, w1)" "all_done w1"
      "w_tables w1 = w_tables (wt_world st)"
    using validate_works[OF w c(2) a] sess by metis
  obtain w2 where w2: "Authorize (sql_has_permission (pd_pg d)) (sp_user_id p) (page_permission page) w1 = (Inr (), w2)"
      "w_tables w2 = w_tables w1"
    using authorize_works[OF w1(2)] h i w1(3) page_permission_plain by metis
  have "protected_handler lib ?cfg page rq p (st\<lparr>wt_world := w2\<rparr>) = (rs, st')"
    using g c w1(1) w2(1) page_permission_plain[of page] by (simp add: RequirePermission_def Let_def on_world_def)
  then show "\<exists>st1. same_state st st1 \<and> protected_handler lib ?cfg page rq p st1 = (rs, st')"
    using same_world[of w2 st] w1(3) w2(2) by auto
qed

text \<open>C3. Every protected page needs a session and its permission, whatever path and method lead to it: the
  answer is one of the guard's refusals and nothing has changed, or the request carries the token of
  a live session of an active user who holds the page's permission, and the answer is the handler's
  for that user. Pages that only show something never change anything. On a working database
  everyone who has both gets the handler's answer.\<close>

theorem protected_pages_need_permission:
  assumes "route True (wq_method rq) (wq_path rq) = Guarded page"
    and "web_serve lib (panel_web v secure d) mo rq st = (rs, st')"
  shows "((refusal secure rs \<and> same_state st st')
     \<or> (\<exists>token p st1. cookie SessionCookieName rq = Some token
          \<and> live_session (w_tables (wt_world st)) (pd_now d) token p
          \<and> holds_permission (pd_pg d) (w_tables (wt_world st)) (sp_user_id p) (page_permission page)
          \<and> same_state st st1 \<and> protected_handler lib (panel_web v secure d) page rq p st1 = (rs, st')))
    \<and> (shows_only page \<longrightarrow> same_state st st' \<and> rs_cookies rs = [])
    \<and> (all_done (wt_world st) \<and> cookie SessionCookieName rq = Some token \<and> trim_space token \<noteq> []
         \<and> active_session (w_tables (wt_world st)) (hashSessionToken token) (pd_now d) = p # ps
         \<and> holds_permission (pd_pg d) (w_tables (wt_world st)) (sp_user_id p) (page_permission page)
         \<and> trim_space (sp_user_id p) \<noteq> []
       \<longrightarrow> (\<exists>st1. same_state st st1 \<and> protected_handler lib (panel_web v secure d) page rq p st1 = (rs, st')))"
  using protected_page[OF assms] by blast

text \<open>A signed-in administrator of jobs.\<close>

definition staff_tables :: tables where
  "staff_tables = empty_tables\<lparr>
     t_users := [\<lparr>ur_id = ''u1'', ur_email = ''a@b'', ur_password_hash = [], ur_display_name = ''A'', ur_is_active = True\<rparr>],
     t_permissions := [\<lparr>pr_id = ''p1'', pr_code = PermissionJobsManage, pr_description = []\<rparr>],
     t_user_roles := [(''u1'', ''r1'')], t_role_permissions := [(''r1'', ''p1'')],
     t_sessions := [\<lparr>sr_id = ''s1'', sr_user_id = ''u1'', sr_token_hash = hashSessionToken ''t'',
        sr_ip_address = None, sr_user_agent = [], sr_expires_at = 100\<rparr>]\<rparr>"

definition staff_state :: web_state where
  "staff_state = \<lparr>wt_world = \<lparr>w_tables = staff_tables, w_replies = []\<rparr>, wt_login_limiter = newLoginLimiter 5,
     wt_source_limiter = newLoginLimiter 50, wt_audit_limiter = newLoginLimiter 10, wt_reported = []\<rparr>"

definition staff_draws :: panel_draws where
  "staff_draws = \<lparr>pd_lower = id, pd_kdf = toy_kdf, pd_pg = demo_pg, pd_now = 50, pd_session_id = Inr ''s2'',
     pd_token_random = Inr ''x'', pd_password_slot = None, pd_session_audit = (50, Inr ''e1''),
     pd_reject_audit = (50, Inr ''e2''), pd_job_audit = (50, Inr ''e3''), pd_ping = None, pd_health = None,
     pd_agent = (\<lambda>name payload. Inl Canceled), pd_float_int = (\<lambda>n. 0)\<rparr>"

definition demo_library :: web_library where
  "demo_library = \<lparr>parse_url = (\<lambda>s. if s = ''http://p'' then Some (''http'', ''p'') else None),
     media_type = Some, is_ip = (\<lambda>s. s = ''1.2.3.4''), lower_table = id\<rparr>"

definition demo_request :: "string \<Rightarrow> string \<Rightarrow> web_request" where
  "demo_request meth path = \<lparr>wq_method = meth, wq_path = path, wq_query = [], wq_host = ''p'',
     wq_remote_addr = ''1.2.3.4:5'', wq_header = (\<lambda>k. []), wq_cookies = [(SessionCookieName, ''t'')],
     wq_body = [], wq_broken = False\<rparr>"

definition demo_moment :: moment where
  "demo_moment = \<lparr>mo_source = ([], 50), mo_login = ([], 50), mo_audit = ([], 50), mo_now = 50\<rparr>"

lemma jobs_path: "mux_clean ''/jobs'' = ''/jobs''" "segments ''/jobs'' = [''jobs'']"
  by (simp_all add: mux_clean_def path_clean_def path_elements_def is_abs_def segments_def Let_def)

theorem protected_pages_need_permission_witness:
  "\<exists>rs st' st1. web_serve demo_library (panel_web (build_info_of [] [] []) False staff_draws) demo_moment
      (demo_request ''GET'' ''/jobs'') staff_state = (rs, st')
    \<and> same_state staff_state st1
    \<and> handleJobs (panel_web (build_info_of [] [] []) False staff_draws) st1 = (rs, st')
    \<and> same_state staff_state st' \<and> rs_cookies rs = []"
proof -
  let ?cfg = "panel_web (build_info_of [] [] []) False staff_draws"
  let ?rq = "demo_request ''GET'' ''/jobs''"
  let ?p = "\<lparr>sp_user_id = ''u1'', sp_email = ''a@b'', sp_display_name = ''A'', sp_expires_at = 100\<rparr>"
  obtain rs st' where s: "web_serve demo_library ?cfg demo_moment ?rq staff_state = (rs, st')" by fastforce
  have r: "route True (wq_method ?rq) (wq_path ?rq) = Guarded JobList"
    by (simp add: route_def demo_request_def jobs_path get_route_def Let_def)
  have t: "trim_space ''t'' = ''t''" "trim_space ''u1'' = ''u1''" by (rule trim_space_plain; simp add: plain_def)+
  have c: "all_done (wt_world staff_state)" "cookie SessionCookieName ?rq = Some ''t''"
    "active_session (w_tables (wt_world staff_state)) (hashSessionToken ''t'') (pd_now staff_draws) = [?p]"
    "holds_permission (pd_pg staff_draws) (w_tables (wt_world staff_state)) ''u1'' (page_permission JobList)"
    by (simp_all add: all_done_def staff_state_def cookie_def demo_request_def staff_tables_def active_session_def
        staff_draws_def holds_permission_def demo_pg_def grants_def)
  obtain st1 where "same_state staff_state st1" "protected_handler demo_library ?cfg JobList ?rq ?p st1 = (rs, st')"
      "same_state staff_state st' \<and> rs_cookies rs = []"
    using protected_pages_need_permission[OF r s, of "''t''" ?p "[]"] c t by auto
  then show ?thesis using s by (auto simp: protected_handler_def)
qed

end
