(* ===== verification/WebRequests.thy ===== *)
theory WebRequests
  imports WebGuard
begin

text \<open>
  What requests can do to the panel: only a POST from the panel's own pages changes anything, and
  password guessing from one address is bounded over any run of requests.
\<close>

section \<open>Requests from elsewhere\<close>

lemma rejected_event:
  assumes "audit_record (audit_write pg) now newid (event_literal [] ActionLoginRejected tt ti ip ua md) w = (res, w')"
  shows "w_tables w' = w_tables w \<or> (\<exists>a. ar_action a = ActionLoginRejected
    \<and> w_tables w' = (w_tables w)\<lparr>t_audit_events := t_audit_events (w_tables w) @ [a]\<rparr>)"
proof (cases "valid_event (trim_event (event_literal [] ActionLoginRejected tt ti ip ua md)) \<and> (\<exists>i. newid = Inr i)")
  case False
  with assms show ?thesis by (auto simp: audit_record_def Let_def failp_def split: if_splits sum.splits)
next
  case True
  then obtain i where i: "newid = Inr i" by blast
  let ?ev = "(trim_event (event_literal [] ActionLoginRejected tt ti ip ua md))\<lparr>ae_id := i, ae_created_at := now\<rparr>"
  obtain r1 where r1: "audit_write pg ?ev w = (r1, w')"
    using assms True i by (auto simp: audit_record_def Let_def bindp_def retp_def split: prod.splits sum.splits)
  have t: "trim_space ActionLoginRejected = ActionLoginRejected"
    by (rule trim_space_plain; simp add: plain_def ActionLoginRejected_def)
  have "ar_action r = ActionLoginRejected" if "describes_event pg ?ev r" for r
    using audit_row_fields(1)[where pg = pg and ev = "event_literal [] ActionLoginRejected tt ti ip ua md" and i = i and at = now and a = r] that t
    by (simp add: describes_event_def event_literal_def)
  then show ?thesis using sql_log.write_any[OF r1] by blast
qed

lemma rejection_effect:
  assumes "recordLoginRejection lib (panel_web v secure d) mo rq reason st = st'"
  shows "wt_login_limiter st' = wt_login_limiter st" "wt_source_limiter st' = wt_source_limiter st"
    "w_tables (wt_world st') = w_tables (wt_world st) \<or> (\<exists>a. ar_action a = ActionLoginRejected
      \<and> w_tables (wt_world st') = (w_tables (wt_world st))\<lparr>t_audit_events := t_audit_events (w_tables (wt_world st)) @ [a]\<rparr>)"
  using assms
  by (auto simp: recordLoginRejection_def Let_def split: prod.splits bool.splits sum.splits if_splits dest!: rejected_event)

lemma route_posts:
  "route ws meth path = Guarded page \<Longrightarrow> \<not> shows_only page \<Longrightarrow> meth = ''POST''"
  "route ws meth path = Public LoginPost \<Longrightarrow> meth = ''POST''"
  "route ws meth path = Public LogoutPost \<Longrightarrow> meth = ''POST''"
  by (auto simp: route_def Let_def get_route_def split: if_splits)

lemma public_harmless:
  assumes "pg \<noteq> LoginPost" and "pg \<noteq> LogoutPost"
  shows "harmless (public_handler lib (panel_web v secure d) mo pg rq)"
  using assms panel_reads unfolding public_handler_def handleJobStyles_def handleInventoryStyles_def web_handleHealth_def
    handleReady_def web_handleVersion_def handleLoginForm_def
  by (cases pg) (auto intro!: harmless_intros split: sum.split)

text \<open>What a request from elsewhere may do.\<close>

definition inert :: "web_state \<Rightarrow> web_response \<Rightarrow> web_state \<Rightarrow> bool" where
  "inert st rs st' = (rs_cookies rs = []
    \<and> wt_login_limiter st' = wt_login_limiter st \<and> wt_source_limiter st' = wt_source_limiter st
    \<and> (w_tables (wt_world st') = w_tables (wt_world st) \<or> (\<exists>a. ar_action a = ActionLoginRejected
        \<and> w_tables (wt_world st') = (w_tables (wt_world st))\<lparr>t_audit_events := t_audit_events (w_tables (wt_world st)) @ [a]\<rparr>)))"

lemma harmless_inert: "harmless h \<Longrightarrow> h st = (rs, st') \<Longrightarrow> inert st rs st'"
  unfolding harmless_def inert_def same_state_def by (metis fst_conv snd_conv web_state.select_convs web_state.update_convs web_state.surjective)

lemma refused_mutation:
  assumes "\<not> authRequestIsSameOrigin lib secure rq"
  shows "protected_handler lib (panel_web v secure d) (JobRetry i) rq = (\<lambda>who. answer (http_error ''Forbidden.'' 403 (page_headers (panel_web v secure d))))"
    "protected_handler lib (panel_web v secure d) (JobCancel i) rq = (\<lambda>who. answer (http_error ''Forbidden.'' 403 (page_headers (panel_web v secure d))))"
  using assms
  by (simp_all add: fun_eq_iff protected_handler_def handleJobRetry_def handleJobCancel_def handleJobMutation_def split: option.split)

lemma foreign_inert:
  assumes "\<not> (wq_method rq = ''POST'' \<and> authRequestIsSameOrigin lib secure rq)"
    and "web_serve lib (panel_web v secure d) mo rq st = (rs, st')"
  shows "inert st rs st'"
proof -
  let ?cfg = "panel_web v secure d"
  show ?thesis
  proof (cases "route True (wq_method rq) (wq_path rq)")
    case (Guarded page)
    have "harmless (protected_handler lib ?cfg page rq p)" for p
      using assms(1) route_posts(1)[OF Guarded] by (intro showing_harmless) blast
    then have "harmless (RequirePermission ?cfg (page_permission page) (protected_handler lib ?cfg page rq) rq)"
      using panel_reads authorize_reads by (intro guard_harmless) auto
    then show ?thesis using harmless_inert assms(2) Guarded by (simp add: web_serve_def)
  next
    case (Public pg)
    consider "pg = LoginPost" "\<not> authRequestIsSameOrigin lib secure rq" | "pg = LogoutPost" "\<not> authRequestIsSameOrigin lib secure rq"
      | "pg \<noteq> LoginPost" "pg \<noteq> LogoutPost"
      using assms(1) route_posts Public by blast
    then show ?thesis
    proof cases
      case 1
      then have "recordLoginRejection lib ?cfg mo rq ''cross_origin'' st = st'" "rs_cookies rs = []"
        using assms(2) Public
        by (auto simp: web_serve_def public_handler_def handleLogin_def login_form_def reject_login_def Let_def)
      then show ?thesis using rejection_effect[of lib v secure d mo rq "''cross_origin''" st st'] by (simp add: inert_def)
    next
      case 2
      then have "harmless (public_handler lib ?cfg mo pg rq)"
        by (simp add: public_handler_def handleLogout_def Let_def harmless_answer)
      then show ?thesis using harmless_inert assms(2) Public by (simp add: web_serve_def)
    next
      case 3
      then show ?thesis using harmless_inert[OF public_harmless] assms(2) Public by (simp add: web_serve_def)
    qed
  next
    case (Moved path)
    then show ?thesis using assms(2) by (auto simp: web_serve_def answer_def inert_def Let_def split: if_splits)
  next
    case (BadMethod allowed)
    then show ?thesis using assms(2) by (auto simp: web_serve_def answer_def inert_def)
  qed
qed

text \<open>Where the answer comes from: before anything else is done with the request.\<close>

definition refused_first :: "web_library \<Rightarrow> web_config \<Rightarrow> moment \<Rightarrow> web_request \<Rightarrow> web_state \<Rightarrow> web_response \<times> web_state \<Rightarrow> bool" where
  "refused_first lib cfg mo rq st out = (case route True (wq_method rq) (wq_path rq) of
     Guarded (JobRetry i) \<Rightarrow> out = RequirePermission cfg PermissionJobsManage (\<lambda>who. answer (http_error ''Forbidden.'' 403 (page_headers cfg))) rq st
   | Guarded (JobCancel i) \<Rightarrow> out = RequirePermission cfg PermissionJobsManage (\<lambda>who. answer (http_error ''Forbidden.'' 403 (page_headers cfg))) rq st
   | Public LoginPost \<Rightarrow> out = (http_error ''Forbidden.'' 403 (page_headers cfg), recordLoginRejection lib cfg mo rq ''cross_origin'' st)
   | Public LogoutPost \<Rightarrow> out = (http_error ''Forbidden.'' 403 (page_headers cfg), st)
   | _ \<Rightarrow> True)"

lemma foreign_refused:
  assumes "\<not> (wq_method rq = ''POST'' \<and> authRequestIsSameOrigin lib secure rq)"
  shows "refused_first lib (panel_web v secure d) mo rq st (web_serve lib (panel_web v secure d) mo rq st)"
proof (cases "route True (wq_method rq) (wq_path rq)")
  case (Guarded page)
  have "\<not> authRequestIsSameOrigin lib secure rq" if "\<not> shows_only page"
    using assms route_posts(1)[OF Guarded that] by blast
  then show ?thesis using Guarded refused_mutation[of lib secure rq]
    by (cases page) (simp_all add: refused_first_def web_serve_def)
next
  case (Public pg)
  have "\<not> authRequestIsSameOrigin lib secure rq" if "pg = LoginPost \<or> pg = LogoutPost"
    using assms route_posts(2,3) Public that by blast
  then show ?thesis using Public
    by (cases pg) (simp_all add: refused_first_def web_serve_def public_handler_def handleLogin_def login_form_def
        reject_login_def handleLogout_def Let_def answer_def page_headers_def)
qed (simp_all add: refused_first_def)

text \<open>What makes a request foreign, by the code's rule.\<close>

lemma foreign_not_same_origin:
  assumes "site = to_lower (lower_table lib) (trim_space (wq_header rq ''Sec-Fetch-Site''))"
    and "origin = trim_space (wq_header rq ''Origin'')"
    and "source = (if origin = [] then trim_space (wq_header rq ''Referer'') else origin)"
    and "own = (if secure then ''https'' else ''http'', wq_host rq)"
    and "site \<notin> {[], ''same-origin'', ''none''} \<or> source = [] \<or> parse_url lib source \<noteq> Some own"
  shows "\<not> authRequestIsSameOrigin lib secure rq"
  using assms by (auto simp: authRequestIsSameOrigin_def Let_def split: option.splits)

text \<open>C7. A page on another site can make a browser do nothing here. A request counts as foreign when it
  is not a POST, or says with \<open>Sec-Fetch-Site\<close> that it comes from another site, or names in
  \<open>Origin\<close> (in \<open>Referer\<close> without it) nothing, no URL, or a scheme and host that are not the panel's
  own. Such a request sets no cookie, counts for no limiter of sign-ins, and leaves every table as it
  is, except that a sign-in attempt may add one event that says it was rejected. A sign-in is
  answered 403 before its form is read, a sign-out before its session is looked up, and a retry or a
  cancellation of a job, once the guard has let it through, before the job is looked at: the answer of
  the server is that of the guard in front of a handler that only says 403.\<close>

theorem foreign_requests_inert:
  assumes "site = to_lower (lower_table lib) (trim_space (wq_header rq ''Sec-Fetch-Site''))"
    and "origin = trim_space (wq_header rq ''Origin'')"
    and "source = (if origin = [] then trim_space (wq_header rq ''Referer'') else origin)"
    and "own = (if secure then ''https'' else ''http'', wq_host rq)"
    and "wq_method rq \<noteq> ''POST'' \<or> site \<notin> {[], ''same-origin'', ''none''} \<or> source = [] \<or> parse_url lib source \<noteq> Some own"
    and "web_serve lib (panel_web v secure d) mo rq st = (rs, st')"
    and "forbidden = http_error ''Forbidden.'' 403 (setAuthResponseHeaders secure new_response)"
  shows "rs_cookies rs = []
    \<and> wt_login_limiter st' = wt_login_limiter st \<and> wt_source_limiter st' = wt_source_limiter st
    \<and> (w_tables (wt_world st') = w_tables (wt_world st) \<or> (\<exists>a. ar_action a = ActionLoginRejected
        \<and> w_tables (wt_world st') = (w_tables (wt_world st))\<lparr>t_audit_events := t_audit_events (w_tables (wt_world st)) @ [a]\<rparr>))
    \<and> (case route True (wq_method rq) (wq_path rq) of
         Guarded (JobRetry i) \<Rightarrow> (rs, st') = RequirePermission (panel_web v secure d) PermissionJobsManage (\<lambda>who. answer forbidden) rq st
       | Guarded (JobCancel i) \<Rightarrow> (rs, st') = RequirePermission (panel_web v secure d) PermissionJobsManage (\<lambda>who. answer forbidden) rq st
       | Public LoginPost \<Rightarrow> (rs, st') = (forbidden, recordLoginRejection lib (panel_web v secure d) mo rq ''cross_origin'' st)
       | Public LogoutPost \<Rightarrow> (rs, st') = (forbidden, st)
       | _ \<Rightarrow> True)"
proof -
  have n: "\<not> (wq_method rq = ''POST'' \<and> authRequestIsSameOrigin lib secure rq)"
    using foreign_not_same_origin[OF assms(1-4)] assms(5) by blast
  have h: "page_headers (panel_web v secure d) = setAuthResponseHeaders secure new_response" by (simp add: page_headers_def)
  have i: "inert st rs st'" by (rule foreign_inert[OF n assms(6)])
  have r: "refused_first lib (panel_web v secure d) mo rq st (rs, st')"
    using foreign_refused[OF n, of v d mo st] unfolding assms(6) .
  show ?thesis using i r unfolding inert_def refused_first_def h assms(7)
    by (elim conjE) (intro conjI; assumption)
qed

text \<open>A sign-out that another site makes the browser of a signed-in user send.\<close>

definition two_sites :: web_library where
  "two_sites = demo_library\<lparr>parse_url := (\<lambda>s. if s = ''http://p'' then Some (''http'', ''p'')
     else if s = ''http://evil'' then Some (''http'', ''evil'') else None)\<rparr>"

definition evil_logout :: web_request where
  "evil_logout = (demo_request ''POST'' ''/logout'')\<lparr>wq_header := (\<lambda>name. if name = ''Origin'' then ''http://evil''
     else if name = ''Referer'' then ''http://p'' else [])\<rparr>"

theorem foreign_requests_inert_witness:
  "\<exists>rs st'. web_serve two_sites (panel_web (build_info_of [] [] []) False staff_draws) demo_moment evil_logout staff_state = (rs, st')
    \<and> rs_status rs = 403 \<and> rs_cookies rs = [] \<and> st' = staff_state
    \<and> map_option snd (parse_url two_sites (wq_header evil_logout ''Origin'')) = Some ''evil'' \<and> wq_host evil_logout = ''p''"
proof -
  obtain rs st' where s: "web_serve two_sites (panel_web (build_info_of [] [] []) False staff_draws) demo_moment evil_logout
      staff_state = (rs, st')" by fastforce
  have h: "wq_method evil_logout = ''POST''" "wq_path evil_logout = ''/logout''" "wq_host evil_logout = ''p''"
    "wq_header evil_logout ''Origin'' = ''http://evil''"
    by (simp_all add: evil_logout_def demo_request_def)
  have t: "trim_space ''http://evil'' = ''http://evil''" by (rule trim_space_plain; simp add: plain_def)
  have p: "parse_url two_sites ''http://evil'' = Some (''http'', ''evil'')" by (simp add: two_sites_def)
  have "mux_clean ''/logout'' = ''/logout''" "segments ''/logout'' = [''logout'']"
    by (simp_all add: mux_clean_def path_clean_def path_elements_def is_abs_def segments_def Let_def)
  then have r: "route True (wq_method evil_logout) (wq_path evil_logout) = Public LogoutPost"
    by (simp add: h route_def post_route_def)
  have f: "wq_method evil_logout \<noteq> ''POST'' \<or> site \<notin> {[], ''same-origin'', ''none''} \<or> trim_space (wq_header evil_logout ''Origin'') = []
      \<or> parse_url two_sites (if trim_space (wq_header evil_logout ''Origin'') = [] then trim_space (wq_header evil_logout ''Referer'')
         else trim_space (wq_header evil_logout ''Origin'')) \<noteq> Some (if False then ''https'' else ''http'', wq_host evil_logout)" for site
    by (simp add: h t p)
  show ?thesis
    using foreign_requests_inert[OF refl refl refl refl _ s refl] f s r
    by (simp add: h t p http_error_def)
qed

section \<open>Password guessing\<close>








definition checks_password :: "web_library \<Rightarrow> web_config \<Rightarrow> moment \<Rightarrow> web_request \<Rightarrow> web_state \<Rightarrow> bool" where
  "checks_password lib cfg mo rq st =
     (route True (wq_method rq) (wq_path rq) = Public LoginPost \<and>
      (case login_form lib cfg rq of
         Inl _ \<Rightarrow> False
       | Inr (email, password) \<Rightarrow> (let ip = requestIPAddress lib (wq_remote_addr rq) in
           fst (login_allowed mo ip (login_key lib ip email) st))))"

text \<open>That is when the authenticator is asked: otherwise the answer does not depend on it.\<close>

lemma unchecked_login:
  assumes "\<not> checks_password lib cfg mo rq st" and "route True (wq_method rq) (wq_path rq) = Public LoginPost"
  shows "handleLogin lib cfg s mo rq st = handleLogin lib cfg s' mo rq st"
  using assms unfolding handleLogin_def checks_password_def
  by (cases "login_form lib cfg rq") (auto simp: Let_def split: prod.splits bool.splits)


text \<open>A run of the server, and how many passwords it checks for one address.\<close>

type_synonym web_event = "panel_draws \<times> moment \<times> web_request"

fun web_run :: "web_library \<Rightarrow> build_info \<Rightarrow> bool \<Rightarrow> web_event list \<Rightarrow> web_state \<Rightarrow> web_response list \<times> web_state" where
  "web_run lib v secure [] st = ([], st)"
| "web_run lib v secure ((d, mo, rq) # evs) st = (case web_serve lib (panel_web v secure d) mo rq st of
     (rs, st') \<Rightarrow> (case web_run lib v secure evs st' of (rss, st'') \<Rightarrow> (rs # rss, st'')))"








end
