(* ===== verification/PanelJobs.thy ===== *)
theory PanelJobs
  imports Panel AgentCalls JobOutcome
begin

text \<open>
  The panel's jobs from the queue to the agent and back: the worker of \<open>main.go\<close> whose executor calls
  the agent's client, over the SQL queue. What the transport reports of a call decides what becomes of
  the job's row.
\<close>

section \<open>The worker of the panel\<close>

text \<open>\<open>json.Marshal(result.Data)\<close>. The data were decoded into an \<open>any\<close>: of equal keys the last counts, and a
  number is written as Go writes the float it became (\<open>ft\<close>).\<close>

function any_value :: "(string \<Rightarrow> string) \<Rightarrow> json \<Rightarrow> json" where
  "any_value ft (JNum n) = JNum (ft n)"
| "any_value ft (JArr vs) = JArr (map (any_value ft) vs)"
| "any_value ft (JObj kvs) = JObj (map (\<lambda>kv. (fst kv, any_value ft (snd kv))) (obj_map kvs))"
| "any_value ft JNull = JNull"
| "any_value ft (JBool b) = JBool b"
| "any_value ft (JStr s) = JStr s"
  by pat_completeness auto

termination any_value
proof (relation "measure (size \<circ> snd)", goal_cases)
  case (2 ft vs v)
  then show ?case using size_list_estimation'[of v vs "size v" size] by auto
next
  case (3 ft kvs kv)
  then have "kv \<in> set kvs" using obj_map_subset by blast
  then have "size (snd kv) \<le> size_list (size_prod (\<lambda>_. 0) size) kvs"
    by (intro size_list_estimation'[of kv]) (auto simp: size_prod_simp)
  then show ?case by simp
qed simp

definition agent_answer :: "(string \<Rightarrow> string) \<Rightarrow> action_result \<Rightarrow> agent_result" where
  "agent_answer ft r = \<lparr>ag_status = an_status r,
     ag_data = (if an_data r = [] then None else Some (Inr (json_text (any_value ft (JObj (an_data r)))))),
     ag_logs = map (\<lambda>l. (al_level l, al_message l)) (an_logs r)\<rparr>"

type_synonym sender = "job \<Rightarrow> string \<Rightarrow> agent_request \<Rightarrow> http_outcome"

definition call_agent :: "(nat \<Rightarrow> string \<Rightarrow> bool) \<Rightarrow> sender \<Rightarrow> job \<Rightarrow> err + action_result" where
  "call_agent fl send j = ExecuteJob fl (send j) (j_type j) (j_payload j) (j_idempotency_key j)"

definition panel_execute :: "(nat \<Rightarrow> string \<Rightarrow> bool) \<Rightarrow> (string \<Rightarrow> string) \<Rightarrow> sender \<Rightarrow> job \<Rightarrow> err + result" where
  "panel_execute fl ft send j = job_executor (rbind (call_agent fl send j) (\<lambda>r. Inr (agent_answer ft r)))"

text \<open>\<open>ended\<close>: the context of the execution or of the action was over when the call returned.\<close>

definition panel_worker ::
  "(nat \<Rightarrow> string \<Rightarrow> bool) \<Rightarrow> (string \<Rightarrow> string) \<Rightarrow> sender \<Rightarrow> (job \<Rightarrow> bool \<times> bool) \<Rightarrow> runtime_queue \<Rightarrow> worker" where
  "panel_worker fl ft send ended q = WithErrorHandler True (NewWorker (Some q)
     (Some (\<lambda>j. \<lparr>ex_outcome = panel_execute fl ft send j,
        ex_execution_ended = fst (ended j), ex_action_ended = snd (ended j)\<rparr>)))"

section \<open>What becomes of a job\<close>

text \<open>The specification: the verdict on an answer, and what it does to the row of the job.\<close>

datatype verdict = LeaveToLease | GiveUp | TryAgain | Store string string

definition job_result :: "(string \<Rightarrow> string) \<Rightarrow> action_result \<Rightarrow> result" where
  "job_result ft r = \<lparr>rs_code = an_status r,
     rs_data = (if an_data r = [] then ''{}'' else json_text (any_value ft (JObj (an_data r)))),
     rs_logs = map (\<lambda>l. \<lparr>lg_id = 0, lg_level = al_level l, lg_message = al_message l, lg_created_at = zero_time\<rparr>) (an_logs r)\<rparr>"

definition client_fault :: "nat \<Rightarrow> bool" where
  "client_fault status = (400 \<le> status \<and> status < 500 \<and> status \<noteq> 408 \<and> status \<noteq> 429)"

definition verdict_on ::
  "(rune \<Rightarrow> rune) \<Rightarrow> (string \<Rightarrow> bool) \<Rightarrow> (string \<Rightarrow> string) \<Rightarrow> bool \<Rightarrow> err + action_result \<Rightarrow> verdict" where
  "verdict_on ul ok ft over called = (case called of
     Inl e \<Rightarrow> if over then LeaveToLease
       else (case e of UncertainActionError x \<Rightarrow> LeaveToLease
         | ProtocolError x \<Rightarrow> GiveUp
         | RemoteActionError status code \<Rightarrow> if client_fault status then GiveUp else TryAgain
         | _ \<Rightarrow> TryAgain)
   | Inr r \<Rightarrow> (case normalizeResult ul ok (job_result ft r) of
       Inl e \<Rightarrow> GiveUp | Inr out \<Rightarrow> Store (rs_code out) (rs_data out)))"

definition failed_row :: "bool \<Rightarrow> time \<Rightarrow> job_row \<Rightarrow> job_row" where
  "failed_row retryable now r = r\<lparr>jr_status := Failed, jr_retryable := retryable, jr_run_after := now,
     jr_claim_token := None, jr_lease_expires_at := None, jr_finished_at := Some now, jr_updated_at := now\<rparr>"

definition requeued_row :: "duration \<Rightarrow> time \<Rightarrow> job_row \<Rightarrow> job_row" where
  "requeued_row delay now r = r\<lparr>jr_status := Queued, jr_retryable := True, jr_run_after := now + delay,
     jr_claim_token := None, jr_lease_expires_at := None, jr_started_at := None, jr_finished_at := None, jr_updated_at := now\<rparr>"

definition settle :: "pg \<Rightarrow> verdict \<Rightarrow> job \<Rightarrow> time \<Rightarrow> job_row \<Rightarrow> job_row" where
  "settle pg v j now r = (case v of
     LeaveToLease \<Rightarrow> r
   | GiveUp \<Rightarrow> failed_row False now r
   | TryAgain \<Rightarrow> if j_attempts j < j_max_attempts j
       then requeued_row (exponentialBackoff (j_attempts j)) now r else failed_row True now r
   | Store code data \<Rightarrow> succeed_row code (the (null_cast (jsonb_in pg) data)) now r)"

section \<open>The verdict is carried out\<close>

lemma call_errors:
  assumes "call_agent fl send j = Inl e"
  shows "(\<exists>x. e = UncertainActionError (Plain x)) \<or> (\<exists>x. e = ProtocolError (Plain x))
    \<or> (\<exists>n c. e = RemoteActionError n c) \<or> (\<exists>p x q. e = Wrapped p (Plain x) q)"
  using assms
  by (auto simp: call_agent_def ExecuteJob_def protocol_error_def Let_def split: if_splits http_outcome.splits option.splits)

lemma execute_error:
  assumes "call_agent fl send j = Inl e"
  shows "\<exists>e'. panel_execute fl ft send j = Inl e' \<and> (isUncertain e' \<longleftrightarrow> (\<exists>x. e = UncertainActionError x))
    \<and> (isPermanent e' \<longleftrightarrow> (\<exists>x. e = ProtocolError x) \<or> (\<exists>n c. e = RemoteActionError n c \<and> client_fault n))"
proof -
  consider x where "e = UncertainActionError (Plain x)" | x where "e = ProtocolError (Plain x)"
    | n c where "e = RemoteActionError n c" | p x q where "e = Wrapped p (Plain x) q"
    using call_errors[OF assms] by blast
  then show ?thesis
  proof cases
    case (3 n c)
    then show ?thesis using assms
      by (cases "client_fault n") (simp_all add: panel_execute_def job_executor_def isUncertain_def isPermanent_def client_fault_def)
  qed (use assms in \<open>simp_all add: panel_execute_def job_executor_def isUncertain_def isPermanent_def\<close>)
qed

lemma execute_result:
  assumes "call_agent fl send j = Inr r"
  shows "panel_execute fl ft send j = Inr (job_result ft r)"
  using assms by (auto simp: panel_execute_def job_executor_def agent_answer_def job_result_def comp_def)

lemma normalize_permanent: "normalizeResult ul ok r = Inl e \<Longrightarrow> isPermanent e"
proof -
  have l: "norm_logs ul ls = Inl e \<Longrightarrow> isPermanent e" for ls
    by (induction ls) (auto simp: Let_def rbind_eq_Inl isPermanent_def split: if_splits)
  show "normalizeResult ul ok r = Inl e \<Longrightarrow> isPermanent e"
    by (auto simp: normalizeResult_def Let_def rbind_eq_Inl isPermanent_def split: if_splits dest: l[unfolded isPermanent_def])
qed

text \<open>The two finishing calls of the queue, as the row they leave.\<close>

definition settled :: "pg \<Rightarrow> job \<Rightarrow> (job_row \<Rightarrow> job_row) \<Rightarrow> world \<Rightarrow> world \<Rightarrow> bool" where
  "settled pg j f w w' = (\<exists>i k r. uuid_in pg (j_id j) = Some i \<and> uuid_in pg (j_claim_token j) = Some k
     \<and> filter (owns i k) (jobs_of w) = [r] \<and> jobs_of w' = upd_where (owns i k) f (jobs_of w))"

lemma fail_settles:
  assumes "q_fail ul (sql_queue pg c token d newid s) j
      \<lparr>fi_message = msg, fi_backoff = exponentialBackoff (j_attempts j), fi_permanent = perm\<rparr> w = (Inr (), w')"
  shows "settled pg j (settle pg (if perm then GiveUp else TryAgain) j (qs_now s)) w w'"
proof -
  let ?final = "perm \<or> j_max_attempts j \<le> j_attempts j"
  obtain i k r where e: "uuid_in pg (j_id j) = Some i" "uuid_in pg (j_claim_token j) = Some k" "filter (owns i k) (jobs_of w) = [r]"
    and u: "jobs_of w' = upd_where (owns i k) (\<lambda>x. x\<lparr>jr_status := (if ?final then Failed else Queued),
         jr_run_after := (if ?final then qs_now s else qs_now s + exponentialBackoff (j_attempts j)),
         jr_retryable := (\<not> perm), jr_claim_token := None, jr_lease_expires_at := None,
         jr_started_at := (if ?final then jr_started_at x else None),
         jr_finished_at := (if ?final then Some (qs_now s) else None), jr_updated_at := qs_now s\<rparr>) (jobs_of w)"
    using fail_effect[OF assms refl refl] by auto
  have "(\<lambda>x. x\<lparr>jr_status := (if ?final then Failed else Queued),
         jr_run_after := (if ?final then qs_now s else qs_now s + exponentialBackoff (j_attempts j)),
         jr_retryable := (\<not> perm), jr_claim_token := None, jr_lease_expires_at := None,
         jr_started_at := (if ?final then jr_started_at x else None),
         jr_finished_at := (if ?final then Some (qs_now s) else None), jr_updated_at := qs_now s\<rparr>)
      = settle pg (if perm then GiveUp else TryAgain) j (qs_now s)"
    by (rule ext) (simp add: settle_def failed_row_def requeued_row_def)
  then show ?thesis using e u unfolding settled_def by auto
qed

lemma succeed_settles:
  assumes "q_succeed ul ok (sql_queue pg c token d newid s) j out w = (Inr (), w')" and "normalizeResult ul ok r = Inr out"
  shows "settled pg j (settle pg (Store (rs_code out) (rs_data out)) j (qs_now s)) w w'"
proof -
  obtain out2 where "normalizeResult ul ok out = Inr out2" "rs_code out2 = rs_code out" "rs_data out2 = rs_data out"
    using normalize_twice[OF assms(2)] by blast
  then show ?thesis using succeed_effect[OF assms(1)] unfolding settled_def settle_def by force
qed

lemma settled_cong: "w_tables w = w_tables v \<Longrightarrow> settled pg j f w w' \<longleftrightarrow> settled pg j f v w'"
  by (simp add: settled_def)

lemma finish_failed_settles:
  assumes "finish_failed ul expired (panel_worker fl ft send ended q) (sql_runtime ul ok pg c token d newid s clock) j e w1
      = ((True, None), w')" and "no_loss w1"
  shows "\<exists>n. settled pg j (settle pg (if isPermanent e then GiveUp else TryAgain) j (qs_now (clock n))) w1 w'"
proof -
  let ?f = "\<lparr>fi_message = safeFailureMessage ul e, fi_backoff = exponentialBackoff (j_attempts j), fi_permanent = isPermanent e\<rparr>"
  have "retry_loop 0 expired (\<lambda>n. q_fail ul (sql_queue pg c token d newid (clock n)) j ?f) w1 = (Inr (), w')"
    using assms(1) by (auto simp: finish_failed_def retryFinalization_def sql_runtime_def panel_worker_def WithErrorHandler_def NewWorker_def Let_def
        split: prod.splits sum.splits)
  from sql_fail.retry_ok_call[OF this assms(2)]
  obtain n w2 where "q_fail ul (sql_queue pg c token d newid (clock n)) j ?f w2 = (Inr (), w')" "w_tables w2 = w_tables w1"
    by blast
  then show ?thesis using fail_settles settled_cong by blast
qed

text \<open>A pass over a claimed job.\<close>

lemma panel_pass:
  assumes "q_claim_one (sql_queue pg c token d newid s) w = (Inr j, w1)"
    and "wk = panel_worker fl ft send ended (sql_runtime ul ok pg c token d newid s clock)"
  shows "runOnce ul ok expired wk w = (case panel_execute fl ft send j of
      Inl e \<Rightarrow> if (fst (ended j) \<or> snd (ended j)) \<or> isUncertain e then ((True, None), w1)
        else finish_failed ul expired wk (sql_runtime ul ok pg c token d newid s clock) j e w1
    | Inr r \<Rightarrow> (case normalizeResult ul ok r of
        Inl e \<Rightarrow> finish_failed ul expired wk (sql_runtime ul ok pg c token d newid s clock) j e w1
      | Inr r' \<Rightarrow> (case retryFinalization expired
            (\<lambda>n. q_succeed ul ok (sql_queue pg c token d newid (clock n)) j r') w1 of
          (Inr u, w2) \<Rightarrow> ((True, None), w2)
        | (Inl e, w2) \<Rightarrow> ((True, Some (Wrapped ''mark job succeeded: '' e [])), w2))))"
proof -
  have "rq_claim_one (sql_runtime ul ok pg c token d newid s clock) w = (Inr j, w1)"
    using assms(1) by (simp add: sql_runtime_def)
  then show ?thesis unfolding assms(2)
    by (simp add: runOnce_def panel_worker_def WithErrorHandler_def NewWorker_def sql_runtime_def Let_def disj_assoc cong: sum.case_cong if_cong)
qed

lemma finish_failed_works: "finish_failed ul expired wk q j e w = ((worked, x), w') \<Longrightarrow> worked = True"
  by (auto simp: finish_failed_def Let_def split: prod.splits sum.splits)

text \<open>A call that failed, and one that brought a result.\<close>

lemma failed_call_settles:
  assumes "q_claim_one (sql_queue pg c token d newid s) w = (Inr j, w1)" and "no_loss w1"
    and "runOnce ul ok expired (panel_worker fl ft send ended (sql_runtime ul ok pg c token d newid s clock)) w
      = ((worked, None), w')"
    and "call_agent fl send j = Inl e" and "v = verdict_on ul ok ft (fst (ended j) \<or> snd (ended j)) (Inl e)"
  shows "if v = LeaveToLease then w' = w1 else \<exists>n. settled pg j (settle pg v j (qs_now (clock n))) w1 w'"
proof -
  let ?wk = "panel_worker fl ft send ended (sql_runtime ul ok pg c token d newid s clock)"
  let ?over = "fst (ended j) \<or> snd (ended j)"
  note run = assms(3)[unfolded panel_pass[OF assms(1) refl]]
  obtain e' where e': "panel_execute fl ft send j = Inl e'" "isUncertain e' \<longleftrightarrow> (\<exists>x. e = UncertainActionError x)"
      "isPermanent e' \<longleftrightarrow> (\<exists>x. e = ProtocolError x) \<or> (\<exists>n c. e = RemoteActionError n c \<and> client_fault n)"
    using execute_error[OF assms(4)] by blast
  have v: "v = (if ?over \<or> isUncertain e' then LeaveToLease else if isPermanent e' then GiveUp else TryAgain)"
    using assms(5) e'(2,3) call_errors[OF assms(4)] by (auto simp: verdict_on_def)
  show ?thesis
  proof (cases "?over \<or> isUncertain e'")
    case True
    then show ?thesis using run e'(1) v by auto
  next
    case False
    then have f: "finish_failed ul expired ?wk (sql_runtime ul ok pg c token d newid s clock) j e' w1 = ((worked, None), w')"
      using run e'(1) by simp
    note w = finish_failed_works[OF f]
    show ?thesis using finish_failed_settles[OF f[unfolded w] assms(2)] v False by simp
  qed
qed

lemma answered_call_settles:
  assumes "q_claim_one (sql_queue pg c token d newid s) w = (Inr j, w1)" and "no_loss w1"
    and "runOnce ul ok expired (panel_worker fl ft send ended (sql_runtime ul ok pg c token d newid s clock)) w
      = ((worked, None), w')"
    and "call_agent fl send j = Inr r" and "v = verdict_on ul ok ft over (Inr r)"
  shows "v \<noteq> LeaveToLease \<and> (\<exists>n. settled pg j (settle pg v j (qs_now (clock n))) w1 w')"
proof -
  let ?wk = "panel_worker fl ft send ended (sql_runtime ul ok pg c token d newid s clock)"
  note run = assms(3)[unfolded panel_pass[OF assms(1) refl]] and x = execute_result[OF assms(4), of ft]
  show ?thesis
  proof (cases "normalizeResult ul ok (job_result ft r)")
    case n: (Inl e)
    then have f: "finish_failed ul expired ?wk (sql_runtime ul ok pg c token d newid s clock) j e w1 = ((worked, None), w')"
      using run x by simp
    note w = finish_failed_works[OF f]
    show ?thesis using finish_failed_settles[OF f[unfolded w] assms(2)] normalize_permanent[OF n] assms(5) n
      by (simp add: verdict_on_def)
  next
    case n: (Inr out)
    have "retry_loop 0 expired (\<lambda>n. q_succeed ul ok (sql_queue pg c token d newid (clock n)) j out) w1 = (Inr (), w')"
      using run x n by (auto simp: retryFinalization_def split: prod.splits sum.splits)
    from sql_succeed.retry_ok_call[OF this assms(2)]
    obtain n w2 where "q_succeed ul ok (sql_queue pg c token d newid (clock n)) j out w2 = (Inr (), w')" "w_tables w2 = w_tables w1"
      by blast
    then have "\<exists>n. settled pg j (settle pg (Store (rs_code out) (rs_data out)) j (qs_now (clock n))) w1 w'"
      using succeed_settles[OF _ n] settled_cong by blast
    then show ?thesis using assms(5) n by (simp add: verdict_on_def)
  qed
qed

text \<open>C4. What becomes of a job is decided by what the transport reports of the call to the agent, when
  the pass reports no error and no reply of the database is lost: a call that may have been acted on,
  or whose time was over, leaves the row to its lease; a protocol error, a refusal by the agent or a
  result against the policy fails it for good; a call that was not sent or that the agent could not
  serve is tried again after the backoff while attempts are left; an accepted result is stored. It is
  exactly the claimed row that changes.\<close>

theorem agent_job_settled:
  assumes "q_claim_one (sql_queue pg c token d newid s) w = (Inr j, w1)" and "no_loss w1"
    and "runOnce ul ok expired (panel_worker fl ft send ended (sql_runtime ul ok pg c token d newid s clock)) w
      = ((worked, None), w')"
    and "v = verdict_on ul ok ft (fst (ended j) \<or> snd (ended j)) (call_agent fl send j)"
  shows "(v = LeaveToLease \<longrightarrow> w' = w1)
    \<and> (v \<noteq> LeaveToLease \<longrightarrow> (\<exists>n. settled pg j (settle pg v j (qs_now (clock n))) w1 w'))"
proof (cases "call_agent fl send j")
  case (Inl e)
  then show ?thesis using failed_call_settles[OF assms(1-3) Inl] assms(4) by (auto split: if_splits)
next
  case (Inr r)
  then show ?thesis using answered_call_settles[OF assms(1-3) Inr] assms(4) by auto
qed

section \<open>A job from the queue to the agent and back\<close>

definition health_row :: job_row where
  "health_row = (queued_row ''a'')\<lparr>jr_type := ''agent.health''\<rparr>"

definition health_world :: world where
  "health_world = \<lparr>w_tables = empty_tables\<lparr>t_jobs := [health_row]\<rparr>, w_replies = []\<rparr>"

definition health_sys :: queue_sys where
  "health_sys = \<lparr>qs_now = 10, qs_world = health_world, qs_tokens = {}\<rparr>"

definition health_job :: job where
  "health_job = scanJob (claim_row 10 (10 + minutes 10) ''t'' health_row)"

definition claimed_world :: world where
  "claimed_world = \<lparr>w_tables = empty_tables\<lparr>t_jobs := [claim_row 10 (10 + minutes 10) ''t'' health_row]\<rparr>, w_replies = []\<rparr>"

definition health_data :: string where
  "health_data = [CHR 0x7B, CHR 0x22] @ ''status'' @ [CHR 0x22, CHR '':'', CHR 0x22] @ ''ok'' @ [CHR 0x22, CHR 0x7D]"

abbreviation health_send :: sender where
  "health_send \<equiv> \<lambda>j. serve_action Some (default_actions (\<lambda>_ _. True)) bare_host"

lemma health_claimed:
  "q_claim_one (sql_queue plain_pg free ''t'' 0 (Inr ''x'') health_sys) health_world = (Inr health_job, claimed_world)"
  by (simp add: health_world_def health_row_def health_sys_def health_job_def claimed_world_def demo_defs claim_eval del: set_filter)

lemma health_job_sel: "j_id health_job = ''a''" "j_claim_token health_job = ''t''" "j_type health_job = ''agent.health''"
  "j_payload health_job = ''{}''" "j_idempotency_key health_job = ''a''"
  by (simp_all add: health_job_def scanJob_def claim_row_def health_row_def queued_row_def)

lemma health_called:
  "call_agent (\<lambda>_ _. True) health_send health_job = Inr (received_result bare_host ''agent.health'')"
proof -
  have t: "trim_space ''agent.health'' = ''agent.health''" "trim_space ''{}'' = ''{}''" "trim_space ''a'' = ''a''"
    by (rule trim_space_plain; simp add: plain_def)+
  have p: "parse_json ''{}'' = Some (JObj [])" by (simp add: json_eval)
  have "panel_call id (\<lambda>_ _. True) Some bare_host ''agent.health'' ''{}'' ''a'' = Inr (received_result bare_host ''agent.health'')"
    unfolding panel_call_iff[where media_type = Some, OF refl] t Let_def
    using p health_sendable
    by (simp add: allowlist_def maxActionPayloadBytes_def maxIdempotencyKeyBytes_def data_norm_def action_data_def)
  then show ?thesis by (simp add: panel_call_def default_registry call_agent_def health_job_sel)
qed

lemma health_result:
  "normalizeResult id (\<lambda>_. True) (job_result id (received_result bare_host ''agent.health''))
     = Inr \<lparr>rs_code = ''ok'', rs_data = health_data, rs_logs = []\<rparr>"
proof -
  have r: "job_result id (received_result bare_host ''agent.health'') = \<lparr>rs_code = ''ok'', rs_data = health_data, rs_logs = []\<rparr>"
    using health_received
    by (simp add: job_result_def health_data_def json_object_def quoted_def escape_rune_def encode_rune_def norm_rune_def
        valid_rune_def rune_error_def char_of_eq) (simp add: received_result_def empty_result_def)
  have t: "trim_space ''ok'' = ''ok''" "trim_space health_data = health_data"
    by (rule trim_space_plain; simp add: plain_def health_data_def)+
  have p: "parse_json health_data = Some (JObj [(''status'', JStr ''ok'')])"
    by (simp add: health_data_def json_eval)
  have d: "health_data \<noteq> []" "hd health_data = CHR 0x7B" "length health_data = 15"
    by (simp_all add: health_data_def)
  show ?thesis unfolding r
    by (simp add: normalizeResult_def Let_def t p d json_valid_def to_lower_ascii ascii_def lower_byte_def char_of_eq
        sensitive_key_def squash_def sensitive_words_def maxResultCodeBytes_def maxJobPayloadBytes_def maxResultLogs_def)
qed

lemma health_finished:
  "\<exists>w'. q_succeed id (\<lambda>_. True) (sql_queue plain_pg free ''t'' 0 (Inr ''x'') health_sys) health_job
      \<lparr>rs_code = ''ok'', rs_data = health_data, rs_logs = []\<rparr> claimed_world = (Inr (), w')"
proof -
  have t: "trim_space ''a'' = ''a''" "trim_space ''t'' = ''t''" by (rule trim_space_plain; simp add: plain_def)+
  obtain out where n: "normalizeResult id (\<lambda>_. True) \<lparr>rs_code = ''ok'', rs_data = health_data, rs_logs = []\<rparr> = Inr out"
      "rs_code out = ''ok''" "rs_data out = health_data"
    using normalize_twice[OF health_result] by auto
  then have l: "rs_logs out = []" by (auto simp: normalizeResult_def Let_def rbind_eq_Inr split: if_splits)
  show ?thesis
    by (simp add: q_succeed_def n health_job_sel t store_mark_succeeded_def l)
      (simp add: health_job_sel finish_eval n null_cast_def health_data_def succeed_row_def claimed_world_def health_row_def
        health_sys_def del: set_filter)
qed

theorem agent_job_settled_witness:
  "\<exists>w'. runOnce id (\<lambda>_. True) (\<lambda>_. False) (panel_worker (\<lambda>_ _. True) id health_send (\<lambda>_. (False, False))
        (sql_runtime id (\<lambda>_. True) plain_pg free ''t'' 0 (Inr ''x'') health_sys (\<lambda>_. health_sys))) health_world = ((True, None), w')
     \<and> map jr_status (jobs_of w') = [Succeeded] \<and> map jr_result (jobs_of w') = [Some health_data]"
proof -
  let ?wk = "panel_worker (\<lambda>_ _. True) id health_send (\<lambda>_. (False, False))
        (sql_runtime id (\<lambda>_. True) plain_pg free ''t'' 0 (Inr ''x'') health_sys (\<lambda>_. health_sys))"
  obtain w' where f: "q_succeed id (\<lambda>_. True) (sql_queue plain_pg free ''t'' 0 (Inr ''x'') health_sys) health_job
      \<lparr>rs_code = ''ok'', rs_data = health_data, rs_logs = []\<rparr> claimed_world = (Inr (), w')"
    using health_finished by blast
  have r: "runOnce id (\<lambda>_. True) (\<lambda>_. False) ?wk health_world = ((True, None), w')"
    by (simp add: runOnce_def panel_worker_def WithErrorHandler_def NewWorker_def sql_runtime_def health_claimed execute_result[OF health_called]
        health_result retryFinalization_def retry_loop.simps f)
  have n: "no_loss claimed_world" by (simp add: claimed_world_def no_loss_def)
  have v: "Store ''ok'' health_data = verdict_on id (\<lambda>_. True) id (fst (False, False) \<or> snd (False, False))
      (call_agent (\<lambda>_ _. True) health_send health_job)"
    by (simp add: verdict_on_def health_called health_result)
  have "settled plain_pg health_job (settle plain_pg (Store ''ok'' health_data) health_job 10) claimed_world w'"
    using agent_job_settled[OF health_claimed n r v] by (simp add: health_sys_def)
  moreover have "settle plain_pg (Store ''ok'' health_data) health_job 10 = succeed_row ''ok'' (Some health_data) 10"
    by (rule ext) (simp add: settle_def plain_pg_def null_cast_def health_data_def)
  ultimately have "jobs_of w' = upd_where (owns ''a'' ''t'') (succeed_row ''ok'' (Some health_data) 10) (jobs_of claimed_world)"
    by (simp add: settled_def health_job_sel plain_pg_def)
  then show ?thesis using r
    by (simp add: claimed_world_def owns_def claim_row_def health_row_def queued_row_def succeed_row_def)
qed

end
