(* ===== verification/Ctl.thy ===== *)
theory Ctl
  imports FullInstaller Panel
begin

text \<open>
  \<open>cmd/motekarctl\<close>: preflight, the install plan and applying it. A command gets its arguments, the
  standard input and a collector, and prints lines; what an installation does happens to the host of
  \<open>FullInstaller\<close>.
\<close>

section \<open>Options\<close>

record plan_options =
  po_profile :: string
  po_web_server :: string
  po_postgresql_plan :: string
  po_sample :: bool

record apply_options =
  ao_plan :: plan_options
  ao_database_url :: string
  ao_bin_dir :: string
  ao_etc_dir :: string
  ao_systemd_dir :: string
  ao_agent_socket :: string
  ao_panel_addr :: string
  ao_environment :: string
  ao_admin_email :: string
  ao_admin_display_name :: string
  ao_admin_password_stdin :: bool
  ao_admin_password :: string
  ao_no_systemd :: bool

definition preflight_flags :: flag_set where
  "preflight_flags = [''profile'' \<mapsto> FString ProfileSharedHosting, ''postgresql'' \<mapsto> FString PostgreSQLPlanInstall,
     ''sample'' \<mapsto> FBool False]"

definition plan_flags :: flag_set where
  "plan_flags = preflight_flags(''web-server'' \<mapsto> FString [])"

definition apply_flags :: flag_set where
  "apply_flags = plan_flags(''database-url'' \<mapsto> FString [], ''bin-dir'' \<mapsto> FString ''/usr/local/bin'',
     ''etc-dir'' \<mapsto> FString ''/etc/motekar-panel'', ''systemd-dir'' \<mapsto> FString ''/etc/systemd/system'',
     ''agent-socket'' \<mapsto> FString ''/run/motekar-panel/agent.sock'', ''panel-addr'' \<mapsto> FString '':8080'',
     ''environment'' \<mapsto> FString ''production'', ''admin-email'' \<mapsto> FString [], ''admin-display-name'' \<mapsto> FString [],
     ''admin-password-stdin'' \<mapsto> FBool False, ''no-systemd'' \<mapsto> FBool False)"

text \<open>What the three commands do alike: parse, refuse further arguments, check the two values.\<close>

definition flag_options :: "(rune \<Rightarrow> rune) \<Rightarrow> flag_set \<Rightarrow> string \<Rightarrow> string list \<Rightarrow> err + flag_set \<times> plan_options" where
  "flag_options ul flags what args =
     rbind (parse_flags flags args) (\<lambda>(fs, rest).
     if rest \<noteq> [] then Inl (Plain (''unexpected '' @ what @ '' arguments''))
     else rbind (ParseInstallProfile ul (flag_string fs ''profile'')) (\<lambda>profile.
     rbind (ParsePostgreSQLPlan ul (flag_string fs ''postgresql'')) (\<lambda>postgresqlPlan.
     Inr (fs, \<lparr>po_profile = profile, po_web_server = flag_string fs ''web-server'',
       po_postgresql_plan = postgresqlPlan, po_sample = flag_bool fs ''sample''\<rparr>))))"

definition parsePreflightOptions :: "(rune \<Rightarrow> rune) \<Rightarrow> string list \<Rightarrow> err + plan_options" where
  "parsePreflightOptions ul args =
     rbind (flag_options ul preflight_flags ''preflight''
       (if args \<noteq> [] \<and> hd args = ''sample'' then ''--sample'' # tl args else args)) (\<lambda>(fs, options). Inr options)"

definition parseInstallPlanOptions :: "(rune \<Rightarrow> rune) \<Rightarrow> string list \<Rightarrow> err + plan_options" where
  "parseInstallPlanOptions ul args =
     rbind (flag_options ul plan_flags ''install plan'' args) (\<lambda>(fs, options). Inr options)"

definition readInstallAdminPassword :: "err + string \<Rightarrow> err + string" where
  "readInstallAdminPassword stdin = rbind stdin (\<lambda>raw.
     let password = trim_right_set raw line_ends in
     if password = [] then Inl (Plain ''admin password cannot be empty'') else Inr password)"

definition parseInstallApplyOptionsFromReader ::
  "(rune \<Rightarrow> rune) \<Rightarrow> string list \<Rightarrow> err + string \<Rightarrow> err + apply_options" where
  "parseInstallApplyOptionsFromReader ul args stdin =
     rbind (flag_options ul apply_flags ''install apply'' args) (\<lambda>(fs, plan).
     let email = flag_string fs ''admin-email''; from_stdin = flag_bool fs ''admin-password-stdin'' in
     rbind (if email \<noteq> [] \<and> from_stdin then readInstallAdminPassword stdin else Inr []) (\<lambda>password.
     Inr \<lparr>ao_plan = plan, ao_database_url = flag_string fs ''database-url'', ao_bin_dir = flag_string fs ''bin-dir'',
          ao_etc_dir = flag_string fs ''etc-dir'', ao_systemd_dir = flag_string fs ''systemd-dir'',
          ao_agent_socket = flag_string fs ''agent-socket'', ao_panel_addr = flag_string fs ''panel-addr'',
          ao_environment = flag_string fs ''environment'', ao_admin_email = email,
          ao_admin_display_name = flag_string fs ''admin-display-name'', ao_admin_password_stdin = from_stdin,
          ao_admin_password = password, ao_no_systemd = flag_bool fs ''no-systemd''\<rparr>))"

section \<open>Preflight\<close>

definition samplePreflightFacts :: "string \<Rightarrow> string \<Rightarrow> system_facts" where
  "samplePreflightFacts profile postgresqlPlan =
     (let single = (profile = ProfileSingleUser) in
      \<lparr>sf_os = \<lparr>os_id = ''ubuntu'', os_version_id = ''24.04'', os_name = ''Ubuntu 24.04 LTS''\<rparr>,
       sf_profile = profile, sf_cpu_cores = MinimumCPUCores,
       sf_ram_mb = (if single then MinimumSingleUserRAMMB else MinimumSharedHostingRAMMB),
       sf_disk_gb = (if single then MinimumSingleUserDiskGB else MinimumSharedHostingDiskGB),
       sf_swap_mb = (if single then MinimumSingleUserSwapMB else MinimumSharedHostingSwapMB),
       sf_is_root = True, sf_has_systemd = True, sf_ports_available = [(80, True), (443, True)],
       sf_postgresql_plan = postgresqlPlan\<rparr>)"

type_synonym preflight_collector = "collector_options \<Rightarrow> err + system_facts"

definition gather_facts :: "preflight_collector \<Rightarrow> plan_options \<Rightarrow> err + system_facts" where
  "gather_facts collect options =
     (if po_sample options then Inr (samplePreflightFacts (po_profile options) (po_postgresql_plan options))
      else collect \<lparr>co_profile = po_profile options, co_postgresql_plan = po_postgresql_plan options,
             co_disk_path = [], co_ports = None\<rparr>)"

definition tabbed :: "string list \<Rightarrow> string" where
  "tabbed cells = join [CHR 0x09] cells"

definition writePreflightReport :: "report \<Rightarrow> string list" where
  "writePreflightReport r = map (\<lambda>c. tabbed [check_status_text (ck_status c), ck_name c, ck_message c]) r"

text \<open>A command prints lines and ends with or without an error.\<close>

definition runPreflight :: "(rune \<Rightarrow> rune) \<Rightarrow> preflight_collector \<Rightarrow> string list \<Rightarrow> string list \<times> err option" where
  "runPreflight ul collect args = (case rbind (parsePreflightOptions ul args) (gather_facts collect) of
     Inl e \<Rightarrow> ([], Some e)
   | Inr facts \<Rightarrow> (let report = Run facts in (writePreflightReport report,
       if \<not> Ready report then Some (Plain ''preflight has blocking failures'') else None)))"

section \<open>The plan\<close>

definition writeInstallPlan :: "plan \<Rightarrow> string list" where
  "writeInstallPlan p =
     [''Motekar Panel install plan'', ''mode: dry-run'', ''profile: '' @ pl_profile p,
      ''web_server: '' @ web_server_text (pl_web_server p), ''postgresql: '' @ pl_postgresql_plan p, [], ''preflight:'']
     @ writePreflightReport (pl_preflight p) @ [[], ''planned_actions:'']
     @ map (\<lambda>a. tabbed [if ac_changes_host a then ''WOULD_CHANGE'' else ''READ'', ac_id a, ac_description a]) (pl_actions p)
     @ [[], ''No changes were made.'']"

definition install_plan :: "(rune \<Rightarrow> rune) \<Rightarrow> preflight_collector \<Rightarrow> plan_options \<Rightarrow> err + plan" where
  "install_plan ul collect options = rbind (gather_facts collect options) (\<lambda>facts.
     BuildPlan ul \<lparr>pi_profile = po_profile options, pi_web_server = po_web_server options,
       pi_postgresql_plan = po_postgresql_plan options, pi_preflight = Run facts\<rparr>)"

definition blocked :: err where "blocked = Plain ''install plan has blocking preflight failures''"

definition runInstallPlan :: "(rune \<Rightarrow> rune) \<Rightarrow> preflight_collector \<Rightarrow> string list \<Rightarrow> string list \<times> err option" where
  "runInstallPlan ul collect args = (case rbind (parseInstallPlanOptions ul args) (install_plan ul collect) of
     Inl e \<Rightarrow> ([], Some e)
   | Inr p \<Rightarrow> (writeInstallPlan p, if \<not> plan_ready p then Some blocked else None))"

section \<open>Applying it\<close>

definition loggingExecutor :: "'s executor \<Rightarrow> (string list \<times> 's) executor" where
  "loggingExecutor execute a = (\<lambda>(out, s).
     let out = out @ [''running '' @ ac_id a @ '' ...''] in
     case execute a s of
       (Inl e, s') \<Rightarrow> (Inl e, (out, s'))
     | (Inr u, s') \<Rightarrow> (Inr u, (out @ [''running '' @ ac_id a @ '' done''], s')))"

definition applied_lines :: "apply_options \<Rightarrow> plan \<Rightarrow> action list \<Rightarrow> string list" where
  "applied_lines options p skipped =
     (if skipped = [] then [] else
        (''skipped '' @ digits (length skipped) @ '' action(s) not yet supported:'') # map (\<lambda>a. ''  - '' @ ac_id a) skipped)
     @ [''web_server: '' @ web_server_text (pl_web_server p)]
     @ (if ao_admin_email options = [] then [] else [''admin: '' @ ao_admin_email options])
     @ [''Motekar Panel installed.'']"

definition runInstallApply ::
  "(rune \<Rightarrow> rune) \<Rightarrow> preflight_collector \<Rightarrow> (apply_options \<Rightarrow> err + 's executor) \<Rightarrow> string list \<Rightarrow> err + string \<Rightarrow> 's
     \<Rightarrow> (string list \<times> err option) \<times> 's" where
  "runInstallApply ul collect openExecutor args stdin s =
     (case rbind (parseInstallApplyOptionsFromReader ul args stdin) (\<lambda>options.
             rbind (install_plan ul collect (ao_plan options)) (\<lambda>p.
             if \<not> plan_ready p then Inl blocked
             else rbind (openExecutor options) (\<lambda>execute. Inr (options, p, execute)))) of
        Inl e \<Rightarrow> (([], Some e), s)
      | Inr (options, p, execute) \<Rightarrow> (case Apply p (loggingExecutor execute) ([], s) of
            (Inl e, (out, s')) \<Rightarrow> ((out, Some e), s')
          | (Inr skipped, (out, s')) \<Rightarrow> ((out @ applied_lines options p skipped, None), s')))"

definition configured_installer ::
  "(string \<Rightarrow> string option) \<Rightarrow> err + dir_entry list \<Rightarrow> err + dir_entry list \<Rightarrow> apply_options \<Rightarrow> string \<Rightarrow> full_installer" where
  "configured_installer openDB source_dir migrations options url =
     (NewFullInstaller openDB source_dir (Some migrations))\<lparr>
       fi_profile := po_profile (ao_plan options), fi_web_server := po_web_server (ao_plan options),
       fi_postgresql_plan := po_postgresql_plan (ao_plan options), fi_database_url := url,
       fi_bin_dir := ao_bin_dir options, fi_etc_dir := ao_etc_dir options, fi_systemd_dir := ao_systemd_dir options,
       fi_agent_socket_path := ao_agent_socket options, fi_panel_addr := ao_panel_addr options,
       fi_environment := ao_environment options, fi_admin_email := ao_admin_email options,
       fi_admin_display_name := ao_admin_display_name options, fi_admin_password := ao_admin_password options\<rparr>"

text \<open>Without systemd only the executor of the setting runs, on a database opened at once.\<close>

definition openInstallExecutor ::
  "(string \<Rightarrow> string) \<Rightarrow> (string \<Rightarrow> string option) \<Rightarrow> err + dir_entry list \<Rightarrow> err + dir_entry list \<Rightarrow> install_env
     \<Rightarrow> apply_options \<Rightarrow> err + installation executor" where
  "openInstallExecutor getenv openDB source_dir migrations env options =
     rbind (loadPanel (ie_lower env) getenv) (\<lambda>cfg.
     let url = (if ao_database_url options = [] then pc_database_url cfg else ao_database_url options) in
     if ao_no_systemd options
     then if url = [] then Inl (Plain ''database URL is required; pass --database-url or set MOTEKAR_DATABASE_URL'')
       else rbind (OpenPostgres (\<lambda>u. map_option Plain (openDB u)) url) (\<lambda>_.
         Inr (\<lambda>a. on_db (web_server_execute
           (Select (ie_lower env) (sql_service (ie_pg env) True (ie_audit_now env) (ie_audit_id env)))
           (po_web_server (ao_plan options)) a)))
     else Inr (Execute env (configured_installer openDB source_dir migrations options url)))"

datatype ctl_command = InstallPlanCmd "string list" | InstallApplyCmd "string list" | PreflightCmd "string list" | CtlVersionCmd

definition installCommand :: "string list \<Rightarrow> err + ctl_command" where
  "installCommand args = (case args of
     [] \<Rightarrow> Inl (Plain ''usage: motekarctl install <plan|apply> ...'')
   | c # rest \<Rightarrow>
       if c = ''plan'' then Inr (InstallPlanCmd rest)
       else if c = ''apply'' then Inr (InstallApplyCmd rest)
       else Inl (Plain (''unknown install subcommand '' @ quoted c @ ''; usage: motekarctl install <plan|apply> ...'')))"

definition ctl_run :: "string list \<Rightarrow> err + ctl_command" where
  "ctl_run args =
     (let command = (case args of [] \<Rightarrow> ''version'' | c # _ \<Rightarrow> c) in
      if command = ''install'' then installCommand (tl args)
      else if command = ''preflight'' then Inr (PreflightCmd (tl args))
      else if command = ''version'' then Inr CtlVersionCmd
      else Inl (Plain (''unknown command '' @ quoted command)))"

section \<open>An installation is gated by its preflight\<close>

text \<open>Printing the steps does not change what an executor does.\<close>

lemma loggingExecutor_state: "map_prod id snd (loggingExecutor execute a (out, s)) = execute a s"
  by (cases "execute a s") (auto simp: loggingExecutor_def Let_def split: sum.split)

context logged_executor
begin

lemma logging: "logged_executor (loggingExecutor execute) (\<lambda>s. log (snd s)) emits"
proof unfold_locales
  fix a r s s' assume l: "loggingExecutor execute a s = (r, s')"
  have e: "execute a (snd s) = (r, snd s')"
    using loggingExecutor_state[of execute a "fst s" "snd s"] l by simp
  show "\<exists>k. log (snd s') = log (snd s) @ take k (emits a)" by (rule begins[OF e])
  show "log (snd s') = log (snd s) @ emits a" if "is_ok r \<or> (\<exists>e. r = Inl e \<and> err_is e ErrUnsupportedAction)"
    by (rule whole[OF e that])
qed

end

interpretation logged_install: logged_executor "loggingExecutor (Execute env (without_overrides i))"
    "\<lambda>s. in_commands (snd s)" "action_commands env i"
  for env i
  by (rule full_install.logging)

interpretation setting_install: logged_executor
    "loggingExecutor (\<lambda>a. on_db (web_server_execute sel v a))" "\<lambda>s. in_commands (snd s)" "\<lambda>a. []"
  for sel v
proof -
  have "logged_executor (\<lambda>a. on_db (web_server_execute sel v a)) in_commands (\<lambda>a. [])"
    by unfold_locales (auto dest: on_db_ok)
  then show "logged_executor (loggingExecutor (\<lambda>a. on_db (web_server_execute sel v a)))
      (\<lambda>s. in_commands (snd s)) (\<lambda>a. [])"
    by (rule logged_executor.logging)
qed

text \<open>The commands of \<open>install apply\<close>: none without systemd, else those of its options and plan.\<close>

definition apply_commands :: "install_env \<Rightarrow> apply_options \<Rightarrow> plan \<Rightarrow> string list list" where
  "apply_commands env options p =
     (if ao_no_systemd options then []
      else install_commands env (configured_installer (\<lambda>_. None) (Inr []) (Inr []) options []) p)"

lemma configured_commands:
  "install_commands env (configured_installer db src ms options url) p
     = install_commands env (configured_installer (\<lambda>_. None) (Inr []) (Inr []) options []) p"
  by (simp add: install_commands_def web_server_commands_def web_server_package_def configured_installer_def)

lemma configured_plain: "configured_installer db src ms options url = without_overrides (configured_installer db src ms options url)"
  by (simp add: configured_installer_def NewFullInstaller_def without_overrides_def)

lemma install_plan_Inr:
  assumes "install_plan ul collect options = Inr p" and "plan_ready p"
  shows "\<exists>facts. gather_facts collect options = Inr facts \<and> list_all snd (requirements facts)
    \<and> ParseWebServer ul (po_web_server options) = Inr (pl_web_server p)
    \<and> pl_actions p = plannedActions (pl_web_server p) (pl_postgresql_plan p)"
proof -
  obtain facts where f: "gather_facts collect options = Inr facts"
    and b: "BuildPlan ul \<lparr>pi_profile = po_profile options, pi_web_server = po_web_server options,
       pi_postgresql_plan = po_postgresql_plan options, pi_preflight = Run facts\<rparr> = Inr p"
    using assms(1) by (auto simp: install_plan_def rbind_eq_Inr)
  have "Ready (Run facts)" using BuildPlan_Inr[OF b] assms(2) by (simp add: plan_ready_def)
  then have "list_all snd (requirements facts)" using stands_for_failures[OF run_stands_for] by blast
  then show ?thesis using BuildPlan_Inr[OF b] f by simp
qed

lemma opened_log:
  assumes "openInstallExecutor getenv db src ms env options = Inr execute"
    and "Apply p (loggingExecutor execute) s = (r, s')"
    and "pl_actions p = plannedActions (pl_web_server p) (pl_postgresql_plan p)"
  shows "(\<exists>k. in_commands (snd s') = in_commands (snd s) @ take k (apply_commands env options p))
    \<and> (is_ok r \<longrightarrow> in_commands (snd s') = in_commands (snd s) @ apply_commands env options p)"
proof (cases "ao_no_systemd options")
  case True
  then obtain sel v where e: "execute = (\<lambda>a. on_db (web_server_execute sel v a))"
    using assms(1) by (auto simp: openInstallExecutor_def rbind_eq_Inr Let_def split: if_splits)
  have none: "concat (map (\<lambda>a. []) as) = ([] :: string list list)" for as :: "action list" by (induction as) auto
  show ?thesis using setting_install.apply_log[of p sel v s r s'] assms(2) True e
    by (simp add: apply_commands_def none)
next
  case False
  then obtain url where e: "execute = Execute env (configured_installer db src ms options url)"
    using assms(1) by (auto simp: openInstallExecutor_def rbind_eq_Inr Let_def)
  have "Apply p (loggingExecutor (Execute env (without_overrides (configured_installer db src ms options url)))) s = (r, s')"
    using assms(2) unfolding e configured_plain[symmetric] .
  note l = logged_install.apply_log[OF this]
  have "concat (map (action_commands env (configured_installer db src ms options url)) (pl_actions p))
      = install_commands env (configured_installer db src ms options url) p"
    by (simp add: assms(3) planned_commands install_commands_def)
  also have "\<dots> = apply_commands env options p"
    using False configured_commands by (simp only: apply_commands_def if_False)
  finally show ?thesis using l by simp
qed

text \<open>C12. \<open>motekarctl install apply\<close> does nothing to the host unless its options are right and every
  requirement of the preflight is met by the facts it gathered (those of the host, unless
  \<open>--sample\<close> was given); then the commands it runs are a beginning of one list that the options and the
  plan fix, and when it says that the panel is installed the whole list was run.\<close>

theorem install_apply_gated:
  assumes "runInstallApply (ie_lower env) collect (openInstallExecutor getenv db src ms env) args stdin st = ((out, e), st')"
  shows "(st' = st \<and> out = [] \<and> e \<noteq> None)
    \<or> (\<exists>options facts p. parseInstallApplyOptionsFromReader (ie_lower env) args stdin = Inr options
        \<and> gather_facts collect (ao_plan options) = Inr facts \<and> list_all snd (requirements facts)
        \<and> install_plan (ie_lower env) collect (ao_plan options) = Inr p
        \<and> (\<exists>k. in_commands st' = in_commands st @ take k (apply_commands env options p))
        \<and> (e = None \<longrightarrow> in_commands st' = in_commands st @ apply_commands env options p
             \<and> last out = ''Motekar Panel installed.''))"
proof -
  define prepared where "prepared = rbind (parseInstallApplyOptionsFromReader (ie_lower env) args stdin) (\<lambda>options.
     rbind (install_plan (ie_lower env) collect (ao_plan options)) (\<lambda>p.
     if \<not> plan_ready p then Inl blocked
     else rbind (openInstallExecutor getenv db src ms env options) (\<lambda>execute. Inr (options, p, execute))))"
  show ?thesis
  proof (cases prepared)
    case (Inl x)
    then show ?thesis using assms unfolding runInstallApply_def prepared_def by (intro disjI1) auto
  next
    case (Inr q)
    then obtain options p execute where q: "prepared = Inr (options, p, execute)" by (cases q) auto
    then have o: "parseInstallApplyOptionsFromReader (ie_lower env) args stdin = Inr options"
      and pl: "install_plan (ie_lower env) collect (ao_plan options) = Inr p" and r: "plan_ready p"
      and x: "openInstallExecutor getenv db src ms env options = Inr execute"
      by (auto simp: prepared_def rbind_eq_Inr split: if_splits)
    obtain facts where f: "gather_facts collect (ao_plan options) = Inr facts" "list_all snd (requirements facts)"
        "pl_actions p = plannedActions (pl_web_server p) (pl_postgresql_plan p)"
      using install_plan_Inr[OF pl r] by auto
    obtain res o2 s2 where a: "Apply p (loggingExecutor execute) ([], st) = (res, (o2, s2))" by (metis surj_pair)
    have "s2 = st' \<and> (e = None \<longleftrightarrow> is_ok res) \<and> (e = None \<longrightarrow> last out = ''Motekar Panel installed.'')"
      using assms q a unfolding runInstallApply_def prepared_def
      by (cases res) (auto simp: applied_lines_def)
    then show ?thesis using opened_log[OF x a f(3)] o pl f by auto
  qed
qed

text \<open>A port in use blocks the command before anything else, the right ones for a second installation
  on a host whose web server runs included. \<open>--sample\<close> never blocks.\<close>

lemma busy_port_blocks:
  assumes "parseInstallApplyOptionsFromReader ul args stdin = Inr options"
    and "gather_facts collect (ao_plan options) = Inr facts"
    and "(port, False) \<in> set (sf_ports_available facts)" and "distinct (map fst (sf_ports_available facts))"
  shows "\<exists>e. runInstallApply ul collect open args stdin st = (([], Some e), st)"
proof -
  have "map_of (sf_ports_available facts) port = Some False" using assms(3,4) by simp
  then have "\<not> list_all snd (requirements facts)" using assms(3)
    by (force simp: requirements_def Let_def list_all_iff)
  then have "p = p \<Longrightarrow> \<not> (install_plan ul collect (ao_plan options) = Inr p \<and> plan_ready p)" for p
    using install_plan_Inr[of ul collect "ao_plan options" p] assms(2) by auto
  then show ?thesis
    by (cases "install_plan ul collect (ao_plan options)") (auto simp: runInstallApply_def assms(1))
qed

lemma sample_never_blocks:
  assumes "plan \<in> {PostgreSQLPlanInstall, PostgreSQLPlanExternal}"
  shows "list_all snd (requirements (samplePreflightFacts profile plan))"
  using assms by (auto simp: requirements_def samplePreflightFacts_def option_defs minimum_defs Let_def)

section \<open>An installation of a clean host\<close>

definition demo_flags :: "string list" where
  "demo_flags = [''--profile'', ''single-user'', ''--web-server'', ''nginx'']"

definition demo_options :: apply_options where
  "demo_options = \<lparr>ao_plan = \<lparr>po_profile = ''single-user'', po_web_server = ''nginx'', po_postgresql_plan = ''install'', po_sample = False\<rparr>,
     ao_database_url = [], ao_bin_dir = ''/usr/local/bin'', ao_etc_dir = ''/etc/motekar-panel'',
     ao_systemd_dir = ''/etc/systemd/system'', ao_agent_socket = ''/run/motekar-panel/agent.sock'', ao_panel_addr = '':8080'',
     ao_environment = ''production'', ao_admin_email = [], ao_admin_display_name = [], ao_admin_password_stdin = False,
     ao_admin_password = [], ao_no_systemd = False\<rparr>"

definition demo_facts :: system_facts where "demo_facts = samplePreflightFacts ''single-user'' ''install''"

lemma demo_profile: "ParseInstallProfile id ''single-user'' = Inr ''single-user''"
proof -
  have "trim_space ''single-user'' = ''single-user''" by (rule trim_space_plain; simp add: plain_def)
  then show ?thesis
    by (simp add: ParseInstallProfile_def option_defs Let_def to_lower_ascii ascii_def lower_byte_def)
qed

lemma demo_postgres_plan: "ParsePostgreSQLPlan id ''install'' = Inr ''install''"
proof -
  have "trim_space ''install'' = ''install''" by (rule trim_space_plain; simp add: plain_def)
  then show ?thesis
    by (simp add: ParsePostgreSQLPlan_def option_defs Let_def to_lower_ascii ascii_def lower_byte_def)
qed

lemma demo_apply_parsed: "parseInstallApplyOptionsFromReader id demo_flags stdin = Inr demo_options"
proof -
  have "parse_flags apply_flags demo_flags
      = Inr (apply_flags(''profile'' \<mapsto> FString ''single-user'', ''web-server'' \<mapsto> FString ''nginx''), [])"
    by (simp add: demo_flags_def apply_flags_def plan_flags_def preflight_flags_def flag_text_def flag_name_value_def)
  then show ?thesis
    by (simp add: parseInstallApplyOptionsFromReader_def flag_options_def flag_string_def flag_bool_def apply_flags_def
        plan_flags_def preflight_flags_def demo_profile demo_postgres_plan PostgreSQLPlanInstall_def demo_options_def Let_def)
qed

lemma demo_ready: "Ready (Run demo_facts)"
  using stands_for_failures[OF run_stands_for, of demo_facts]
  by (simp add: requirements_def demo_facts_def samplePreflightFacts_def option_defs minimum_defs Let_def)

lemma demo_install_plan:
  "\<exists>p. install_plan id (\<lambda>_. Inr demo_facts) (ao_plan demo_options) = Inr p \<and> plan_ready p
     \<and> pl_postgresql_plan p = ''install'' \<and> pl_actions p = plannedActions WebServerNginx ''install''"
  using demo_ready
  by (simp add: install_plan_def gather_facts_def demo_options_def BuildPlan_def demo_profile nginx_parse option_defs
      plan_ready_def Let_def)

text \<open>Printing the steps leaves the outcome of a plan as it is.\<close>

lemma apply_actions_logging:
  "map_prod id snd (apply_actions (loggingExecutor execute) as sk (out, s)) = apply_actions execute as sk s"
proof (induction as arbitrary: sk out s)
  case (Cons a as)
  obtain r o1 s1 where l: "loggingExecutor execute a (out, s) = (r, (o1, s1))" by (metis surj_pair)
  then have "execute a s = (r, s1)" using loggingExecutor_state[of execute a out s] by simp
  then show ?case using l Cons.IH by (simp split: sum.split)
qed simp

theorem install_apply_gated_witness:
  "\<exists>(h :: installation) (out :: string list). take 2 (in_commands h) = [[''apt-get'', ''update''],
       [''apt-get'', ''install'', ''-y'', ''-o'', ''Dpkg::Progress-Fancy=0'', ''postgresql'']]
     \<and> drop 5 (in_commands h) = web_server_commands demo_installer @ systemd_commands
     \<and> last out = ''Motekar Panel installed.''"
proof -
  let ?open = "openInstallExecutor (\<lambda>_. []) (\<lambda>_. None) (Inr []) (Inr demo_entries) demo_env"
  obtain p where p: "install_plan id (\<lambda>_. Inr demo_facts) (ao_plan demo_options) = Inr p" "plan_ready p"
      "pl_postgresql_plan p = ''install''" "pl_actions p = plannedActions WebServerNginx ''install''"
    using demo_install_plan by blast
  have lower: "ie_lower demo_env = id" by (simp add: demo_env_def)
  have "configured_installer (\<lambda>_. None) (Inr []) (Inr demo_entries) demo_options [] = without_overrides demo_installer"
    by (simp add: configured_installer_def demo_options_def demo_installer_def without_overrides_def NewFullInstaller_def)
  moreover have "trim_space [] = []" by (simp add: go_simps)
  ultimately have x: "?open demo_options = Inr (Execute demo_env (without_overrides demo_installer))"
    by (simp add: openInstallExecutor_def loadPanel_def lower env_value_def Let_def demo_options_def)
  obtain h where "Apply (demo_plan WebServerNginx) (Execute demo_env (without_overrides demo_installer)) clean_host = (Inr [], h)"
    using demo_installs by blast
  then have "apply_actions (Execute demo_env (without_overrides demo_installer)) (pl_actions p) [] clean_host = (Inr [], h)"
    by (simp add: Apply_def p(4) demo_plan_def split: if_splits)
  then obtain out where a: "Apply p (loggingExecutor (Execute demo_env (without_overrides demo_installer))) ([], clean_host) = (Inr [], (out, h))"
    using apply_actions_logging[of "Execute demo_env (without_overrides demo_installer)" "pl_actions p" "[]" "[]" clean_host] p(2)
    by (cases "apply_actions (loggingExecutor (Execute demo_env (without_overrides demo_installer))) (pl_actions p) [] ([], clean_host)")
      (auto simp: Apply_def)
  define lines where "lines = out @ applied_lines demo_options p []"
  have "runInstallApply (ie_lower demo_env) (\<lambda>_. Inr demo_facts) ?open demo_flags (Inr []) clean_host = ((lines, None), h)"
    by (simp add: runInstallApply_def lower demo_apply_parsed p x a lines_def)
  from install_apply_gated[OF this] have "in_commands h = in_commands clean_host @ apply_commands demo_env demo_options p"
      "last lines = ''Motekar Panel installed.''"
    by (auto simp: lower demo_apply_parsed p(1))
  then show ?thesis
    by (intro exI[of _ h] exI[of _ lines])
      (simp add: apply_commands_def install_commands_def configured_installer_def demo_options_def clean_host_def p(3)
        PostgreSQLPlanExternal_def postgres_commands_def postgres_packages_def demo_env_def generateDatabasePassword_def
        web_server_commands_def web_server_package_def demo_installer_def)
qed

end
