(* ===== verification/AgentMain.thy ===== *)
theory AgentMain
  imports AgentCalls AgentSocket Config WebServer
begin

text \<open>
  \<open>cmd/motekar-agent/main.go\<close>, the agent's server with all its routes (\<open>server.go\<close>), the remaining calls
  of \<open>UnixClient\<close> and \<open>Capabilities.String\<close>. How the serving ends is an input. The host of the process is
  that of \<open>AgentSocket\<close>.
\<close>

section \<open>The client's questions (\<open>transport.go\<close>)\<close>

definition NewUnixClient :: "string \<Rightarrow> int \<Rightarrow> string \<times> int" where
  "NewUnixClient socketPath timeout = (socketPath, if timeout \<le> 0 then 2000000000 else timeout)"

text \<open>A GET whose body is one JSON value; \<open>decode\<close> is the target's side of \<open>Decode\<close>.\<close>

definition getJSON :: "(string \<Rightarrow> http_outcome) \<Rightarrow> string \<Rightarrow> (json \<Rightarrow> 'a option) \<Rightarrow> err + 'a" where
  "getJSON get path decode = (case get path of
     NotSent e \<Rightarrow> Inl (Wrapped (''request agent '' @ path @ '': '') (Plain e) [])
   | SentFailed e \<Rightarrow> Inl (Wrapped (''request agent '' @ path @ '': '') (Plain e) [])
   | BodyFailed status e \<Rightarrow>
       if status \<noteq> 200 then Inl (Plain (''agent '' @ path @ '' returned HTTP '' @ digits status))
       else Inl (Wrapped (''decode agent '' @ path @ '' response: '') (Plain e) [])
   | Answer status body \<Rightarrow>
       if status \<noteq> 200 then Inl (Plain (''agent '' @ path @ '' returned HTTP '' @ digits status))
       else (case Option.bind (parse_json (take maxAgentResponseBytes body)) decode of
           None \<Rightarrow> Inl (Wrapped (''decode agent '' @ path @ '' response: '') (Plain ''invalid'') [])
         | Some v \<Rightarrow> Inr v))"

definition string_items :: "json list \<Rightarrow> string list option" where
  "string_items vs = those (map (\<lambda>v. case v of JStr s \<Rightarrow> Some s | JNull \<Rightarrow> Some [] | _ \<Rightarrow> None) vs)"

definition unmarshal_capabilities :: "json \<Rightarrow> string list option" where
  "unmarshal_capabilities v = (case v of
     JNull \<Rightarrow> Some []
   | JObj kvs \<Rightarrow> (case last_member ''actions'' kvs of
       None \<Rightarrow> Some [] | Some (JArr vs) \<Rightarrow> string_items vs | _ \<Rightarrow> None)
   | _ \<Rightarrow> None)"

definition client_capabilities :: "(string \<Rightarrow> http_outcome) \<Rightarrow> err + string list" where
  "client_capabilities get = getJSON get ''/capabilities'' unmarshal_capabilities"

definition Capabilities_String :: "string list \<Rightarrow> string" where
  "Capabilities_String actions = trim_space (capabilities_text actions)"

section \<open>The server (\<open>server.go\<close>)\<close>

record agent_server =
  as_version :: build_info
  as_actions :: "agent_host registry"

text \<open>Building the default registry panics with its error.\<close>

definition NewServer ::
  "(rune \<Rightarrow> rune) \<Rightarrow> (nat \<Rightarrow> string \<Rightarrow> bool) \<Rightarrow> build_info \<Rightarrow> agent_host registry option \<Rightarrow> err + agent_server" where
  "NewServer ul fl version actions = rbind (case actions of None \<Rightarrow> DefaultRegistry ul fl | Some r \<Rightarrow> Inr r)
     (\<lambda>r. Inr \<lparr>as_version = version, as_actions = r\<rparr>)"

text \<open>What the mux makes of a request: an answer of a handler, a redirect to the cleaned path, no route, or
  the methods of the route.\<close>

datatype agent_reply = Replies http_response | MovedTo string | NoRoute | WrongMethod string

definition agent_handle ::
  "(string \<Rightarrow> string option) \<Rightarrow> agent_server \<Rightarrow> agent_host \<Rightarrow> string \<Rightarrow> string \<Rightarrow> agent_request \<Rightarrow> agent_reply" where
  "agent_handle mime srv host meth escaped rq =
     (let path = (if meth = ''CONNECT'' then escaped else mux_clean escaped); segs = segments path;
          getting = (meth = ''GET'' \<or> meth = ''HEAD'');
          acts = (length segs = 2 \<and> hd segs = ''actions'' \<and> segs ! 1 \<noteq> ''/'') in
      if path \<noteq> escaped then MovedTo path
      else if getting \<and> segs = [''healthz''] then Replies handleHealth
      else if getting \<and> segs = [''capabilities''] then Replies handleCapabilities
      else if getting \<and> segs = [''version''] then Replies (handleVersion (as_version srv))
      else if meth = ''POST'' \<and> acts then Replies (handleAction mime (as_actions srv) host (segs ! 1) rq)
      else if segs \<in> {[''healthz''], [''capabilities''], [''version'']} then WrongMethod ''GET, HEAD''
      else if acts then WrongMethod ''POST''
      else NoRoute)"

text \<open>What reaches a client.\<close>

definition reply_outcome :: "agent_reply \<Rightarrow> http_outcome" where
  "reply_outcome r = (case r of
     Replies (status, body) \<Rightarrow> Answer status body
   | MovedTo path \<Rightarrow> Answer 301 []
   | NoRoute \<Rightarrow> Answer 404 (''404 page not found'' @ [CHR 0x0A])
   | WrongMethod allowed \<Rightarrow> Answer 405 (''Method Not Allowed'' @ [CHR 0x0A]))"

section \<open>The process\<close>

datatype agent_command = AgentServe | AgentPrints string

definition agent_run :: "build_info \<Rightarrow> string list \<Rightarrow> err + agent_command" where
  "agent_run version args =
     (let command = (case args of [] \<Rightarrow> ''serve'' | c # _ \<Rightarrow> c) in
      if command = ''serve'' then Inr AgentServe
      else if command = ''capabilities'' then Inr (AgentPrints (Capabilities_String DefaultCapabilities))
      else if command = ''version'' then Inr (AgentPrints (build_info_text version))
      else Inl (Plain (''unknown command '' @ quoted command)))"

text \<open>The server ends by itself or by a signal, and then with what \<open>Shutdown\<close> returns. Both close the
  listener once; the deferred \<open>Close\<close> comes after. \<open>None\<close> is a call that does not return.\<close>

datatype serving = ServeFails err | SignalStops "err option"

definition agent_serve :: "(string \<Rightarrow> string) \<Rightarrow> socket_host \<Rightarrow> serving \<Rightarrow> (socket_host \<times> err option) option" where
  "agent_serve getenv h ending = (case loadAgent getenv of
     Inl e \<Rightarrow> Some (h, Some e)
   | Inr cfg \<Rightarrow> (case ListenUnix h (ac_socket_path cfg) of
       (h1, None) \<Rightarrow> None
     | (h1, Some (Inl e)) \<Rightarrow> Some (h1, Some e)
     | (h1, Some (Inr l)) \<Rightarrow> (case listener_close h1 l of
         (h2, l2, e2) \<Rightarrow> (case listener_close h2 l2 of
           (h3, l3, e3) \<Rightarrow> Some (h3, case ending of ServeFails e \<Rightarrow> Some e | SignalStops s \<Rightarrow> s)))))"

section \<open>The process leaves no socket behind\<close>

text \<open>The process ends whenever its server does, and gives back the socket and the lock it took. The
  only errors before serving are those of the settings and of the socket.\<close>

lemma agent_serve_releases:
  assumes "locked h"
  shows "\<exists>h' e. agent_serve getenv h ending = Some (h', e) \<and> kh_listening h' = kh_listening h \<and> kh_locks h' = kh_locks h"
proof (cases "loadAgent getenv")
  case (Inl e)
  then show ?thesis by (simp add: agent_serve_def)
next
  case (Inr cfg)
  obtain h1 r where l: "ListenUnix h (ac_socket_path cfg) = (h1, Some r)"
    and o: "case r of
       Inl e \<Rightarrow> kh_listening h1 = kh_listening h \<and> kh_locks h1 = kh_locks h
     | Inr l \<Rightarrow> (case listener_close h1 l of (h'', l', e) \<Rightarrow>
            kh_listening h'' = kh_listening h \<and> kh_locks h'' = kh_locks h \<and> listener_close h'' l' = (h'', l', e))"
    using listen_unix_outcome[OF assms, of "ac_socket_path cfg"] by (force simp: Let_def split: sum.splits)
  show ?thesis
  proof (cases r)
    case Inl: (Inl e)
    then show ?thesis using l o Inr by (simp add: agent_serve_def)
  next
    case (Inr k)
    obtain h2 k2 e2 where c: "listener_close h1 k = (h2, k2, e2)" by (metis surj_pair)
    then show ?thesis using l o \<open>loadAgent getenv = Inr cfg\<close> Inr by (simp add: agent_serve_def)
  qed
qed

text \<open>The list of actions survives \<open>/capabilities\<close> and the client.\<close>

lemma capabilities_parse:
  assumes "\<forall>a \<in> set actions. ascii a"
  shows "parse_json (capabilities_text actions) = Some (JObj [(''actions'', JArr (map JStr actions))])"
proof -
  let ?v = "JObj [(''actions'', JArr (map JStr actions))]"
  have "json_ok 1 (JArr (map JStr actions))"
    using json_ok.intros(5)[of "map JStr actions" 0] by (auto intro: json_ok.intros)
  then have "json_ok 2 ?v" using json_ok.intros(6)[of "[(''actions'', JArr (map JStr actions))]" 1]
    by (simp add: numeral_2_eq_2)
  then have "parse_json (json_text ?v) = Some (json_norm ?v)" by (rule json_text_parses) (simp add: max_depth_def)
  moreover have "json_text ?v = capabilities_text actions" by (simp add: capabilities_text_def comp_def)
  moreover have "map (\<lambda>a. JStr (of_runes (runes a))) actions = map JStr actions"
    using assms runes_back by simp
  moreover have "of_runes (runes ''actions'') = ''actions''" by (rule runes_back) (simp add: ascii_def)
  ultimately show ?thesis by (simp add: comp_def)
qed

lemma strings_items: "string_items (map JStr actions) = Some actions"
  by (induction actions) (auto simp: string_items_def)

lemma capabilities_round_trip:
  assumes "\<forall>a \<in> set actions. ascii a" and "length (capabilities_text actions) \<le> maxAgentResponseBytes"
  shows "client_capabilities (\<lambda>path. Answer 200 (capabilities_text actions)) = Inr actions"
proof -
  have "fold_key ''actions'' = ''actions''"
    by (simp add: fold_key_def runes_ascii ascii_def lower_byte_def encode_rune_small char_of_eq)
  then show ?thesis using assms
    by (simp add: client_capabilities_def getJSON_def capabilities_parse unmarshal_capabilities_def last_member_def
        strings_items)
qed

section \<open>The client's questions are answered\<close>

lemma agent_routes:
  "agent_handle mt srv host ''GET'' ''/healthz'' rq = Replies handleHealth"
  "agent_handle mt srv host ''GET'' ''/capabilities'' rq = Replies handleCapabilities"
  "agent_handle mt srv host ''GET'' ''/version'' rq = Replies (handleVersion (as_version srv))"
  by (simp_all add: agent_handle_def mux_clean_def segments_def path_clean_def path_elements_def is_abs_def Let_def)

lemma agent_healthy: "client_health (\<lambda>path. reply_outcome (agent_handle mt srv host ''GET'' path rq)) = None"
proof -
  have "json_ok 1 (JObj [(''status'', JStr ''ok'')])"
    using json_ok.intros(6)[of "[(''status'', JStr ''ok'')]" 0] by (auto intro: json_ok.intros)
  from json_text_parses[OF this]
  have "parse_json (json_text (JObj [(''status'', JStr ''ok'')])) = Some (json_norm (JObj [(''status'', JStr ''ok'')]))"
    by (simp add: max_depth_def)
  moreover have "of_runes (runes ''status'') = ''status''" "of_runes (runes ''ok'') = ''ok''"
    by (rule runes_back; simp add: ascii_def)+
  moreover have "fold_key ''status'' = ''status''"
    by (simp add: fold_key_def runes_ascii ascii_def lower_byte_def encode_rune_small char_of_eq)
  ultimately show ?thesis
    unfolding client_health_def agent_routes handleHealth_def reply_outcome_def
    by (simp add: string_member_def last_member_def)
qed

lemma default_capabilities: "DefaultCapabilities = [''agent.capabilities'', ''agent.health'', ''server.inventory'']"
  by (simp add: DefaultCapabilities_def default_registry Actions_def less_list_code)

lemma agent_lists_actions:
  "client_capabilities (\<lambda>path. reply_outcome (agent_handle mt srv host ''GET'' path rq)) = Inr DefaultCapabilities"
proof -
  have a: "\<forall>a \<in> set DefaultCapabilities. ascii a" by (simp add: default_capabilities ascii_def)
  have "length (capabilities_text DefaultCapabilities) \<le> maxAgentResponseBytes"
    by (simp add: default_capabilities capabilities_text_def json_object_def json_array_def quoted_def escape_rune_def
        encode_rune_def norm_rune_def valid_rune_def rune_error_def maxAgentResponseBytes_def)
  from capabilities_round_trip[OF a this] show ?thesis
    by (simp add: client_capabilities_def getJSON_def agent_routes reply_outcome_def handleCapabilities_def)
qed

end
