(* ===== verification/Spec2Isabelle.thy ===== *)
theory Spec2Isabelle
  imports JobOutcome JobWorker Rbac Settings LoginLimiter Password Sha256 Session Bootstrap Migrations Flags Config Preflight GoPath Installer FullInstaller AgentActions JsonText Inventory AgentRpc AgentCalls AgentSocket
    Web WebServer Panel WebGuard WebRequests PanelJobs Ctl AgentMain
begin

text \<open>
  A verification library of the Motekar panel, a hosting control panel in Go: the panel process
  (\<open>cmd/motekar-panel\<close>: web server and job worker over PostgreSQL), the privileged agent it talks to over
  a Unix socket (\<open>cmd/motekar-agent\<close>), and the installer command (\<open>cmd/motekarctl\<close>).

  \<^bold>\<open>How the parts interact.\<close> A browser request passes the mux and, for a protected page, the guard, which
  asks the session service who the cookie belongs to and the authorizer whether that user holds the
  page's permission. The job pages retry or cancel jobs. The worker claims jobs from the queue,
  calls the agent's action of the job's type through the client, and finishes or requeues the job.
  Logins, job mutations, settings and the first administrator are written to the audit trail. The
  installer checks the host, builds a plan and applies its actions: packages, database, migrations, the web
  server setting, unit files, the first administrator.

  \<^bold>\<open>Vocabulary.\<close> \<open>Prelude\<close> and \<open>Errors\<close>: results as \<open>err + 'a\<close>, with \<open>errors.Is\<close> as \<open>err_is\<close>. \<open>GoStrings\<close>,
  \<open>GoPath\<close>, \<open>Flags\<close>, \<open>Json\<close> and \<open>JsonText\<close>: the parts of Go's standard library the code relies on, translated
  where a property depends on them: bytes and runes, trimming, \<open>strconv\<close>, \<open>filepath\<close>, \<open>flag\<close>, the reader and
  the writer of \<open>encoding/json\<close> (\<open>JsonText\<close> proves that what is written is read back). \<open>Sha256\<close> is
  FIPS 180-4. \<open>Store\<close>: the tables of \<open>services/migrations\<close> as lists of rows and the \<open>prog\<close> monad of code that
  sends statements: a \<open>world\<close> is the tables and the list of replies to come, each of which executes a
  statement, loses its reply, or fails it; \<open>tx\<close> is a transaction that rolls back.

  \<^bold>\<open>Components, theory by theory.\<close> Definitions carry the names of the code, except where a name clashes.
    \<^item> \<open>Ids\<close>, \<open>Logging\<close>, \<open>AuditTrail\<close> (\<open>internal/logging\<close>, \<open>internal/audit\<close>): identifiers, redaction, \<open>Writer.Record\<close>
      and its table; locale \<open>event_log\<close>.
    \<^item> \<open>Jobs\<close>, \<open>JobStore\<close>, \<open>JobWorker\<close> (\<open>internal/jobs\<close>): the queue over any store, the SQL store statement by
      statement with the CHECK and UNIQUE constraints, the worker over any queue and executor (locale
      \<open>finalizer\<close>) with the executor of \<open>cmd/motekar-panel/main.go\<close>. \<open>JobInvariants\<close>: the life cycle of one row as
      an abstract step relation and the simulation by every statement; \<open>JobQueue\<close>: the queue as a transition
      system; \<open>JobBudget\<close>: its runs with a record of the calls that handed out a job; \<open>JobProps\<close> and
      \<open>JobOutcome\<close>: its properties. The loop of the worker calls \<open>runOnce\<close> on the database, round by round.
    \<^item> \<open>Rbac\<close>, \<open>Settings\<close>, \<open>Password\<close>, \<open>Session\<close>, \<open>Bootstrap\<close>, \<open>LoginLimiter\<close>: permissions (locale
      \<open>permission_checker\<close>), the immutable web server (locale \<open>write_once_store\<close>), argon2id texts, sessions, the
      first administrator, the fixed-window limiters.
    \<^item> \<open>Migrations\<close> (locale \<open>migration_steps\<close>), \<open>Config\<close>, \<open>Preflight\<close>.
    \<^item> \<open>Installer\<close> (plan and \<open>Apply\<close>, locale \<open>logged_executor\<close>), \<open>FullInstaller\<close> (every action, on a host that records
      commands, directories and files), \<open>Ctl\<close> (\<open>cmd/motekarctl\<close>).
    \<^item> \<open>AgentActions\<close> (payload types and decoding), \<open>Inventory\<close>, \<open>AgentRpc\<close> (registry, handlers, client),
      \<open>AgentCalls\<close> (client and server composed), \<open>AgentSocket\<close> (\<open>ListenUnix\<close>), \<open>AgentMain\<close> (the agent process).
    \<^item> \<open>Web\<close> (requests, responses, signing in and out), \<open>WebServer\<close> (guard, pages, routes), \<open>Panel\<close> (the panel process:
      its assembly of the services, its commands), \<open>WebGuard\<close> (locale \<open>guarded_site\<close>, interpreted on the panel's own
      assembly) and \<open>WebRequests\<close>: what requests can do. \<open>PanelJobs\<close>: the worker of the panel process, with the
      agent's client as its executor, over the SQL queue.

  \<^bold>\<open>What is shown.\<close> Jobs: as long as statements run one after another, two jobs with one resource key never run
  at once; a worker whose lease was taken over changes nothing, the claims that hand out a job are bounded
  by its attempts and retries, every row follows the life cycle, each method has exactly the
  stated effect and its errors none, errors never stop the worker, results and messages meet their policy, and what the transport
  reports of the agent's call decides what becomes of the row. Access: a protected page
  needs a live session of an active user with its permission, a request from another site changes
  nothing and is refused first, password checks per source are bounded while its limiter has room, a session row is created only by a verified password, the seeded
  database and the role tables agree, the first administrator is created once. Agent: payload types are
  plain, only allowlisted actions run, a call returns what the action found, a running agent keeps its
  socket. Installation: what runs is a beginning of one fixed list, only after every requirement is met;
  a complete run leaves the planned configuration; migrations apply in order up to the first failure;
  the web server is chosen once under any interleaving.

  \<^bold>\<open>Bounds, loops and fuel.\<close> No definition uses fuel. Loops of the code are structural recursion, or recursion with a
  proved measure; the ancestor walk of \<open>ListenUnix\<close>, whose end depends on \<open>filepath.Dir\<close>, is a
  partial function that is proved to return. Integers are mathematical where the code's values stay far
  from their bounds, and kept at their width where they wrap: free disk bytes at 64 bits, hash parameters at 32
  and 8 bits, the bytes of identifiers and of SHA-256. Times and durations are nanoseconds.

  \<^bold>\<open>Parameters.\<close> What is not under \<open>src/\<close> is an argument: the table of lower-case letters beyond ASCII,
  argon2id, \<open>mail.ParseAddress\<close>, PostgreSQL's casts to uuid, jsonb and inet and its execution of migration texts,
  \<open>strconv.ParseFloat\<close> and the text \<open>json.Marshal\<close> writes for a float,
  \<open>mime.ParseMediaType\<close>, \<open>url.Parse\<close>, \<open>net.ParseIP\<close>, the outcome of an HTTP exchange, the
  answers of the kernel in \<open>socket_host\<close>, the outcome of commands and file calls of the installer, clocks, random
  bytes, and the order of a range over a Go map.

  \<^bold>\<open>Assumptions of the model.\<close>
    \<^item> SQL statements run one after another: each reads what those before it wrote, while \<open>contention\<close>
      gives the locks other transactions hold. Two claims on one snapshot are outside this, and do
      break the exclusion of resource keys (lemma \<open>overlapping_claims_share_key\<close>). Rows that tie in an
      \<open>ORDER BY\<close> come in the order of the table, which SQL leaves open: among jobs due at the same time and
      created at the same time, and among leases that ran out together, another one may be taken.
    \<^item> Text values given to the database and to \<open>%q\<close> are valid UTF-8 and printable; a failed file call leaves no file behind.
    \<^item> Go payload types are finite trees; the \<open>string\<close> option of a JSON tag, types with their own
      \<open>UnmarshalJSON\<close>, and the rule of \<open>encoding/json\<close> that ignores a tag name with characters it does not
      allow (it decodes such a field under its Go name) are not modelled. An answer to \<open>GET /healthz\<close> of the agent is one JSON value.
    \<^item> A repeated \<open>logs\<close> key in an answer of the agent replaces the earlier one as a whole, and the error for JSON nested
      too deeply is the one for malformed JSON.
    \<^item> Templates always render; a page is the data its template shows. Redirects built by the handlers are already
      clean paths, and the address of a moved path is not escaped again.

  \<^bold>\<open>Not modelled.\<close> The text of the HTML templates and styles; \<open>main\<close> functions, signals, goroutines and timeouts (how a
  server or a worker ends is an input of \<open>serve_result\<close> and \<open>agent_serve\<close>); \<open>execCommandRunner\<close>, which only
  starts a process; the JSON text of a log entry; comments-only packages and the embedding of the SQL files.
\<close>

end
